theory Spec2Isabelle
  imports Complex_Main
begin

section \<open>Python primitives used by \<open>mpn.py\<close>\<close>

text \<open>
  The exceptions that can leave the functions of \<open>mpn.py\<close>, by class:
  \<open>ArgumentError\<close> is what the chemistry toolkit's bindings raise when a function that
  expects a molecule is handed \<open>None\<close>; \<open>ValueError\<close> is raised by \<open>max\<close> on an empty
  sequence, by the toolkit when a molecule has no conformer, and by \<open>MPN.__init__\<close> on an
  unsupported activation; \<open>RuntimeError\<close> is raised by the tensor library on a shape
  mismatch; \<open>IndexError\<close> by a subscript out of range.
\<close>

datatype error = ArgumentError | ValueError | RuntimeError | IndexError

text \<open>
  \<open>xs.index(v)\<close>: the position of the first element equal to \<open>v\<close>. Python raises
  \<open>ValueError\<close> when there is none; the only caller tests \<open>v in xs\<close> first.
\<close>

fun first_index :: "'a list \<Rightarrow> 'a \<Rightarrow> nat" where
  "first_index [] v = 0"
| "first_index (c # cs) v = (if c = v then 0 else Suc (first_index cs v))"

text \<open>
  A Python subscript \<open>i\<close> on a list of length \<open>n\<close>: negative subscripts count from the
  end; \<open>None\<close> stands for \<open>IndexError\<close>.
\<close>

definition py_subscript :: "nat \<Rightarrow> int \<Rightarrow> nat option" where
  "py_subscript n i =
     (let j = (if i < 0 then i + int n else i)
      in if 0 \<le> j \<and> j < int n then Some (nat j) else None)"

section \<open>Feature encoders\<close>

text \<open>
  \<open>onek_encoding_unk(value, choices)\<close>, lines 60-73. The subscript of the assignment
  \<open>encoding[index] = 1\<close> is always in range (lemma \<open>onek_subscript_in_range\<close> below), so
  the assignment never raises.
\<close>

definition onek_encoding_unk :: "'a \<Rightarrow> 'a list \<Rightarrow> int list" where
  "onek_encoding_unk v choices =
     (let encoding = replicate (length choices + 1) 0;
          index = (if v \<in> set choices then int (first_index choices v) else - 1)
      in case py_subscript (length encoding) index of
           Some j \<Rightarrow> encoding[j := 1]
         | None \<Rightarrow> encoding)"

text \<open>
  The toolkit's enumerations. Their members are integers to Python, and the source
  compares \<open>int(member)\<close> with members; two members are equal as integers exactly when
  they are the same member, so the model compares members.
\<close>

datatype HybridizationType = UNSPECIFIED | S | SP | SP2 | SP3 | SP3D | SP3D2 | OTHER

datatype BondType = SINGLE | DOUBLE | TRIPLE | AROMATIC | OTHER_BOND nat

text \<open>What \<open>atom_features\<close> reads from a toolkit atom.\<close>

record Atom =
  GetAtomicNum :: int
  GetDegree :: int
  GetFormalCharge :: int
  GetChiralTag :: int
  GetImplicitValence :: int
  GetTotalNumHs :: int
  GetHybridization :: HybridizationType
  GetNumRadicalElectrons :: int
  GetIsAromatic :: bool

text \<open>What \<open>bond_features\<close> reads from a toolkit bond.\<close>

record Bond =
  GetBondType :: BondType
  GetIsConjugated :: bool
  IsInRing :: bool
  GetStereo :: int

text \<open>The table \<open>ATOM_FEATURES\<close>, lines 14-29, one constant per key.\<close>

definition ATOM_FEATURES_atomic_num :: "int list" where
  "ATOM_FEATURES_atomic_num = map int [0..<100]"

definition ATOM_FEATURES_degree :: "int list" where
  "ATOM_FEATURES_degree = [0, 1, 2, 3, 4, 5]"

definition ATOM_FEATURES_formal_charge :: "int list" where
  "ATOM_FEATURES_formal_charge = [- 1, - 2, 1, 2, 0]"

definition ATOM_FEATURES_chiral_tag :: "int list" where
  "ATOM_FEATURES_chiral_tag = [0, 1, 2, 3]"

definition ATOM_FEATURES_implicit_valence :: "int list" where
  "ATOM_FEATURES_implicit_valence = [0, 1, 2, 3, 4, 5, 6]"

definition ATOM_FEATURES_num_Hs :: "int list" where
  "ATOM_FEATURES_num_Hs = [0, 1, 2, 3, 4]"

definition ATOM_FEATURES_hybridization :: "HybridizationType list" where
  "ATOM_FEATURES_hybridization = [SP, SP2, SP3, SP3D, SP3D2]"

definition ATOM_FEATURES_num_radical_electrons :: "int list" where
  "ATOM_FEATURES_num_radical_electrons = [0, 1, 2]"

text \<open>
  \<open>sum(len(choices) + 1 for choices in ATOM_FEATURES.values()) + 1\<close>, line 32: the
  lengths of the eight lists in the order of the table.
\<close>

definition ATOM_FEATURES_lengths :: "nat list" where
  "ATOM_FEATURES_lengths =
     [length ATOM_FEATURES_atomic_num, length ATOM_FEATURES_degree,
      length ATOM_FEATURES_formal_charge, length ATOM_FEATURES_chiral_tag,
      length ATOM_FEATURES_implicit_valence, length ATOM_FEATURES_num_Hs,
      length ATOM_FEATURES_hybridization, length ATOM_FEATURES_num_radical_electrons]"

definition ATOM_FDIM :: nat where
  "ATOM_FDIM = sum_list (map (\<lambda>n. n + 1) ATOM_FEATURES_lengths) + 1"

definition BOND_FDIM :: nat where
  "BOND_FDIM = 14"

definition get_atom_fdim :: nat where
  "get_atom_fdim = ATOM_FDIM"

definition get_bond_fdim :: "bool \<Rightarrow> bool \<Rightarrow> nat" where
  "get_bond_fdim three_d virtual_edges =
     BOND_FDIM + of_bool three_d + 11 * of_bool virtual_edges"

text \<open>
  \<open>torch.Tensor(list)\<close> turns a list of Python integers and booleans into a vector of
  floating-point numbers; tensor entries are modelled as reals.
\<close>

definition torch_Tensor :: "int list \<Rightarrow> real list" where
  "torch_Tensor xs = map real_of_int xs"

text \<open>\<open>atom_features(atom)\<close>, lines 76-93.\<close>

definition atom_features :: "Atom \<Rightarrow> real list" where
  "atom_features atom = torch_Tensor
     (onek_encoding_unk (GetAtomicNum atom - 1) ATOM_FEATURES_atomic_num
      @ onek_encoding_unk (GetDegree atom) ATOM_FEATURES_degree
      @ onek_encoding_unk (GetFormalCharge atom) ATOM_FEATURES_formal_charge
      @ onek_encoding_unk (GetChiralTag atom) ATOM_FEATURES_chiral_tag
      @ onek_encoding_unk (GetImplicitValence atom) ATOM_FEATURES_implicit_valence
      @ onek_encoding_unk (GetTotalNumHs atom) ATOM_FEATURES_num_Hs
      @ onek_encoding_unk (GetHybridization atom) ATOM_FEATURES_hybridization
      @ onek_encoding_unk (GetNumRadicalElectrons atom) ATOM_FEATURES_num_radical_electrons
      @ [of_bool (GetIsAromatic atom)])"

text \<open>
  \<open>bond_features(bond, distance_path, distance_3d)\<close>, lines 96-124. A toolkit bond
  always has a bond type, so the tests \<open>bt is not None\<close> of lines 116-117 are true. The
  topological distance is a floating-point entry of the toolkit's matrix, compared with
  the integers \<open>0..9\<close> by value.
\<close>

definition bond_features :: "Bond option \<Rightarrow> real option \<Rightarrow> real option \<Rightarrow> real list" where
  "bond_features bond distance_path distance_3d =
     (let fbond =
            (case bond of
               None \<Rightarrow> [1] @ replicate 13 0
             | Some b \<Rightarrow>
                 (let bt = GetBondType b in
                  [0,
                   of_bool (bt = SINGLE),
                   of_bool (bt = DOUBLE),
                   of_bool (bt = TRIPLE),
                   of_bool (bt = AROMATIC),
                   of_bool (GetIsConjugated b),
                   of_bool (IsInRing b)]
                  @ torch_Tensor (onek_encoding_unk (GetStereo b) (map int [0..<6]))));
          fdistance_path =
            (case distance_path of
               Some d \<Rightarrow> torch_Tensor (onek_encoding_unk d (map real [0..<10]))
             | None \<Rightarrow> []);
          fdistance_3d = (case distance_3d of Some d \<Rightarrow> [d] | None \<Rightarrow> [])
      in fbond @ fdistance_path @ fdistance_3d)"


section \<open>The chemistry toolkit\<close>

text \<open>
  The toolkit is an external collaborator: its functions are parameters of the model,
  over any type \<open>'mol\<close> of molecule objects. \<open>MolFromSmiles\<close> returns \<open>None\<close> for a
  notation it cannot parse (it does not raise). \<open>EmbedMolecule(mol, ETKDG())\<close> updates
  the molecule in place with a conformer and returns a conformer id that the source
  discards; the model returns the updated molecule. The parameters \<open>ETKDG()\<close> carry no
  seed, so the conformer is chosen by a random generator: the generator's draw is the
  first argument of \<open>EmbedMolecule\<close> here, and two embeddings of one molecule agree only
  when their draws do. \<open>EmbedMolecule\<close> raises \<open>ValueError\<close> on a molecule it rejects, such
  as one without atoms (\<open>None\<close> here); an embedding that fails without raising leaves the
  molecule without a conformer. \<open>Get3DDistanceMatrix\<close> raises \<open>ValueError\<close> on a
  molecule without a conformer (\<open>None\<close> here). The matrices are functions of two atom
  indices. The atoms of a molecule are the list \<open>GetAtoms\<close>, and \<open>mol.GetNumAtoms()\<close> is
  its length. Everything but the embedding is a function of its arguments.
\<close>

record 'mol toolkit =
  MolFromSmiles :: "string \<Rightarrow> 'mol option"
  AddHs :: "'mol \<Rightarrow> 'mol"
  RemoveHs :: "'mol \<Rightarrow> 'mol"
  EmbedMolecule :: "nat \<Rightarrow> 'mol \<Rightarrow> 'mol option"
  Get3DDistanceMatrix :: "'mol \<Rightarrow> (nat \<Rightarrow> nat \<Rightarrow> real) option"
  GetDistanceMatrix :: "'mol \<Rightarrow> nat \<Rightarrow> nat \<Rightarrow> real"
  GetAtoms :: "'mol \<Rightarrow> Atom list"
  GetBondBetweenAtoms :: "'mol \<Rightarrow> nat \<Rightarrow> nat \<Rightarrow> Bond option"

definition GetNumAtoms :: "'mol toolkit \<Rightarrow> 'mol \<Rightarrow> nat" where
  "GetNumAtoms tk mol = length (GetAtoms tk mol)"

text \<open>
  The calls of the toolkit's module-level functions (\<open>Chem.*\<close>, \<open>AllChem.*\<close>) are the
  observable effect of featurising a molecule; a trace lists them in order.
\<close>

datatype toolkit_call =
  CallMolFromSmiles | CallAddHs | CallEmbedMolecule | CallRemoveHs
  | CallGet3DDistanceMatrix | CallGetDistanceMatrix

type_synonym 'a traced = "(error + 'a) \<times> toolkit_call list"

definition call :: "toolkit_call \<Rightarrow> error + 'a \<Rightarrow> 'a traced" where
  "call c r = (r, [c])"

definition done_traced :: "'a \<Rightarrow> 'a traced" where
  "done_traced x = (Inr x, [])"

text \<open>Sequencing: an exception ends the computation, the trace so far is kept.\<close>

definition and_then :: "'a traced \<Rightarrow> ('a \<Rightarrow> 'b traced) \<Rightarrow> 'b traced" where
  "and_then m f =
     (case m of
        (Inl e, t) \<Rightarrow> (Inl e, t)
      | (Inr x, t) \<Rightarrow> (case f x of (r, t') \<Rightarrow> (r, t @ t')))"

text \<open>
  A toolkit function applied to a variable that may hold \<open>None\<close>: the bindings reject
  \<open>None\<close> with \<open>ArgumentError\<close>.
\<close>

definition on_mol :: "('mol \<Rightarrow> 'a) \<Rightarrow> 'mol option \<Rightarrow> error + 'a" where
  "on_mol f mol = (case mol of None \<Rightarrow> Inl ArgumentError | Some m \<Rightarrow> Inr (f m))"

section \<open>The graph batcher\<close>

text \<open>
  The memoised tuple \<open>(mol_fatoms, mol_fbonds, mol_all_bonds, n_atoms)\<close> of line 196.
\<close>

type_synonym features = "real list list \<times> real list list \<times> (nat \<times> nat) list \<times> nat"

text \<open>\<open>range(a1 + 1, n_atoms)\<close> inside \<open>range(n_atoms)\<close>, lines 175-176.\<close>

definition atom_pairs :: "nat \<Rightarrow> (nat \<times> nat) list" where
  "atom_pairs n_atoms = concat (map (\<lambda>a1. map (Pair a1) [a1 + 1 ..< n_atoms]) [0 ..< n_atoms])"

text \<open>
  The body of the loop over atom pairs, lines 177-193. \<open>distances_3d\<close> is bound exactly
  when \<open>three_d\<close> is set, so the model holds it as an option.
\<close>

definition bond_step ::
  "'mol toolkit \<Rightarrow> 'mol \<Rightarrow> (nat \<Rightarrow> nat \<Rightarrow> real) option \<Rightarrow> (nat \<Rightarrow> nat \<Rightarrow> real) \<Rightarrow> bool \<Rightarrow>
   real list list \<Rightarrow> real list list \<times> (nat \<times> nat) list \<Rightarrow> nat \<times> nat \<Rightarrow>
   real list list \<times> (nat \<times> nat) list" where
  "bond_step tk mol distances_3d distances_path virtual_edges mol_fatoms acc p =
     (case (acc, p) of ((mol_fbonds, mol_all_bonds), (a1, a2)) \<Rightarrow>
        (let bond = GetBondBetweenAtoms tk mol a1 a2 in
         if bond = None \<and> \<not> virtual_edges then (mol_fbonds, mol_all_bonds)
         else
           (let distance_3d = map_option (\<lambda>d. d a1 a2) distances_3d;
                distance_path = (if virtual_edges then Some (distances_path a1 a2) else None);
                bf = bond_features bond distance_path distance_3d
            in (mol_fbonds @ [mol_fatoms ! a1 @ bf, mol_fatoms ! a2 @ bf],
                mol_all_bonds @ [(a1, a2), (a2, a1)]))))"

text \<open>Lines 168-193, on a molecule that parsed.\<close>

definition mol_features ::
  "'mol toolkit \<Rightarrow> 'mol \<Rightarrow> (nat \<Rightarrow> nat \<Rightarrow> real) option \<Rightarrow> (nat \<Rightarrow> nat \<Rightarrow> real) \<Rightarrow> bool \<Rightarrow>
   features" where
  "mol_features tk mol distances_3d distances_path virtual_edges =
     (let n_atoms = GetNumAtoms tk mol;
          mol_fatoms = map atom_features (GetAtoms tk mol);
          (mol_fbonds, mol_all_bonds) =
             foldl (bond_step tk mol distances_3d distances_path virtual_edges mol_fatoms)
               ([], []) (atom_pairs n_atoms)
      in (mol_fatoms, mol_fbonds, mol_all_bonds, n_atoms))"

text \<open>
  The cache-miss branch, lines 150-193: the tuple, or the exception, and the toolkit
  calls made. \<open>draw\<close> is what the random generator gives the embedding of line 161, if
  that line is run. After line 167 the molecule is not \<open>None\<close> (the call of line 167
  would have raised).
\<close>

definition featurize ::
  "'mol toolkit \<Rightarrow> nat \<Rightarrow> string \<Rightarrow> bool \<Rightarrow> bool \<Rightarrow> bool \<Rightarrow> features traced" where
  "featurize tk draw smiles addHs three_d virtual_edges =
     and_then (call CallMolFromSmiles (Inr (MolFromSmiles tk smiles))) (\<lambda>mol.
     and_then (if addHs then call CallAddHs (on_mol (\<lambda>m. Some (AddHs tk m)) mol)
               else done_traced mol) (\<lambda>mol.
     and_then (if three_d then
                 and_then (call CallAddHs (on_mol (AddHs tk) mol)) (\<lambda>m.
                 and_then (call CallEmbedMolecule
                             (case EmbedMolecule tk draw m of
                                None \<Rightarrow> Inl ValueError
                              | Some m \<Rightarrow> Inr m)) (\<lambda>m.
                 and_then (if \<not> addHs then call CallRemoveHs (Inr (RemoveHs tk m))
                           else done_traced m) (\<lambda>m.
                 and_then (call CallGet3DDistanceMatrix
                             (case Get3DDistanceMatrix tk m of
                                None \<Rightarrow> Inl ValueError
                              | Some d \<Rightarrow> Inr d)) (\<lambda>d.
                 done_traced (Some m, Some d)))))
               else done_traced (mol, None)) (\<lambda>(mol, distances_3d).
     and_then (call CallGetDistanceMatrix
                 (on_mol (\<lambda>m. (m, GetDistanceMatrix tk m)) mol)) (\<lambda>(m, distances_path).
     done_traced (mol_features tk m distances_3d distances_path virtual_edges)))))"

text \<open>
  The state that outlives a call: the module-level dictionary \<open>SMILES_TO_FEATURES\<close> and
  the trace of toolkit calls made so far, each with the notation being featurised.
\<close>

record state =
  SMILES_TO_FEATURES :: "string \<rightharpoonup> features"
  toolkit_trace :: "(string \<times> toolkit_call) list"

definition initial_state :: state where
  "initial_state = \<lparr>SMILES_TO_FEATURES = Map.empty, toolkit_trace = []\<rparr>"

text \<open>
  Lines 147-196: the tuple of one notation, from the cache or computed and memoised.
  When the computation raises, nothing is memoised. Within one call of \<open>mol2graph\<close> a
  notation is featurised at most once (afterwards it is memoised, or the call has
  raised), so the draws of a call are given per notation: \<open>draws smiles\<close> is the draw
  of the embedding of \<open>smiles\<close> in this call.
\<close>

definition load_features ::
  "'mol toolkit \<Rightarrow> (string \<Rightarrow> nat) \<Rightarrow> string \<Rightarrow> bool \<Rightarrow> bool \<Rightarrow> bool \<Rightarrow> state \<Rightarrow>
   (error + features) \<times> state" where
  "load_features tk draws smiles addHs three_d virtual_edges st =
     (case SMILES_TO_FEATURES st smiles of
        Some feats \<Rightarrow> (Inr feats, st)
      | None \<Rightarrow>
          (case featurize tk (draws smiles) smiles addHs three_d virtual_edges of (r, calls) \<Rightarrow>
             (let st' = st\<lparr>toolkit_trace := toolkit_trace st @ map (Pair smiles) calls\<rparr>
              in case r of
                   Inl e \<Rightarrow> (Inl e, st')
                 | Inr feats \<Rightarrow>
                     (Inr feats,
                      st'\<lparr>SMILES_TO_FEATURES := (SMILES_TO_FEATURES st')(smiles \<mapsto> feats)\<rparr>))))"

text \<open>The local variables of \<open>mol2graph\<close> that the loop over the batch updates.\<close>

record batch_vars =
  fatoms_v :: "real list list"
  fbonds_v :: "real list list"
  in_bonds :: "nat list list"
  all_bonds :: "(int \<times> int) list"
  scope_v :: "(nat \<times> nat) list"
  total_atoms :: nat

text \<open>
  The body of the loop of lines 204-210; \<open>offset\<close> is the value of \<open>total_atoms\<close>
  when the molecule is added. \<open>in_bonds[a2]\<close> raises \<open>IndexError\<close> when \<open>a2\<close> is out
  of range.
\<close>

definition add_bond ::
  "nat \<Rightarrow> (int \<times> int) list \<times> nat list list \<Rightarrow> nat \<times> nat \<Rightarrow>
   error + (int \<times> int) list \<times> nat list list" where
  "add_bond offset acc p =
     (case (acc, p) of ((ab, ib), (a1, a2)) \<Rightarrow>
        (let a1 = a1 + offset;
             a2 = a2 + offset;
             bond_idx = length ab;
             ab = ab @ [(int a1, int a2)]
         in if a2 < length ib
            then Inr (ab, ib[a2 := ib ! a2 @ [bond_idx]])
            else Inl IndexError))"

fun add_bonds ::
  "nat \<Rightarrow> (nat \<times> nat) list \<Rightarrow> (int \<times> int) list \<times> nat list list \<Rightarrow>
   error + (int \<times> int) list \<times> nat list list" where
  "add_bonds offset [] acc = Inr acc"
| "add_bonds offset (p # ps) acc =
     (case add_bond offset acc p of
        Inl e \<Rightarrow> Inl e
      | Inr acc' \<Rightarrow> add_bonds offset ps acc')"

text \<open>Lines 198-213: one molecule's tuple is added to the batch.\<close>

definition add_molecule :: "features \<Rightarrow> batch_vars \<Rightarrow> error + batch_vars" where
  "add_molecule feats v =
     (case feats of (mol_fatoms, mol_fbonds, mol_all_bonds, n_atoms) \<Rightarrow>
        (case add_bonds (total_atoms v) mol_all_bonds
                (all_bonds v, in_bonds v @ replicate n_atoms []) of
           Inl e \<Rightarrow> Inl e
         | Inr (ab, ib) \<Rightarrow>
             Inr \<lparr>fatoms_v = fatoms_v v @ mol_fatoms,
                  fbonds_v = fbonds_v v @ mol_fbonds,
                  in_bonds = ib,
                  all_bonds = ab,
                  scope_v = scope_v v @ [(total_atoms v, n_atoms)],
                  total_atoms = total_atoms v + n_atoms\<rparr>))"

text \<open>The loop of lines 146-213.\<close>

fun batch_loop ::
  "'mol toolkit \<Rightarrow> (string \<Rightarrow> nat) \<Rightarrow> bool \<Rightarrow> bool \<Rightarrow> bool \<Rightarrow> string list \<Rightarrow> batch_vars \<Rightarrow>
   state \<Rightarrow> (error + batch_vars) \<times> state" where
  "batch_loop tk draws addHs three_d virtual_edges [] v st = (Inr v, st)"
| "batch_loop tk draws addHs three_d virtual_edges (smiles # rest) v st =
     (case load_features tk draws smiles addHs three_d virtual_edges st of
        (Inl e, st') \<Rightarrow> (Inl e, st')
      | (Inr feats, st') \<Rightarrow>
          (case add_molecule feats v of
             Inl e \<Rightarrow> (Inl e, st')
           | Inr v' \<Rightarrow> batch_loop tk draws addHs three_d virtual_edges rest v' st'))"

text \<open>The output tuple \<open>(fatoms, fbonds, agraph, bgraph, scope)\<close>.\<close>

record mol_graph =
  fatoms :: "real list list"
  fbonds :: "real list list"
  agraph :: "nat list list"
  bgraph :: "nat list list"
  scope :: "(nat \<times> nat) list"

text \<open>\<open>max\<close> of a sequence: \<open>ValueError\<close> on the empty sequence.\<close>

fun py_max :: "nat list \<Rightarrow> error + nat" where
  "py_max [] = Inl ValueError"
| "py_max (x # xs) = Inr (fold max xs x)"

text \<open>
  \<open>torch.stack(tensors, dim=0)\<close> of vectors: \<open>RuntimeError\<close> on an empty list and on
  vectors of different sizes.
\<close>

definition torch_stack :: "real list list \<Rightarrow> error + real list list" where
  "torch_stack ts =
     (case ts of
        [] \<Rightarrow> Inl RuntimeError
      | t # _ \<Rightarrow> if list_all (\<lambda>u. length u = length t) ts then Inr ts else Inl RuntimeError)"

text \<open>
  A row of an index table: \<open>torch.zeros\<close> of the row's width, then the assignments
  \<open>row[i] = b\<close> in order.
\<close>

definition fill_row :: "nat \<Rightarrow> (nat \<times> nat) list \<Rightarrow> nat list" where
  "fill_row width assignments = fold (\<lambda>(i, b) row. row[i := b]) assignments (replicate width 0)"

text \<open>The loop of lines 223-225 for one atom \<open>a\<close>.\<close>

definition agraph_row :: "nat \<Rightarrow> nat list list \<Rightarrow> nat \<Rightarrow> nat list" where
  "agraph_row max_num_bonds ib a = fill_row max_num_bonds (enumerate 0 (ib ! a))"

text \<open>
  The loop of lines 227-231 for one bond \<open>b1\<close>; row 0 is never assigned. \<open>in_bonds[x]\<close>
  raises \<open>IndexError\<close> when \<open>x\<close> is out of range; \<open>x\<close> is never negative for \<open>b1 \<ge> 1\<close>.
\<close>

definition bgraph_row ::
  "nat \<Rightarrow> nat list list \<Rightarrow> (int \<times> int) list \<Rightarrow> nat \<Rightarrow> error + nat list" where
  "bgraph_row max_num_bonds ib ab b1 =
     (if b1 = 0 then Inr (replicate max_num_bonds 0)
      else
        (case ab ! b1 of (x, y) \<Rightarrow>
           if nat x < length ib
           then Inr (fill_row max_num_bonds
                       (filter (\<lambda>(i, b2). fst (ab ! b2) \<noteq> y) (enumerate 0 (ib ! nat x))))
           else Inl IndexError))"

text \<open>The first exception of a sequence of computations, or all their results.\<close>

fun collect :: "(error + 'a) list \<Rightarrow> error + 'a list" where
  "collect [] = Inr []"
| "collect (r # rs) =
     (case r of
        Inl e \<Rightarrow> Inl e
      | Inr x \<Rightarrow> (case collect rs of Inl e \<Rightarrow> Inl e | Inr xs \<Rightarrow> Inr (x # xs)))"

text \<open>Lines 215-233.\<close>

definition build_graph :: "batch_vars \<Rightarrow> error + mol_graph" where
  "build_graph v =
     (let total_bonds = length (all_bonds v) in
      case py_max (map length (in_bonds v)) of
        Inl e \<Rightarrow> Inl e
      | Inr max_num_bonds \<Rightarrow>
          (case torch_stack (fatoms_v v) of
             Inl e \<Rightarrow> Inl e
           | Inr fa \<Rightarrow>
               (case torch_stack (fbonds_v v) of
                  Inl e \<Rightarrow> Inl e
                | Inr fb \<Rightarrow>
                    (let ag = map (agraph_row max_num_bonds (in_bonds v)) [0 ..< total_atoms v]
                     in case collect (map (bgraph_row max_num_bonds (in_bonds v) (all_bonds v))
                                        [0 ..< total_bonds]) of
                          Inl e \<Rightarrow> Inl e
                        | Inr bg \<Rightarrow>
                            Inr \<lparr>fatoms = fa, fbonds = fb, agraph = ag, bgraph = bg,
                                 scope = scope_v v\<rparr>))))"

text \<open>The variables as lines 140-144 initialise them.\<close>

definition initial_vars :: "bool \<Rightarrow> bool \<Rightarrow> batch_vars" where
  "initial_vars three_d virtual_edges =
     (let padding = replicate (get_atom_fdim + get_bond_fdim three_d virtual_edges) 0
      in \<lparr>fatoms_v = [], fbonds_v = [padding], in_bonds = [], all_bonds = [(- 1, - 1)],
          scope_v = [], total_atoms = 0\<rparr>)"

text \<open>
  \<open>mol2graph(mol_batch, addHs, three_d, virtual_edges)\<close>, lines 127-233, from a state of
  the module to the result or the exception and the state it leaves; \<open>draws\<close> are the
  draws of the random generator in this call.
\<close>

definition mol2graph ::
  "'mol toolkit \<Rightarrow> (string \<Rightarrow> nat) \<Rightarrow> string list \<Rightarrow> bool \<Rightarrow> bool \<Rightarrow> bool \<Rightarrow> state \<Rightarrow>
   (error + mol_graph) \<times> state" where
  "mol2graph tk draws mol_batch addHs three_d virtual_edges st =
     (case batch_loop tk draws addHs three_d virtual_edges mol_batch
             (initial_vars three_d virtual_edges) st of
        (Inl e, st') \<Rightarrow> (Inl e, st')
      | (Inr v, st') \<Rightarrow> (build_graph v, st'))"

text \<open>
  The states the module can be in: \<open>SMILES_TO_FEATURES\<close> starts empty and only
  \<open>mol2graph\<close> writes to it.
\<close>

inductive reachable :: "'mol toolkit \<Rightarrow> state \<Rightarrow> bool" for tk :: "'mol toolkit" where
  reachable_initial: "reachable tk initial_state"
| reachable_call:
    "reachable tk st \<Longrightarrow>
     mol2graph tk draws mol_batch addHs three_d virtual_edges st = (r, st')
     \<Longrightarrow> reachable tk st'"

section \<open>Well-formed tuples\<close>

text \<open>
  What every tuple computed by lines 150-193 satisfies: one atom vector per atom, each
  of width \<open>ATOM_FDIM\<close>; one bond row per directed pair; the pairs are pairs of distinct
  atom indices of the molecule.
\<close>

definition wf_features :: "features \<Rightarrow> bool" where
  "wf_features feats =
     (case feats of (mol_fatoms, mol_fbonds, mol_all_bonds, n_atoms) \<Rightarrow>
        length mol_fatoms = n_atoms
        \<and> length mol_fbonds = length mol_all_bonds
        \<and> list_all (\<lambda>row. length row = ATOM_FDIM) mol_fatoms
        \<and> list_all (\<lambda>(a1, a2). a1 < n_atoms \<and> a2 < n_atoms \<and> a1 \<noteq> a2) mol_all_bonds)"

definition wf_cache :: "'mol toolkit \<Rightarrow> state \<Rightarrow> bool" where
  "wf_cache tk st =
     (\<forall>s e. SMILES_TO_FEATURES st s = Some e \<longrightarrow> wf_features e \<and> MolFromSmiles tk s \<noteq> None)"

text \<open>The scope entries of molecules with the given atom counts, from a running total.\<close>

fun scopes :: "nat \<Rightarrow> nat list \<Rightarrow> (nat \<times> nat) list" where
  "scopes k [] = []"
| "scopes k (n # ns) = (k, n) # scopes (k + n) ns"

text \<open>
  The directed bonds of a batch that end at atom \<open>i\<close>, by their global indices (index 0
  is the sentinel and not a bond).
\<close>

definition incoming :: "(int \<times> int) list \<Rightarrow> nat \<Rightarrow> nat list" where
  "incoming ab i = filter (\<lambda>b. snd (ab ! b) = int i) [1 ..< length ab]"

text \<open>What the loop of lines 204-210 keeps true of \<open>all_bonds\<close> and \<open>in_bonds\<close>.\<close>

definition bonds_inv :: "(int \<times> int) list \<Rightarrow> nat list list \<Rightarrow> bool" where
  "bonds_inv ab ib =
     (ab \<noteq> []
      \<and> (\<forall>i < length ib. ib ! i = incoming ab i)
      \<and> (\<forall>b. 1 \<le> b \<and> b < length ab \<longrightarrow>
             0 \<le> fst (ab ! b) \<and> 0 \<le> snd (ab ! b) \<and> nat (snd (ab ! b)) < length ib))"

text \<open>A state and a state that later calls of \<open>mol2graph\<close> lead to from it.\<close>

inductive later :: "'mol toolkit \<Rightarrow> state \<Rightarrow> state \<Rightarrow> bool" for tk :: "'mol toolkit" where
  later_now: "later tk st st"
| later_call:
    "later tk st st' \<Longrightarrow>
     mol2graph tk draws mol_batch addHs three_d virtual_edges st' = (r, st'')
     \<Longrightarrow> later tk st st''"

section \<open>The message passing network\<close>

text \<open>
  Tensors are lists: a vector is a list of reals, a matrix a list of row vectors, a
  three-dimensional tensor a list of matrices. Arithmetic is that of the reals: rounding,
  infinities and NaN of floating point are not modelled. Where the tensor library
  raises on a shape mismatch or an index out of range, the model returns the error.
\<close>

definition bind_error :: "error + 'a \<Rightarrow> ('a \<Rightarrow> error + 'b) \<Rightarrow> error + 'b" where
  "bind_error r f = (case r of Inl e \<Rightarrow> Inl e | Inr x \<Rightarrow> f x)"

text \<open>
  \<open>nn.Linear(in_features, out_features, bias)\<close>: a weight of shape \<open>out_features\<close> by
  \<open>in_features\<close> and, unless \<open>bias=False\<close>, a bias of length \<open>out_features\<close>.
\<close>

record Linear =
  in_features :: nat
  out_features :: nat
  weight :: "nat \<Rightarrow> nat \<Rightarrow> real"
  bias :: "(nat \<Rightarrow> real) option"

text \<open>A linear layer applied to one vector, and to every row of a matrix.\<close>

definition linear :: "Linear \<Rightarrow> real list \<Rightarrow> error + real list" where
  "linear L x =
     (if length x = in_features L
      then Inr (map (\<lambda>out. sum_list (map (\<lambda>i. weight L out i * x ! i) [0 ..< in_features L])
                             + (case bias L of None \<Rightarrow> 0 | Some b \<Rightarrow> b out))
                  [0 ..< out_features L])
      else Inl RuntimeError)"

definition linear_rows :: "Linear \<Rightarrow> real list list \<Rightarrow> error + real list list" where
  "linear_rows L X = collect (map (linear L) X)"

text \<open>
  The activations \<open>MPN.__init__\<close> accepts: \<open>nn.ReLU()\<close>, \<open>nn.LeakyReLU(0.1)\<close>,
  \<open>nn.PReLU()\<close> with its one learned slope, \<open>nn.Tanh()\<close>.
\<close>

datatype activation = ReLU | LeakyReLU real | PReLU real | Tanh

fun activate :: "activation \<Rightarrow> real \<Rightarrow> real" where
  "activate ReLU x = max 0 x"
| "activate (LeakyReLU slope) x = max 0 x + slope * min 0 x"
| "activate (PReLU a) x = max 0 x + a * min 0 x"
| "activate Tanh x = tanh x"

text \<open>The arguments \<open>MPN.__init__\<close> reads.\<close>

record args =
  arg_hidden_size :: nat
  arg_depth :: int
  arg_dropout :: real
  arg_attention :: bool
  arg_message_attention :: bool
  arg_three_d :: bool
  arg_virtual_edges :: bool
  arg_activation :: string

text \<open>
  The values of the parameters: the tensor library draws them at construction and
  training changes them, so they are arbitrary.
\<close>

record parameters =
  W_i_weight :: "nat \<Rightarrow> nat \<Rightarrow> real"
  W_h_weight :: "nat \<Rightarrow> nat \<Rightarrow> real"
  W_o_weight :: "nat \<Rightarrow> nat \<Rightarrow> real"
  W_o_bias :: "nat \<Rightarrow> real"
  W_a_weight :: "nat \<Rightarrow> nat \<Rightarrow> real"
  W_b_weight :: "nat \<Rightarrow> nat \<Rightarrow> real"
  W_b_bias :: "nat \<Rightarrow> real"
  W_ma1_weight :: "nat \<Rightarrow> nat \<Rightarrow> real"
  PReLU_weight :: real

text \<open>
  The module. \<open>W_a\<close> and \<open>W_b\<close> are attributes only when \<open>attention\<close> is set and \<open>W_ma1\<close>
  only when \<open>message_attention\<close> is set; \<open>forward\<close> reads them only then. \<open>training\<close>
  is the mode flag of \<open>nn.Module\<close>, which the dropout layer reads.
\<close>

record MPN =
  hidden_size :: nat
  depth :: int
  dropout :: real
  attention :: bool
  message_attention :: bool
  W_i :: Linear
  W_h :: Linear
  W_o :: Linear
  W_a :: Linear
  W_b :: Linear
  W_ma1 :: Linear
  act_func :: activation
  training :: bool

text \<open>Lines 308-317.\<close>

definition select_activation :: "string \<Rightarrow> real \<Rightarrow> error + activation" where
  "select_activation name prelu =
     (if name = ''ReLU'' then Inr ReLU
      else if name = ''LeakyReLU'' then Inr (LeakyReLU (1 / 10))
      else if name = ''PReLU'' then Inr (PReLU prelu)
      else if name = ''tanh'' then Inr Tanh
      else Inl ValueError)"

text \<open>\<open>MPN.__init__(args)\<close>, lines 275-317; a new module is in training mode.\<close>

definition MPN_init :: "args \<Rightarrow> parameters \<Rightarrow> error + MPN" where
  "MPN_init a p =
     (let h = arg_hidden_size a in
      bind_error (select_activation (arg_activation a) (PReLU_weight p)) (\<lambda>act.
        Inr \<lparr>hidden_size = h,
             depth = arg_depth a,
             dropout = arg_dropout a,
             attention = arg_attention a,
             message_attention = arg_message_attention a,
             W_i = \<lparr>in_features = get_atom_fdim
                                    + get_bond_fdim (arg_three_d a) (arg_virtual_edges a),
                    out_features = h, weight = W_i_weight p, bias = None\<rparr>,
             W_h = \<lparr>in_features = h, out_features = h, weight = W_h_weight p, bias = None\<rparr>,
             W_o = \<lparr>in_features = get_atom_fdim + h, out_features = h,
                    weight = W_o_weight p, bias = Some (W_o_bias p)\<rparr>,
             W_a = \<lparr>in_features = h, out_features = h, weight = W_a_weight p, bias = None\<rparr>,
             W_b = \<lparr>in_features = h, out_features = h, weight = W_b_weight p,
                    bias = Some (W_b_bias p)\<rparr>,
             W_ma1 = \<lparr>in_features = h, out_features = 1, weight = W_ma1_weight p,
                      bias = None\<rparr>,
             act_func = act,
             training = True\<rparr>))"

text \<open>
  Modelled from the spec: \<open>index_select_ND\<close> of \<open>nn_utils\<close>, which is not among the
  sources. Given a matrix and a two-dimensional index table it gathers rows: entry
  \<open>(i, j)\<close> of the result is the row of the matrix at index \<open>table[i][j]\<close>; an index
  outside the matrix raises.
\<close>

definition index_select_ND ::
  "real list list \<Rightarrow> nat list list \<Rightarrow> error + real list list list" where
  "index_select_ND source index =
     collect (map (\<lambda>row. collect (map (\<lambda>k. if k < length source then Inr (source ! k)
                                             else Inl IndexError) row)) index)"

text \<open>
  The sum of a list of vectors of width \<open>h\<close> (\<open>.sum(dim=1)\<close> of a tensor whose last
  dimension is \<open>h\<close>; the sum of no vectors is the zero vector).
\<close>

definition sum_vectors :: "nat \<Rightarrow> real list list \<Rightarrow> real list" where
  "sum_vectors h vs = foldr (map2 (+)) vs (replicate h 0)"

definition softmax :: "real list \<Rightarrow> real list" where
  "softmax xs = map (\<lambda>x. exp x / sum_list (map exp xs)) xs"

definition dot :: "real list \<Rightarrow> real list \<Rightarrow> real" where
  "dot x y = sum_list (map2 (*) x y)"

text \<open>
  \<open>X + Y\<close> for two matrices of the same row width: the rows are added pairwise; when
  one matrix has one row it is broadcast; otherwise the row counts must agree.
\<close>

definition tensor_add :: "real list list \<Rightarrow> real list list \<Rightarrow> error + real list list" where
  "tensor_add X Y =
     (if length X = length Y then Inr (map2 (map2 (+)) X Y)
      else if length X = 1 then Inr (map (map2 (+) (X ! 0)) Y)
      else if length Y = 1 then Inr (map (\<lambda>x. map2 (+) x (Y ! 0)) X)
      else Inl RuntimeError)"

text \<open>
  \<open>nn.Dropout(p)\<close> on a matrix. In training mode every entry is multiplied by a random
  factor, 0 with probability \<open>p\<close> and \<open>1 / (1 - p)\<close> otherwise; in evaluation mode the
  layer is the identity. The random factors of a forward pass are a parameter:
  \<open>masks k i j\<close> is the factor of entry \<open>(i, j)\<close> in the \<open>k\<close>-th call of the layer.
\<close>

definition dropout_layer ::
  "MPN \<Rightarrow> (nat \<Rightarrow> nat \<Rightarrow> nat \<Rightarrow> real) \<Rightarrow> nat \<Rightarrow> real list list \<Rightarrow> real list list" where
  "dropout_layer M masks k X =
     (if training M
      then map (\<lambda>(i, row). map (\<lambda>(j, x). x * masks k i j) (enumerate 0 row)) (enumerate 0 X)
      else X)"

text \<open>
  Lines 335-336: each gathered message is scaled by the softmax, over the messages
  gathered for the same bond, of its score \<open>W_ma1(message)\<close>, repeated over the hidden
  dimension.
\<close>

definition attend_messages :: "MPN \<Rightarrow> real list list \<Rightarrow> error + real list list" where
  "attend_messages M gathered =
     bind_error (linear_rows (W_ma1 M) gathered) (\<lambda>scores.
       Inr (map2 (\<lambda>w v. map2 (*) v (replicate (hidden_size M) w))
              (softmax (map hd scores)) gathered))"

text \<open>One pass of the loop body, lines 334-340; \<open>k\<close> counts the calls of the dropout layer.\<close>

definition message_round ::
  "MPN \<Rightarrow> (nat \<Rightarrow> nat \<Rightarrow> nat \<Rightarrow> real) \<Rightarrow> mol_graph \<Rightarrow> real list list \<Rightarrow> nat \<Rightarrow>
   real list list \<Rightarrow> error + real list list" where
  "message_round M masks g binput k message =
     bind_error (index_select_ND message (bgraph g)) (\<lambda>nei_message.
     bind_error (if message_attention M then collect (map (attend_messages M) nei_message)
                 else Inr nei_message) (\<lambda>nei_message.
     bind_error (linear_rows (W_h M) (map (sum_vectors (hidden_size M)) nei_message))
       (\<lambda>nei_message.
     bind_error (tensor_add binput nei_message) (\<lambda>pre.
       Inr (dropout_layer M masks k (map (map (activate (act_func M))) pre))))))"

text \<open>The loop of lines 333-340, from pass \<open>k\<close>, for \<open>n\<close> more passes.\<close>

fun message_rounds ::
  "MPN \<Rightarrow> (nat \<Rightarrow> nat \<Rightarrow> nat \<Rightarrow> real) \<Rightarrow> mol_graph \<Rightarrow> real list list \<Rightarrow> nat \<Rightarrow> nat \<Rightarrow>
   real list list \<Rightarrow> error + real list list" where
  "message_rounds M masks g binput k 0 message = Inr message"
| "message_rounds M masks g binput k (Suc n) message =
     bind_error (message_round M masks g binput k message)
       (message_rounds M masks g binput (Suc k) n)"

text \<open>Lines 330-331, then \<open>n\<close> passes of the loop: the message tensor after \<open>n\<close> rounds.\<close>

definition message_after ::
  "MPN \<Rightarrow> (nat \<Rightarrow> nat \<Rightarrow> nat \<Rightarrow> real) \<Rightarrow> mol_graph \<Rightarrow> nat \<Rightarrow> error + real list list" where
  "message_after M masks g n =
     bind_error (linear_rows (W_i M) (fbonds g)) (\<lambda>binput.
       message_rounds M masks g binput 0 n (map (map (activate (act_func M))) binput))"

text \<open>
  The final atom aggregation, lines 342-346: gather via \<open>agraph\<close>, sum, concatenate
  with \<open>fatoms\<close> (the row counts must agree), \<open>W_o\<close>, activation, dropout.
\<close>

definition atom_aggregation ::
  "MPN \<Rightarrow> (nat \<Rightarrow> nat \<Rightarrow> nat \<Rightarrow> real) \<Rightarrow> mol_graph \<Rightarrow> nat \<Rightarrow> real list list \<Rightarrow>
   error + real list list" where
  "atom_aggregation M masks g k message =
     bind_error (index_select_ND message (agraph g)) (\<lambda>nei_message.
     bind_error (let nei_message = map (sum_vectors (hidden_size M)) nei_message
                 in if length (fatoms g) = length nei_message
                    then Inr (map2 (@) (fatoms g) nei_message)
                    else Inl RuntimeError) (\<lambda>ainput.
     bind_error (linear_rows (W_o M) ainput) (\<lambda>atom_hiddens.
       Inr (dropout_layer M masks k (map (map (activate (act_func M))) atom_hiddens)))))"

text \<open>
  The body of the loop over \<open>scope\<close>, lines 350-363. \<open>narrow\<close> raises when the range
  leaves the tensor. For a molecule without atoms the division by \<open>le\<close> is a division
  of zeros by zero: NaN in floating point, which the reals do not have.
\<close>

definition mol_vec ::
  "MPN \<Rightarrow> (nat \<Rightarrow> nat \<Rightarrow> nat \<Rightarrow> real) \<Rightarrow> real list list \<Rightarrow> nat \<Rightarrow> nat \<times> nat \<Rightarrow>
   error + real list" where
  "mol_vec M masks atom_hiddens k sc =
     (case sc of (st, le) \<Rightarrow>
        bind_error (if st + le \<le> length atom_hiddens
                    then Inr (take le (drop st atom_hiddens)) else Inl RuntimeError)
          (\<lambda>cur_hiddens.
        bind_error
          (if attention M then
             bind_error (linear_rows (W_a M) cur_hiddens) (\<lambda>queries.
               (let att_w = map (\<lambda>q. softmax (map (dot q) cur_hiddens)) queries;
                    att_hiddens =
                      map (\<lambda>ws. sum_vectors (hidden_size M)
                                   (map2 (\<lambda>w v. map ((*) w) v) ws cur_hiddens)) att_w
                in bind_error (linear_rows (W_b M) att_hiddens) (\<lambda>att_hiddens.
                     tensor_add cur_hiddens
                       (dropout_layer M masks k
                          (map (map (activate (act_func M))) att_hiddens)))))
           else Inr cur_hiddens) (\<lambda>mol_vec.
          Inr (map (\<lambda>x. x / real le) (sum_vectors (hidden_size M) mol_vec)))))"

text \<open>
  Lines 348-366: one vector per scope entry, stacked. The \<open>j\<close>-th molecule's dropout
  call, made only with \<open>attention\<close>, is call \<open>k + j\<close>.
\<close>

definition readout ::
  "MPN \<Rightarrow> (nat \<Rightarrow> nat \<Rightarrow> nat \<Rightarrow> real) \<Rightarrow> mol_graph \<Rightarrow> nat \<Rightarrow> real list list \<Rightarrow>
   error + real list list" where
  "readout M masks g k atom_hiddens =
     bind_error (collect (map (\<lambda>(j, sc). mol_vec M masks atom_hiddens (k + j) sc)
                            (enumerate 0 (scope g))))
       torch_stack"

text \<open>
  \<open>MPN.forward(mol_graph)\<close>, lines 319-366. Moving the tensors to the device of the
  parameters (lines 327-328) does not change their values. \<open>range(self.depth - 1)\<close> is
  empty when \<open>depth\<close> is at most 1.
\<close>

definition forward ::
  "MPN \<Rightarrow> (nat \<Rightarrow> nat \<Rightarrow> nat \<Rightarrow> real) \<Rightarrow> mol_graph \<Rightarrow> error + real list list" where
  "forward M masks g =
     (let rounds = nat (depth M - 1) in
      bind_error (linear_rows (W_i M) (fbonds g)) (\<lambda>binput.
      bind_error (message_rounds M masks g binput 0 rounds
                    (map (map (activate (act_func M))) binput)) (\<lambda>message.
      bind_error (atom_aggregation M masks g rounds message) (\<lambda>atom_hiddens.
        readout M masks g (rounds + 1) atom_hiddens))))"

text \<open>
  The reduction the specification gives for \<open>depth = 1\<close>: \<open>activation(W_i(fbonds))\<close>
  is fed directly into the final atom aggregation, followed by the per-molecule
  pooling; no message-passing round is made and the first dropout call is that of the
  atom aggregation.
\<close>

definition forward_without_rounds ::
  "MPN \<Rightarrow> (nat \<Rightarrow> nat \<Rightarrow> nat \<Rightarrow> real) \<Rightarrow> mol_graph \<Rightarrow> error + real list list" where
  "forward_without_rounds M masks g =
     bind_error (linear_rows (W_i M) (fbonds g)) (\<lambda>binput.
     bind_error (atom_aggregation M masks g 0 (map (map (activate (act_func M))) binput))
       (\<lambda>atom_hiddens.
         readout M masks g 1 atom_hiddens))"

section \<open>Concrete inputs\<close>

definition exotic_atom :: Atom where
  "exotic_atom = \<lparr>GetAtomicNum = 118, GetDegree = 9, GetFormalCharge = - 7,
     GetChiralTag = 8, GetImplicitValence = 12, GetTotalNumHs = 11,
     GetHybridization = OTHER, GetNumRadicalElectrons = 5, GetIsAromatic = True\<rparr>"


text \<open>
  A small toolkit for concrete runs: the unbranched alkanes, written \<open>C\<close>, \<open>CC\<close>,
  \<open>CCC\<close>, ...; the empty notation is the molecule with no atoms, every other notation
  fails to parse. A molecule is its chain length, whether its hydrogens are explicit
  atoms (they follow the carbons), and its conformer if it has one: the draw that the
  embedding made, which stretches all 3D distances by one hundredth per unit. The
  embedding rejects the molecule with no atoms.
\<close>

record alkane =
  chain :: nat
  explicit_hs :: bool
  conformer :: "nat option"

definition carbon :: "nat \<Rightarrow> bool \<Rightarrow> Atom" where
  "carbon heavy_neighbours explicit =
     \<lparr>GetAtomicNum = 6,
      GetDegree = (if explicit then 4 else int heavy_neighbours),
      GetFormalCharge = 0, GetChiralTag = 0,
      GetImplicitValence = (if explicit then 0 else 4 - int heavy_neighbours),
      GetTotalNumHs = 4 - int heavy_neighbours,
      GetHybridization = SP3, GetNumRadicalElectrons = 0, GetIsAromatic = False\<rparr>"

definition hydrogen :: Atom where
  "hydrogen =
     \<lparr>GetAtomicNum = 1, GetDegree = 1, GetFormalCharge = 0, GetChiralTag = 0,
      GetImplicitValence = 0, GetTotalNumHs = 0, GetHybridization = S,
      GetNumRadicalElectrons = 0, GetIsAromatic = False\<rparr>"

definition single_bond :: Bond where
  "single_bond = \<lparr>GetBondType = SINGLE, GetIsConjugated = False, IsInRing = False, GetStereo = 0\<rparr>"

text \<open>The carbon that carries the \<open>k\<close>-th hydrogen of a chain of \<open>n\<close> carbons.\<close>

definition h_owner :: "nat \<Rightarrow> nat \<Rightarrow> nat" where
  "h_owner n k = (if k < 3 then 0 else if 2 * n \<le> k + 1 then n - 1 else (k - 1) div 2)"

definition alkane_atoms :: "alkane \<Rightarrow> Atom list" where
  "alkane_atoms m =
     map (\<lambda>i. carbon ((if 0 < i then 1 else 0) + (if i + 1 < chain m then 1 else 0))
                (explicit_hs m)) [0 ..< chain m]
     @ (if explicit_hs m \<and> 0 < chain m then replicate (2 * chain m + 2) hydrogen else [])"

definition alkane_bond :: "alkane \<Rightarrow> nat \<Rightarrow> nat \<Rightarrow> Bond option" where
  "alkane_bond m a1 a2 =
     (let lo = min a1 a2; hi = max a1 a2; n = chain m
      in if hi < n then (if hi = lo + 1 then Some single_bond else None)
         else if lo < n \<and> hi < length (alkane_atoms m) \<and> h_owner n (hi - n) = lo
         then Some single_bond else None)"

definition alkane_distance :: "alkane \<Rightarrow> nat \<Rightarrow> nat \<Rightarrow> real" where
  "alkane_distance m a1 a2 =
     (let n = chain m;
          c1 = (if a1 < n then a1 else h_owner n (a1 - n));
          c2 = (if a2 < n then a2 else h_owner n (a2 - n))
      in if a1 = a2 then 0
         else real (max c1 c2 - min c1 c2) + (if a1 < n then 0 else 1) + (if a2 < n then 0 else 1))"

definition alkanes :: "alkane toolkit" where
  "alkanes =
     \<lparr>MolFromSmiles = (\<lambda>s. if list_all (\<lambda>c. c = CHR ''C'') s
                            then Some \<lparr>chain = length s, explicit_hs = False, conformer = None\<rparr>
                            else None),
      AddHs = (\<lambda>m. m\<lparr>explicit_hs := True\<rparr>),
      RemoveHs = (\<lambda>m. m\<lparr>explicit_hs := False\<rparr>),
      EmbedMolecule =
        (\<lambda>draw m. if chain m = 0 then None else Some (m\<lparr>conformer := Some draw\<rparr>)),
      Get3DDistanceMatrix =
        (\<lambda>m. map_option (\<lambda>draw a1 a2. (3 / 2 + real draw / 100) * alkane_distance m a1 a2)
               (conformer m)),
      GetDistanceMatrix = alkane_distance,
      GetAtoms = alkane_atoms,
      GetBondBetweenAtoms = alkane_bond\<rparr>"

text \<open>The draws of a call in which every embedding draws the same number.\<close>

definition constant_draws :: "nat \<Rightarrow> string \<Rightarrow> nat" where
  "constant_draws draw smiles = draw"

text \<open>The tuples of methane and ethane without hydrogens, 3D distances or virtual edges.\<close>

definition methane_features :: features where
  "methane_features = ([atom_features (carbon 0 False)], [], [], 1)"

definition ethane_features :: features where
  "ethane_features =
     (let fatom = atom_features (carbon 1 False);
          row = fatom @ bond_features (Some single_bond) None None
      in ([fatom, fatom], [row, row], [(0, 1), (1, 0)], 2))"

text \<open>The state of the module after ethane alone has been featurised.\<close>

definition ethane_state :: state where
  "ethane_state =
     \<lparr>SMILES_TO_FEATURES = [''CC'' \<mapsto> ethane_features],
      toolkit_trace = [(''CC'', CallMolFromSmiles), (''CC'', CallGetDistanceMatrix)]\<rparr>"

text \<open>The batch of methane and ethane, and ethane alone, as \<open>mol2graph\<close> returns them.\<close>

definition ethane_graph :: mol_graph where
  "ethane_graph =
     (let fatom = atom_features (carbon 1 False);
          row = fatom @ bond_features (Some single_bond) None None
      in \<lparr>fatoms = [fatom, fatom],
          fbonds = [replicate (ATOM_FDIM + 14) 0, row, row],
          agraph = [[2], [1]], bgraph = [[0], [0], [0]], scope = [(0, 2)]\<rparr>)"

definition methane_ethane_graph :: mol_graph where
  "methane_ethane_graph =
     (let fatom = atom_features (carbon 1 False);
          row = fatom @ bond_features (Some single_bond) None None
      in \<lparr>fatoms = [atom_features (carbon 0 False), fatom, fatom],
          fbonds = [replicate (ATOM_FDIM + 14) 0, row, row],
          agraph = [[0], [2], [1]], bgraph = [[0], [0], [0]], scope = [(0, 1), (1, 2)]\<rparr>)"

definition methane_ethane_state :: state where
  "methane_ethane_state =
     \<lparr>SMILES_TO_FEATURES = [''C'' \<mapsto> methane_features, ''CC'' \<mapsto> ethane_features],
      toolkit_trace = [(''C'', CallMolFromSmiles), (''C'', CallGetDistanceMatrix),
                       (''CC'', CallMolFromSmiles), (''CC'', CallGetDistanceMatrix)]\<rparr>"

text \<open>
  With \<open>three_d\<close>: the bond row of ethane embedded with a draw, its tuple, and the
  results of \<open>mol2graph\<close> for ethane alone and for the batch of methane and ethane.
\<close>

definition ethane_row_3d :: "nat \<Rightarrow> real list" where
  "ethane_row_3d draw =
     atom_features (carbon 1 False)
     @ bond_features (Some single_bond) None (Some (3 / 2 + real draw / 100))"

definition ethane_features_3d :: "nat \<Rightarrow> features" where
  "ethane_features_3d draw =
     ([atom_features (carbon 1 False), atom_features (carbon 1 False)],
      [ethane_row_3d draw, ethane_row_3d draw], [(0, 1), (1, 0)], 2)"

definition ethane_graph_3d :: "nat \<Rightarrow> mol_graph" where
  "ethane_graph_3d draw =
     \<lparr>fatoms = [atom_features (carbon 1 False), atom_features (carbon 1 False)],
      fbonds = [replicate (ATOM_FDIM + 15) 0, ethane_row_3d draw, ethane_row_3d draw],
      agraph = [[2], [1]], bgraph = [[0], [0], [0]], scope = [(0, 2)]\<rparr>"

definition methane_ethane_graph_3d :: "nat \<Rightarrow> mol_graph" where
  "methane_ethane_graph_3d draw =
     \<lparr>fatoms = [atom_features (carbon 0 False), atom_features (carbon 1 False),
                atom_features (carbon 1 False)],
      fbonds = [replicate (ATOM_FDIM + 15) 0, ethane_row_3d draw, ethane_row_3d draw],
      agraph = [[0], [2], [1]], bgraph = [[0], [0], [0]], scope = [(0, 1), (1, 2)]\<rparr>"

text \<open>Methane alone, as \<open>mol2graph\<close> returns it, and the state it leaves.\<close>

definition methane_graph :: mol_graph where
  "methane_graph =
     \<lparr>fatoms = [atom_features (carbon 0 False)], fbonds = [replicate (ATOM_FDIM + 14) 0],
      agraph = [[]], bgraph = [[]], scope = [(0, 1)]\<rparr>"

definition methane_state :: state where
  "methane_state =
     \<lparr>SMILES_TO_FEATURES = [''C'' \<mapsto> methane_features],
      toolkit_trace = [(''C'', CallMolFromSmiles), (''C'', CallGetDistanceMatrix)]\<rparr>"

text \<open>
  Propane alone: its tuple, the variables of \<open>mol2graph\<close> after the loop over the batch,
  the result and the state it leaves.
\<close>

definition propane_features :: features where
  "propane_features =
     (let outer = atom_features (carbon 1 False);
          inner = atom_features (carbon 2 False);
          bf = bond_features (Some single_bond) None None
      in ([outer, inner, outer], [outer @ bf, inner @ bf, inner @ bf, outer @ bf],
          [(0, 1), (1, 0), (1, 2), (2, 1)], 3))"

definition propane_state :: state where
  "propane_state =
     \<lparr>SMILES_TO_FEATURES = [''CCC'' \<mapsto> propane_features],
      toolkit_trace = [(''CCC'', CallMolFromSmiles), (''CCC'', CallGetDistanceMatrix)]\<rparr>"

definition propane_vars :: batch_vars where
  "propane_vars =
     \<lparr>fatoms_v = fst propane_features,
      fbonds_v = replicate (ATOM_FDIM + 14) 0 # fst (snd propane_features),
      in_bonds = [[2], [1, 4], [3]],
      all_bonds = [(- 1, - 1), (0, 1), (1, 0), (1, 2), (2, 1)],
      scope_v = [(0, 3)],
      total_atoms = 3\<rparr>"

definition propane_graph :: mol_graph where
  "propane_graph =
     \<lparr>fatoms = fst propane_features,
      fbonds = replicate (ATOM_FDIM + 14) 0 # fst (snd propane_features),
      agraph = [[2, 0], [1, 4], [3, 0]],
      bgraph = [[0, 0], [0, 0], [0, 4], [1, 0], [0, 0]],
      scope = [(0, 3)]\<rparr>"

text \<open>
  A network small enough to run by hand: one hidden unit, three input features for a
  bond row and one for an atom, all weights 1, in evaluation mode; and a graph of one
  molecule, a chain of three atoms, in the layout \<open>mol2graph\<close> produces.
\<close>

definition tiny_linear :: "nat \<Rightarrow> nat \<Rightarrow> bool \<Rightarrow> Linear" where
  "tiny_linear n_in n_out with_bias =
     \<lparr>in_features = n_in, out_features = n_out, weight = (\<lambda>out i. 1),
      bias = (if with_bias then Some (\<lambda>out. 0) else None)\<rparr>"

definition tiny_MPN :: "int \<Rightarrow> MPN" where
  "tiny_MPN d =
     \<lparr>hidden_size = 1, depth = d, dropout = 0, attention = False, message_attention = False,
      W_i = tiny_linear 3 1 False, W_h = tiny_linear 1 1 False, W_o = tiny_linear 2 1 True,
      W_a = tiny_linear 1 1 False, W_b = tiny_linear 1 1 True, W_ma1 = tiny_linear 1 1 False,
      act_func = ReLU, training = False\<rparr>"

definition tiny_graph :: mol_graph where
  "tiny_graph =
     \<lparr>fatoms = [[1], [2], [3]],
      fbonds = [[0, 0, 0], [1, 1, 0], [2, 1, 0], [2, 0, 1], [3, 0, 1]],
      agraph = [[2, 0], [1, 4], [3, 0]],
      bgraph = [[0, 0], [0, 0], [0, 4], [1, 0], [0, 0]],
      scope = [(0, 3)]\<rparr>"

definition no_dropout :: "nat \<Rightarrow> nat \<Rightarrow> nat \<Rightarrow> real" where
  "no_dropout k i j = 1"

text \<open>
  A network as \<open>MPN.__init__\<close> builds it for the batcher's default feature widths: one
  hidden unit, two message-passing rounds with message attention, tanh, all weights 1.
\<close>

definition demo_args :: args where
  "demo_args =
     \<lparr>arg_hidden_size = 1, arg_depth = 3, arg_dropout = 1 / 10, arg_attention = False,
      arg_message_attention = True, arg_three_d = False, arg_virtual_edges = False,
      arg_activation = ''tanh''\<rparr>"

definition demo_parameters :: parameters where
  "demo_parameters =
     \<lparr>W_i_weight = (\<lambda>out i. 1), W_h_weight = (\<lambda>out i. 1), W_o_weight = (\<lambda>out i. 1),
      W_o_bias = (\<lambda>out. 0), W_a_weight = (\<lambda>out i. 1), W_b_weight = (\<lambda>out i. 1),
      W_b_bias = (\<lambda>out. 0), W_ma1_weight = (\<lambda>out i. 1), PReLU_weight = 1 / 4\<rparr>"

definition demo_MPN :: MPN where
  "demo_MPN =
     \<lparr>hidden_size = 1, depth = 3, dropout = 1 / 10, attention = False,
      message_attention = True,
      W_i = \<lparr>in_features = get_atom_fdim + get_bond_fdim False False, out_features = 1,
             weight = (\<lambda>out i. 1), bias = None\<rparr>,
      W_h = \<lparr>in_features = 1, out_features = 1, weight = (\<lambda>out i. 1), bias = None\<rparr>,
      W_o = \<lparr>in_features = get_atom_fdim + 1, out_features = 1, weight = (\<lambda>out i. 1),
             bias = Some (\<lambda>out. 0)\<rparr>,
      W_a = \<lparr>in_features = 1, out_features = 1, weight = (\<lambda>out i. 1), bias = None\<rparr>,
      W_b = \<lparr>in_features = 1, out_features = 1, weight = (\<lambda>out i. 1),
             bias = Some (\<lambda>out. 0)\<rparr>,
      W_ma1 = \<lparr>in_features = 1, out_features = 1, weight = (\<lambda>out i. 1), bias = None\<rparr>,
      act_func = Tanh,
      training = True\<rparr>"

section \<open>The feature encoders: lemmas\<close>

lemma first_index_le: "first_index C v \<le> length C"
  by (induction C) auto

lemma first_index_less: "v \<in> set C \<Longrightarrow> first_index C v < length C"
  by (induction C) auto

lemma first_index_nth: "v \<in> set C \<Longrightarrow> C ! first_index C v = v"
  by (induction C) auto

lemma first_index_first: "v \<notin> set (take (first_index C v) C)"
  by (induction C) auto

lemma onek_subscript_in_range:
  "py_subscript (length C + 1) (if v \<in> set C then int (first_index C v) else - 1)
     = Some (if v \<in> set C then first_index C v else length C)"
  using first_index_less [of v C] by (auto simp: py_subscript_def Let_def)

lemma onek_encoding_unk_eq:
  "onek_encoding_unk v C =
     (replicate (length C + 1) 0)[(if v \<in> set C then first_index C v else length C) := 1]"
  unfolding onek_encoding_unk_def Let_def length_replicate onek_subscript_in_range
  by simp

lemma length_onek_encoding_unk [simp]: "length (onek_encoding_unk v C) = length C + 1"
  unfolding onek_encoding_unk_eq by (simp only: length_list_update length_replicate)

lemma nth_replicate_update:
  "i < n \<Longrightarrow> (replicate n x)[k := y] ! i = (if i = k then y else x)"
  by (simp add: nth_list_update)

lemma replicate_update_last: "(replicate (Suc n) x)[n := y] = replicate n x @ [y]"
  by (induction n) auto

lemma count_list_replicate_update:
  "k < n \<Longrightarrow> count_list ((replicate n (0::int))[k := 1]) 1 = 1"
proof (induction n arbitrary: k)
  case 0
  then show ?case by simp
next
  case (Suc n)
  show ?case
  proof (cases k)
    case 0
    have "count_list (replicate n (0::int)) 1 = 0"
      by (induction n) auto
    with 0 show ?thesis by simp
  next
    case (Suc j)
    with Suc.prems have "j < n" by simp
    from Suc.IH [OF this] Suc show ?thesis by simp
  qed
qed

text \<open>
  C5. For every value \<open>v\<close> and choice list \<open>C\<close>, \<open>onek_encoding_unk v C\<close> has length
  \<open>len(C) + 1\<close>, holds exactly one 1 and 0 everywhere else, and the 1 stands at
  \<open>C.index(v)\<close> (the first position of \<open>v\<close> in \<open>C\<close>) when \<open>v\<close> is a member of \<open>C\<close> and
  at the final, overflow position \<open>len(C)\<close> otherwise.
\<close>

theorem onek_encoding_unk_one_hot:
  "length (onek_encoding_unk v C) = length C + 1
   \<and> count_list (onek_encoding_unk v C) 1 = 1
   \<and> (\<exists>k \<le> length C.
        (\<forall>i < length C + 1. onek_encoding_unk v C ! i = (if i = k then 1 else 0))
        \<and> (if v \<in> set C then k < length C \<and> C ! k = v \<and> v \<notin> set (take k C)
            else k = length C))"
proof -
  let ?k = "if v \<in> set C then first_index C v else length C"
  have k: "?k \<le> length C"
    using first_index_le [of C v] by simp
  have cnt: "count_list (onek_encoding_unk v C) 1 = 1"
    unfolding onek_encoding_unk_eq
    by (rule count_list_replicate_update) (use k in simp)
  have pt: "\<forall>i < length C + 1. onek_encoding_unk v C ! i = (if i = ?k then 1 else 0)"
  proof (intro allI impI)
    fix i
    assume "i < length C + 1"
    then show "onek_encoding_unk v C ! i = (if i = ?k then 1 else 0)"
      unfolding onek_encoding_unk_eq by (rule nth_replicate_update)
  qed
  have pos: "if v \<in> set C then ?k < length C \<and> C ! ?k = v \<and> v \<notin> set (take ?k C)
             else ?k = length C"
    using first_index_less [of v C] first_index_nth [of v C] first_index_first [of v C]
    by simp
  from k cnt pt pos show ?thesis
    by (intro conjI exI [of _ ?k]) simp_all
qed

theorem onek_encoding_unk_one_hot_witness:
  "onek_encoding_unk (2::int) [0, 1, 2, 3, 2] = [0, 0, 1, 0, 0, 0]
   \<and> onek_encoding_unk (7::int) [0, 1, 2, 3, 2] = [0, 0, 0, 0, 0, 1]
   \<and> count_list (onek_encoding_unk (2::int) [0, 1, 2, 3, 2]) 1 = 1
   \<and> count_list (onek_encoding_unk (7::int) [0, 1, 2, 3, 2]) 1 = 1"
proof -
  have member: "onek_encoding_unk (2::int) [0, 1, 2, 3, 2] = [0, 0, 1, 0, 0, 0]"
    by (simp add: onek_encoding_unk_def py_subscript_def)
  have overflow: "onek_encoding_unk (7::int) [0, 1, 2, 3, 2] = [0, 0, 0, 0, 0, 1]"
    by (simp add: onek_encoding_unk_def py_subscript_def)
  from onek_encoding_unk_one_hot [of "2::int" "[0, 1, 2, 3, 2]"]
  have c1: "count_list (onek_encoding_unk (2::int) [0, 1, 2, 3, 2]) 1 = 1"
    by (elim conjE)
  from onek_encoding_unk_one_hot [of "7::int" "[0, 1, 2, 3, 2]"]
  have c2: "count_list (onek_encoding_unk (7::int) [0, 1, 2, 3, 2]) 1 = 1"
    by (elim conjE)
  from member overflow c1 c2 show ?thesis
    by (intro conjI)
qed

lemma ATOM_FDIM_value: "ATOM_FDIM = 144"
  by (simp add: ATOM_FDIM_def ATOM_FEATURES_lengths_def ATOM_FEATURES_atomic_num_def
      ATOM_FEATURES_degree_def ATOM_FEATURES_formal_charge_def ATOM_FEATURES_chiral_tag_def
      ATOM_FEATURES_implicit_valence_def ATOM_FEATURES_num_Hs_def
      ATOM_FEATURES_hybridization_def ATOM_FEATURES_num_radical_electrons_def)

lemma length_atom_features [simp]: "length (atom_features a) = ATOM_FDIM"
  by (simp add: atom_features_def torch_Tensor_def ATOM_FDIM_def ATOM_FEATURES_lengths_def)

lemma onek_encoding_unk_overflow:
  "v \<notin> set C \<Longrightarrow> onek_encoding_unk v C = replicate (length C) 0 @ [1]"
  unfolding onek_encoding_unk_eq using replicate_update_last [of "length C" "0::int" 1]
  by (simp del: replicate.simps)

lemma in_map_int_upt: "x \<in> set (map int [0..<n]) \<longleftrightarrow> 0 \<le> x \<and> x < int n"
proof
  assume "x \<in> set (map int [0..<n])"
  then show "0 \<le> x \<and> x < int n" by auto
next
  assume "0 \<le> x \<and> x < int n"
  then have "nat x \<in> {0..<n}" and "x = int (nat x)" by auto
  then show "x \<in> set (map int [0..<n])"
    by (metis image_eqI set_map set_upt)
qed

lemma take_atomic_num_block:
  "take (length ATOM_FEATURES_atomic_num + 1) (atom_features a)
     = torch_Tensor (onek_encoding_unk (GetAtomicNum a - 1) ATOM_FEATURES_atomic_num)"
  by (simp add: atom_features_def torch_Tensor_def del: append_assoc)

text \<open>
  C6. For every atom, whatever its property values, \<open>atom_features\<close> returns a vector of
  length exactly \<open>ATOM_FDIM\<close>, the sum over the eight feature blocks of (number of choices
  + 1), plus 1 for the is-aromatic scalar (144 in all). A value outside its choice list
  lands in the overflow slot of its block: for the atomic number, the first block of
  101 entries is then 100 zeros followed by a 1.
\<close>

theorem atom_features_length:
  "length (atom_features a) = ATOM_FDIM
   \<and> ATOM_FDIM = sum_list (map (\<lambda>n. n + 1) ATOM_FEATURES_lengths) + 1
   \<and> ATOM_FDIM = 144
   \<and> (GetAtomicNum a - 1 \<notin> set ATOM_FEATURES_atomic_num \<longrightarrow>
        take (length ATOM_FEATURES_atomic_num + 1) (atom_features a)
          = replicate (length ATOM_FEATURES_atomic_num) 0 @ [1])"
proof -
  have "take (length ATOM_FEATURES_atomic_num + 1) (atom_features a)
          = replicate (length ATOM_FEATURES_atomic_num) 0 @ [1]"
    if "GetAtomicNum a - 1 \<notin> set ATOM_FEATURES_atomic_num"
    unfolding take_atomic_num_block onek_encoding_unk_overflow [OF that]
    by (simp add: torch_Tensor_def)
  then show ?thesis
    using ATOM_FDIM_value by (simp add: ATOM_FDIM_def)
qed

theorem atom_features_length_witness:
  "length (atom_features exotic_atom) = 144
   \<and> GetAtomicNum exotic_atom - 1 \<notin> set ATOM_FEATURES_atomic_num
   \<and> take (length ATOM_FEATURES_atomic_num + 1) (atom_features exotic_atom)
       = replicate (length ATOM_FEATURES_atomic_num) 0 @ [1]"
proof -
  have out: "GetAtomicNum exotic_atom - 1 \<notin> set ATOM_FEATURES_atomic_num"
    unfolding ATOM_FEATURES_atomic_num_def in_map_int_upt by (simp add: exotic_atom_def)
  from atom_features_length [of exotic_atom] out show ?thesis
    by (simp only: simp_thms)
qed


section \<open>The graph batcher: lemmas\<close>

lemma length_bond_features:
  "length (bond_features bond distance_path distance_3d)
     = 14 + (if distance_path = None then 0 else 11) + (if distance_3d = None then 0 else 1)"
  by (simp add: bond_features_def torch_Tensor_def Let_def split: option.splits)

lemmas traced_defs = and_then_def call_def done_traced_def on_mol_def

lemma load_features_hit:
  "SMILES_TO_FEATURES st s = Some e \<Longrightarrow> load_features tk dr s a t v st = (Inr e, st)"
  by (simp add: load_features_def)

lemma load_features_miss:
  "SMILES_TO_FEATURES st s = None \<Longrightarrow> featurize tk (dr s) s a t v = (r, calls) \<Longrightarrow>
   load_features tk dr s a t v st =
     (case r of
        Inl e \<Rightarrow> (Inl e, st\<lparr>toolkit_trace := toolkit_trace st @ map (Pair s) calls\<rparr>)
      | Inr e \<Rightarrow> (Inr e, st\<lparr>toolkit_trace := toolkit_trace st @ map (Pair s) calls,
                           SMILES_TO_FEATURES := (SMILES_TO_FEATURES st)(s \<mapsto> e)\<rparr>))"
  by (simp add: load_features_def Let_def split: sum.splits)

lemma load_features_Inr:
  assumes "load_features tk dr s a t v st = (Inr e, st')"
  shows "SMILES_TO_FEATURES st' = (SMILES_TO_FEATURES st)(s \<mapsto> e)"
    and "SMILES_TO_FEATURES st s = None \<Longrightarrow> fst (featurize tk (dr s) s a t v) = Inr e"
    and "SMILES_TO_FEATURES st s \<noteq> None \<Longrightarrow> st' = st"
  using assms
  by (auto simp: load_features_def Let_def split: option.splits sum.splits prod.splits)

lemma load_features_Inl:
  assumes "load_features tk dr s a t v st = (Inl e, st')"
  shows "SMILES_TO_FEATURES st' = SMILES_TO_FEATURES st"
    and "SMILES_TO_FEATURES st s = None" and "fst (featurize tk (dr s) s a t v) = Inl e"
  using assms
  by (auto simp: load_features_def Let_def split: option.splits sum.splits prod.splits)

lemma load_features_persist:
  assumes "load_features tk dr s a t v st = (r, st')" and "SMILES_TO_FEATURES st k = Some e"
  shows "SMILES_TO_FEATURES st' k = Some e"
  using assms
  by (auto simp: load_features_def Let_def split: option.splits sum.splits prod.splits if_splits)

lemma featurize_unparsed:
  "MolFromSmiles tk s = None \<Longrightarrow> fst (featurize tk draw s a t v) = Inl ArgumentError"
  by (simp add: featurize_def traced_defs)

lemma featurize_calls_distance_matrix:
  "featurize tk draw s a t v = (Inr e, calls) \<Longrightarrow>
     count_list calls CallGetDistanceMatrix = 1 \<and> last calls = CallGetDistanceMatrix"
  by (auto simp: featurize_def traced_defs split: if_splits option.splits sum.splits prod.splits)

lemma featurize_calls_independent:
  "snd (featurize tk draw s a t True) = snd (featurize tk draw s a t False)"
  by (auto simp: featurize_def traced_defs split: if_splits option.splits sum.splits prod.splits)

lemma batch_loop_persist:
  "batch_loop tk dr a t ve B v st = (r, st') \<Longrightarrow> SMILES_TO_FEATURES st k = Some e \<Longrightarrow>
   SMILES_TO_FEATURES st' k = Some e"
proof (induction B arbitrary: v st)
  case Nil
  then show ?case by simp
next
  case (Cons s B)
  obtain r1 st1 where l: "load_features tk dr s a t ve st = (r1, st1)"
    by (cases "load_features tk dr s a t ve st")
  from load_features_persist [OF l Cons.prems(2)]
  have k1: "SMILES_TO_FEATURES st1 k = Some e" .
  show ?case
  proof (cases r1)
    case (Inl x)
    with Cons.prems(1) l k1 show ?thesis by simp
  next
    case (Inr feats)
    show ?thesis
    proof (cases "add_molecule feats v")
      case (Inl x)
      with Cons.prems(1) l Inr k1 show ?thesis by simp
    next
      case (Inr v1)
      with Cons.prems(1) l \<open>r1 = Inr feats\<close>
      have "batch_loop tk dr a t ve B v1 st1 = (r, st')" by simp
      from Cons.IH [OF this k1] show ?thesis .
    qed
  qed
qed

lemma batch_loop_Cons_Inr:
  assumes "batch_loop tk dr a t ve (s # B) v st = (Inr v', st')"
  obtains e st1 v1 where "load_features tk dr s a t ve st = (Inr e, st1)"
    and "add_molecule e v = Inr v1" and "batch_loop tk dr a t ve B v1 st1 = (Inr v', st')"
  using assms by (auto split: prod.splits sum.splits)

lemma batch_loop_fresh:
  "batch_loop tk dr a t ve B v st = (Inr v', st') \<Longrightarrow> k \<in> set B \<Longrightarrow>
   SMILES_TO_FEATURES st k = None \<Longrightarrow>
   \<exists>e. fst (featurize tk (dr k) k a t ve) = Inr e \<and> SMILES_TO_FEATURES st' k = Some e"
proof (induction B arbitrary: v st)
  case Nil
  then show ?case by simp
next
  case (Cons s B)
  from Cons.prems(1) obtain e st1 v1 where
    l: "load_features tk dr s a t ve st = (Inr e, st1)" and
    rest: "batch_loop tk dr a t ve B v1 st1 = (Inr v', st')"
    by (rule batch_loop_Cons_Inr)
  show ?case
  proof (cases "k = s")
    case True
    from load_features_Inr(1,2) [OF l] Cons.prems(3) True
    have "fst (featurize tk (dr k) k a t ve) = Inr e"
        "SMILES_TO_FEATURES st1 k = Some e" by simp_all
    with batch_loop_persist [OF rest] show ?thesis by blast
  next
    case False
    with Cons.prems(2) have "k \<in> set B" by simp
    moreover from load_features_Inr(1) [OF l] False Cons.prems(3)
    have "SMILES_TO_FEATURES st1 k = None" by simp
    ultimately show ?thesis using Cons.IH [OF rest] by blast
  qed
qed

lemma batch_loop_trace:
  "batch_loop tk dr a t ve B v st = (r, st') \<Longrightarrow> SMILES_TO_FEATURES st k \<noteq> None \<Longrightarrow>
   filter (\<lambda>(k', c). k' = k) (toolkit_trace st') = filter (\<lambda>(k', c). k' = k) (toolkit_trace st)"
proof (induction B arbitrary: v st)
  case Nil
  then show ?case by simp
next
  case (Cons s B)
  obtain r1 st1 where l: "load_features tk dr s a t ve st = (r1, st1)"
    by (cases "load_features tk dr s a t ve st")
  from Cons.prems(2) obtain e where ke: "SMILES_TO_FEATURES st k = Some e" by blast
  from load_features_persist [OF l ke]
  have k1: "SMILES_TO_FEATURES st1 k \<noteq> None" by simp
  have tr: "filter (\<lambda>(k', c). k' = k) (toolkit_trace st1)
              = filter (\<lambda>(k', c). k' = k) (toolkit_trace st)"
    using l ke
    by (auto simp: load_features_def Let_def filter_empty_conv
        split: option.splits sum.splits prod.splits)
  show ?case
  proof (cases r1)
    case (Inl x)
    with Cons.prems(1) l tr show ?thesis by simp
  next
    case (Inr feats)
    show ?thesis
    proof (cases "add_molecule feats v")
      case (Inl x)
      with Cons.prems(1) l Inr tr show ?thesis by simp
    next
      case (Inr v1)
      with Cons.prems(1) l \<open>r1 = Inr feats\<close>
      have "batch_loop tk dr a t ve B v1 st1 = (r, st')" by simp
      from Cons.IH [OF this k1] tr show ?thesis by simp
    qed
  qed
qed

lemma mol2graph_loop:
  "mol2graph tk dr B a t ve st = (r, st') \<Longrightarrow>
   \<exists>r'. batch_loop tk dr a t ve B (initial_vars t ve) st = (r', st')
        \<and> (case r' of Inl e \<Rightarrow> r = Inl e | Inr v \<Rightarrow> r = build_graph v)"
  by (auto simp: mol2graph_def split: prod.splits sum.splits)

lemma mol2graph_Inr:
  assumes "mol2graph tk dr B a t ve st = (Inr g, st')"
  obtains v where "batch_loop tk dr a t ve B (initial_vars t ve) st = (Inr v, st')"
    and "build_graph v = Inr g"
  using assms by (auto simp: mol2graph_def split: prod.splits sum.splits)

subsection \<open>Concrete runs on the alkanes\<close>

lemmas alkanes_eval = featurize_def traced_defs alkanes_def mol_features_def GetNumAtoms_def
  alkane_atoms_def atom_pairs_def bond_step_def alkane_bond_def alkane_distance_def Let_def

lemmas batcher_eval = mol2graph_def initial_vars_def load_features_def initial_state_def
  add_molecule_def add_bond_def build_graph_def torch_stack_def agraph_row_def bgraph_row_def
  fill_row_def length_bond_features get_atom_fdim_def get_bond_fdim_def BOND_FDIM_def Let_def

lemma featurize_methane:
  "featurize alkanes draw ''C'' False False False
     = (Inr methane_features, [CallMolFromSmiles, CallGetDistanceMatrix])"
  by (simp add: alkanes_eval methane_features_def)

lemma featurize_ethane:
  "featurize alkanes draw ''CC'' False False False
     = (Inr ethane_features, [CallMolFromSmiles, CallGetDistanceMatrix])"
  by (simp add: alkanes_eval ethane_features_def)

lemma load_methane:
  "load_features alkanes dr ''C'' False False False initial_state
     = (Inr methane_features,
        \<lparr>SMILES_TO_FEATURES = [''C'' \<mapsto> methane_features],
         toolkit_trace = [(''C'', CallMolFromSmiles), (''C'', CallGetDistanceMatrix)]\<rparr>)"
  by (simp add: load_features_def initial_state_def featurize_methane)

lemma mol2graph_methane:
  "mol2graph alkanes dr [''C''] False False False initial_state
     = (Inr \<lparr>fatoms = [atom_features (carbon 0 False)],
             fbonds = [replicate (ATOM_FDIM + 14) 0],
             agraph = [[]], bgraph = [[]], scope = [(0, 1)]\<rparr>,
        \<lparr>SMILES_TO_FEATURES = [''C'' \<mapsto> methane_features],
         toolkit_trace = [(''C'', CallMolFromSmiles), (''C'', CallGetDistanceMatrix)]\<rparr>)"
  by (simp add: batcher_eval featurize_methane methane_features_def)

lemma mol2graph_ethane:
  "mol2graph alkanes dr [''CC''] False False False initial_state
     = (Inr \<lparr>fatoms = [atom_features (carbon 1 False), atom_features (carbon 1 False)],
             fbonds = [replicate (ATOM_FDIM + 14) 0,
                       atom_features (carbon 1 False) @ bond_features (Some single_bond) None None,
                       atom_features (carbon 1 False) @ bond_features (Some single_bond) None None],
             agraph = [[2], [1]], bgraph = [[0], [0], [0]], scope = [(0, 2)]\<rparr>,
        ethane_state)"
  by (simp add: batcher_eval featurize_ethane ethane_features_def ethane_state_def numeral_2_eq_2)

lemma featurize_methane_3d:
  "featurize alkanes draw ''C'' False True False
     = (Inr methane_features,
        [CallMolFromSmiles, CallAddHs, CallEmbedMolecule, CallRemoveHs,
         CallGet3DDistanceMatrix, CallGetDistanceMatrix])"
  by (simp add: alkanes_eval methane_features_def)

lemma featurize_ethane_3d:
  "featurize alkanes draw ''CC'' False True False
     = (Inr (ethane_features_3d draw),
        [CallMolFromSmiles, CallAddHs, CallEmbedMolecule, CallRemoveHs,
         CallGet3DDistanceMatrix, CallGetDistanceMatrix])"
  by (simp add: alkanes_eval ethane_features_3d_def ethane_row_3d_def)

lemma length_ethane_row_3d: "length (ethane_row_3d draw) = ATOM_FDIM + 15"
  by (simp add: ethane_row_3d_def length_bond_features)

lemma last_ethane_row_3d: "last (ethane_row_3d draw) = 3 / 2 + real draw / 100"
  by (simp add: ethane_row_3d_def bond_features_def Let_def)

lemma mol2graph_ethane_3d:
  "fst (mol2graph alkanes dr [''CC''] False True False initial_state)
     = Inr (ethane_graph_3d (dr ''CC''))"
  by (simp add: batcher_eval featurize_ethane_3d ethane_features_3d_def ethane_graph_3d_def
      length_ethane_row_3d numeral_2_eq_2)

lemma mol2graph_methane_ethane_3d:
  "fst (mol2graph alkanes dr [''C'', ''CC''] False True False initial_state)
     = Inr (methane_ethane_graph_3d (dr ''CC''))"
  by (simp add: batcher_eval featurize_methane_3d featurize_ethane_3d methane_features_def
      ethane_features_3d_def methane_ethane_graph_3d_def length_ethane_row_3d numeral_2_eq_2)

lemma featurize_draw_unused:
  "featurize tk draw s a False ve = featurize tk draw' s a False ve"
  by (simp add: featurize_def)

lemma bond_step_no_virtual_edges:
  "bond_step tk m d3 dp False = bond_step tk' m d3 dp' False"
  if "GetBondBetweenAtoms tk' = GetBondBetweenAtoms tk"
  using that by (intro ext) (simp add: bond_step_def split: prod.splits)

lemma mol_features_no_virtual_edges:
  "mol_features (tk\<lparr>GetDistanceMatrix := d\<rparr>) m d3 dp False = mol_features tk m d3 dp' False"
  unfolding mol_features_def GetNumAtoms_def
  using bond_step_no_virtual_edges
    [where tk = "tk\<lparr>GetDistanceMatrix := d\<rparr>" and tk' = tk and m = m and ?d3.0 = d3
       and dp = dp and dp' = dp']
  by simp

lemma featurize_unused_distance_matrix:
  "featurize (tk\<lparr>GetDistanceMatrix := d\<rparr>) draw s a t False = featurize tk draw s a t False"
proof -
  define F where "F = (\<lambda>m d3. mol_features tk m d3 (GetDistanceMatrix tk m) False)"
  have 1: "mol_features (tk\<lparr>GetDistanceMatrix := d\<rparr>) m d3 dp False = F m d3" for m d3 dp
    unfolding F_def by (rule mol_features_no_virtual_edges)
  have 2: "mol_features tk m d3 (GetDistanceMatrix tk m) False = F m d3" for m d3
    unfolding F_def ..
  show ?thesis
    by (auto simp: featurize_def traced_defs 1 2 split: option.splits sum.splits prod.splits)
qed

text \<open>
  C10. For the empty batch, \<open>mol2graph\<close> raises: the maximum in-degree is taken over an
  empty sequence (\<open>ValueError\<close>), whatever the flags and the state, and the state is
  left as it was. No tuple of tensors is returned.
\<close>

theorem mol2graph_empty_batch:
  "mol2graph tk dr [] addHs three_d virtual_edges st = (Inl ValueError, st)"
  by (simp add: mol2graph_def build_graph_def initial_vars_def Let_def)

theorem mol2graph_empty_batch_witness:
  "mol2graph alkanes (constant_draws 0) [] False False True initial_state
      = (Inl ValueError, initial_state)"
  by (rule mol2graph_empty_batch)

text \<open>
  C9, as the code has it. For every molecule processed on a cache miss whose parsing
  (and, with \<open>three_d\<close>, embedding) succeeds, the topological distance matrix is
  computed, by exactly one toolkit call and as the last one, whether or not
  \<open>virtual_edges\<close> is set. When \<open>virtual_edges\<close> is false the matrix is computed
  but not used: the tuple is the same for any other matrix.
\<close>

theorem distance_matrix_computed_on_every_miss:
  assumes "SMILES_TO_FEATURES st s = None"
    and "load_features tk dr s addHs three_d virtual_edges st = (Inr e, st')"
  shows "(\<exists>calls. toolkit_trace st' = toolkit_trace st @ map (Pair s) calls
            \<and> count_list calls CallGetDistanceMatrix = 1
            \<and> last calls = CallGetDistanceMatrix)
         \<and> (\<not> virtual_edges \<longrightarrow>
              (\<forall>d. load_features (tk\<lparr>GetDistanceMatrix := d\<rparr>) dr s addHs three_d virtual_edges st
                     = (Inr e, st')))"
proof -
  obtain r calls where f: "featurize tk (dr s) s addHs three_d virtual_edges = (r, calls)"
    by (cases "featurize tk (dr s) s addHs three_d virtual_edges")
  from load_features_miss [where dr = dr, OF assms(1) f] assms(2)
  have r: "r = Inr e"
    and st': "st' = st\<lparr>toolkit_trace := toolkit_trace st @ map (Pair s) calls,
                       SMILES_TO_FEATURES := (SMILES_TO_FEATURES st)(s \<mapsto> e)\<rparr>"
    by (auto split: sum.splits)
  from featurize_calls_distance_matrix [OF f [unfolded r]] st'
  have first: "\<exists>calls. toolkit_trace st' = toolkit_trace st @ map (Pair s) calls
            \<and> count_list calls CallGetDistanceMatrix = 1
            \<and> last calls = CallGetDistanceMatrix"
    by auto
  have second: "load_features (tk\<lparr>GetDistanceMatrix := d\<rparr>) dr s addHs three_d virtual_edges st
                  = (Inr e, st')" if "\<not> virtual_edges" for d
  proof -
    have "featurize (tk\<lparr>GetDistanceMatrix := d\<rparr>) (dr s) s addHs three_d virtual_edges
            = featurize tk (dr s) s addHs three_d virtual_edges"
      using that by (simp add: featurize_unused_distance_matrix)
    with f r have "featurize (tk\<lparr>GetDistanceMatrix := d\<rparr>) (dr s) s addHs three_d virtual_edges
            = (Inr e, calls)" by simp
    from load_features_miss [where dr = dr, OF assms(1) this] st' show ?thesis by simp
  qed
  from first second show ?thesis by blast
qed

theorem distance_matrix_computed_on_every_miss_witness:
  "SMILES_TO_FEATURES initial_state ''C'' = None
   \<and> toolkit_trace (snd (load_features alkanes (constant_draws 0) ''C'' False False False
       initial_state))
       = [(''C'', CallMolFromSmiles), (''C'', CallGetDistanceMatrix)]
   \<and> load_features (alkanes\<lparr>GetDistanceMatrix := \<lambda>m a1 a2. 7\<rparr>) (constant_draws 0)
         ''C'' False False False initial_state
       = load_features alkanes (constant_draws 0) ''C'' False False False initial_state"
proof -
  have miss: "SMILES_TO_FEATURES initial_state ''C'' = None"
    by (simp add: initial_state_def)
  from distance_matrix_computed_on_every_miss [OF miss load_methane]
  have "load_features (alkanes\<lparr>GetDistanceMatrix := \<lambda>m a1 a2. 7\<rparr>) (constant_draws 0)
          ''C'' False False False initial_state
        = load_features alkanes (constant_draws 0) ''C'' False False False initial_state"
    unfolding load_methane by simp
  with miss show ?thesis by (simp add: load_methane)
qed

theorem distance_matrix_not_skipped_counterexample:
  "(''C'', CallGetDistanceMatrix)
     \<in> set (toolkit_trace (snd (mol2graph alkanes (constant_draws 0) [''C''] False False False
         initial_state)))"
  by (simp add: mol2graph_methane)

subsection \<open>Every memoised tuple is well formed\<close>

lemma atom_pairs_bounds: "(a1, a2) \<in> set (atom_pairs n) \<Longrightarrow> a1 < a2 \<and> a2 < n"
  by (auto simp: atom_pairs_def)

lemma bond_step_wf:
  assumes "length fb = length ab"
    and "list_all (\<lambda>(a1, a2). a1 < n \<and> a2 < n \<and> a1 \<noteq> a2) ab"
    and "fst p < snd p" and "snd p < n"
    and "bond_step tk m d3 dp ve fa (fb, ab) p = (fb', ab')"
  shows "length fb' = length ab' \<and> list_all (\<lambda>(a1, a2). a1 < n \<and> a2 < n \<and> a1 \<noteq> a2) ab'"
  using assms by (cases p) (auto simp: bond_step_def Let_def split: if_splits)

lemma foldl_bond_step_wf:
  assumes "length fb = length ab"
    and "list_all (\<lambda>(a1, a2). a1 < n \<and> a2 < n \<and> a1 \<noteq> a2) ab"
    and "\<forall>p \<in> set ps. fst p < snd p \<and> snd p < n"
    and "foldl (bond_step tk m d3 dp ve fa) (fb, ab) ps = (fb', ab')"
  shows "length fb' = length ab' \<and> list_all (\<lambda>(a1, a2). a1 < n \<and> a2 < n \<and> a1 \<noteq> a2) ab'"
  using assms
proof (induction ps arbitrary: fb ab)
  case Nil
  then show ?case by simp
next
  case (Cons p ps)
  obtain fb1 ab1 where step: "bond_step tk m d3 dp ve fa (fb, ab) p = (fb1, ab1)"
    by (cases "bond_step tk m d3 dp ve fa (fb, ab) p")
  from Cons.prems(3) have p: "fst p < snd p" "snd p < n" by simp_all
  from bond_step_wf [OF Cons.prems(1,2) p step]
  have 1: "length fb1 = length ab1"
    and 2: "list_all (\<lambda>(a1, a2). a1 < n \<and> a2 < n \<and> a1 \<noteq> a2) ab1" by simp_all
  from Cons.prems(3) have 3: "\<forall>p \<in> set ps. fst p < snd p \<and> snd p < n" by simp
  from Cons.prems(4) step
  have 4: "foldl (bond_step tk m d3 dp ve fa) (fb1, ab1) ps = (fb', ab')" by simp
  from Cons.IH [OF 1 2 3 4] show ?case .
qed

lemma mol_features_wf: "wf_features (mol_features tk m d3 dp ve)"
proof -
  let ?n = "length (GetAtoms tk m)"
  let ?fa = "map atom_features (GetAtoms tk m)"
  obtain fb ab where f: "foldl (bond_step tk m d3 dp ve ?fa) ([], []) (atom_pairs ?n) = (fb, ab)"
    by (cases "foldl (bond_step tk m d3 dp ve ?fa) ([], []) (atom_pairs ?n)")
  have "\<forall>p \<in> set (atom_pairs ?n). fst p < snd p \<and> snd p < ?n"
    using atom_pairs_bounds by auto
  from foldl_bond_step_wf [OF _ _ this f]
  have "length fb = length ab \<and> list_all (\<lambda>(a1, a2). a1 < ?n \<and> a2 < ?n \<and> a1 \<noteq> a2) ab"
    by simp
  with f show ?thesis
    by (simp add: wf_features_def mol_features_def GetNumAtoms_def list_all_iff)
qed

lemma featurize_wf:
  assumes "featurize tk draw s a t ve = (Inr e, calls)"
  shows "wf_features e" and "MolFromSmiles tk s \<noteq> None"
proof -
  from assms show "MolFromSmiles tk s \<noteq> None"
    using featurize_unparsed [of tk s draw a t ve] by auto
  from assms have "\<exists>m d3 dp. e = mol_features tk m d3 dp ve"
    by (auto simp: featurize_def traced_defs split: if_splits option.splits sum.splits prod.splits)
  then show "wf_features e" by (auto simp: mol_features_wf)
qed

lemma load_features_wf:
  assumes "wf_cache tk st" and "load_features tk dr s a t ve st = (r, st')"
  shows "wf_cache tk st'"
proof (cases "SMILES_TO_FEATURES st s")
  case (Some e)
  with assms show ?thesis by (simp add: load_features_def)
next
  case None
  obtain r1 calls where f: "featurize tk (dr s) s a t ve = (r1, calls)"
    by (cases "featurize tk (dr s) s a t ve")
  show ?thesis
  proof (cases r1)
    case (Inl x)
    with load_features_miss [where dr = dr, OF None f] assms show ?thesis
      by (auto simp: wf_cache_def)
  next
    case (Inr e)
    from featurize_wf [OF f [unfolded Inr]] load_features_miss [where dr = dr, OF None f] Inr assms
    show ?thesis
      by (auto simp: wf_cache_def)
  qed
qed

lemma batch_loop_wf:
  "wf_cache tk st \<Longrightarrow> batch_loop tk dr a t ve B v st = (r, st') \<Longrightarrow> wf_cache tk st'"
proof (induction B arbitrary: v st)
  case Nil
  then show ?case by simp
next
  case (Cons s B)
  obtain r1 st1 where l: "load_features tk dr s a t ve st = (r1, st1)"
    by (cases "load_features tk dr s a t ve st")
  from load_features_wf [OF Cons.prems(1) l] have w1: "wf_cache tk st1" .
  show ?case
  proof (cases r1)
    case (Inl x)
    with Cons.prems(2) l w1 show ?thesis by simp
  next
    case (Inr feats)
    show ?thesis
    proof (cases "add_molecule feats v")
      case (Inl x)
      with Cons.prems(2) l Inr w1 show ?thesis by simp
    next
      case (Inr v1)
      with Cons.prems(2) l \<open>r1 = Inr feats\<close>
      have "batch_loop tk dr a t ve B v1 st1 = (r, st')" by simp
      from Cons.IH [OF w1 this] show ?thesis .
    qed
  qed
qed

lemma reachable_wf: "reachable tk st \<Longrightarrow> wf_cache tk st"
proof (induction rule: reachable.induct)
  case reachable_initial
  show ?case by (simp add: wf_cache_def initial_state_def)
next
  case (reachable_call st mol_batch addHs three_d virtual_edges r st')
  from mol2graph_loop [OF reachable_call.hyps(2)] batch_loop_wf [OF reachable_call.IH]
  show ?case by blast
qed

subsection \<open>Adding a molecule to the batch\<close>

lemma add_bonds_succeeds:
  "list_all (\<lambda>(a1, a2). a2 + off < length ib) ps \<Longrightarrow>
   \<exists>ab' ib'. add_bonds off ps (ab, ib) = Inr (ab', ib') \<and> length ib' = length ib"
proof (induction ps arbitrary: ab ib)
  case Nil
  then show ?case by simp
next
  case (Cons p ps)
  obtain a1 a2 where p: "p = (a1, a2)" by (cases p)
  let ?ab = "ab @ [(int (a1 + off), int (a2 + off))]"
  let ?ib = "ib[a2 + off := ib ! (a2 + off) @ [length ab]]"
  from Cons.prems p have step: "add_bond off (ab, ib) p = Inr (?ab, ?ib)"
    by (simp add: add_bond_def Let_def)
  from Cons.prems have "list_all (\<lambda>(a1, a2). a2 + off < length ?ib) ps" by simp
  from Cons.IH [OF this, of ?ab] step show ?case by simp
qed

lemma add_molecule_Inr:
  assumes "add_molecule e v = Inr v'"
  shows "fatoms_v v' = fatoms_v v @ fst e"
    and "fbonds_v v' = fbonds_v v @ fst (snd e)"
    and "scope_v v' = scope_v v @ [(total_atoms v, snd (snd (snd e)))]"
    and "total_atoms v' = total_atoms v + snd (snd (snd e))"
    and "add_bonds (total_atoms v) (fst (snd (snd e)))
           (all_bonds v, in_bonds v @ replicate (snd (snd (snd e))) [])
         = Inr (all_bonds v', in_bonds v')"
  using assms by (auto simp: add_molecule_def split: prod.splits sum.splits)

lemma add_molecule_succeeds:
  assumes "wf_features e" and "length (in_bonds v) = total_atoms v"
  shows "\<exists>v'. add_molecule e v = Inr v' \<and> length (in_bonds v') = total_atoms v'"
proof -
  obtain fa fb ab n where e: "e = (fa, fb, ab, n)" by (cases e)
  from assms(1) e have "list_all (\<lambda>(a1, a2). a1 < n \<and> a2 < n \<and> a1 \<noteq> a2) ab"
    by (simp add: wf_features_def)
  then have "list_all (\<lambda>(a1, a2). a2 + total_atoms v < length (in_bonds v @ replicate n [])) ab"
    using assms(2) by (auto simp: list_all_iff)
  from add_bonds_succeeds [OF this, of "all_bonds v"] assms(2) e
  show ?thesis by (auto simp: add_molecule_def)
qed

lemma wf_cacheD:
  "wf_cache tk st \<Longrightarrow> SMILES_TO_FEATURES st s = Some e \<Longrightarrow>
   wf_features e \<and> MolFromSmiles tk s \<noteq> None"
  unfolding wf_cache_def by blast

lemma featurize_errors:
  "fst (featurize tk draw s a t ve) = Inl e \<Longrightarrow> e = ArgumentError \<or> (t \<and> e = ValueError)"
  by (auto simp: featurize_def traced_defs split: if_splits option.splits sum.splits prod.splits)

lemma batch_loop_unparsed:
  "wf_cache tk st \<Longrightarrow> length (in_bonds v) = total_atoms v \<Longrightarrow> s \<in> set B \<Longrightarrow>
   MolFromSmiles tk s = None \<Longrightarrow>
   \<exists>e st'. batch_loop tk dr a t ve B v st
       = (Inl e, st') \<and> (e = ArgumentError \<or> (t \<and> e = ValueError))"
proof (induction B arbitrary: v st)
  case Nil
  then show ?case by simp
next
  case (Cons k B)
  obtain r1 st1 where l: "load_features tk dr k a t ve st = (r1, st1)"
    by (cases "load_features tk dr k a t ve st")
  from load_features_wf [OF Cons.prems(1) l] have w1: "wf_cache tk st1" .
  show ?case
  proof (cases r1)
    case (Inl e)
    from load_features_Inl(3) [OF l [unfolded Inl]] featurize_errors
    have "e = ArgumentError \<or> (t \<and> e = ValueError)" by blast
    with l Inl show ?thesis by simp
  next
    case (Inr feats)
    from load_features_Inr(1) [OF l [unfolded Inr]]
    have c1: "SMILES_TO_FEATURES st1 k = Some feats" by simp
    from wf_cacheD [OF w1 c1] have wf: "wf_features feats" and "MolFromSmiles tk k \<noteq> None"
      by simp_all
    with Cons.prems(3,4) have "s \<in> set B" by auto
    from add_molecule_succeeds [OF wf Cons.prems(2)] obtain v1 where
      v1: "add_molecule feats v = Inr v1" "length (in_bonds v1) = total_atoms v1" by blast
    from Cons.IH [OF w1 v1(2) \<open>s \<in> set B\<close> Cons.prems(4)] l Inr v1(1)
    show ?thesis by simp
  qed
qed

text \<open>
  C8. For every batch that contains a notation the toolkit fails to parse, in any
  state the module can reach and for any flags, the call of \<open>mol2graph\<close> raises and
  returns no batch result. The exception is the toolkit's rejection of the unparsed
  molecule (\<open>ArgumentError\<close>), unless with \<open>three_d\<close> the embedding or the 3D distance
  matrix of an earlier molecule of the batch has already raised (\<open>ValueError\<close>).
\<close>

theorem malformed_notation_fails_batch:
  assumes "reachable tk st" and "s \<in> set mol_batch" and "MolFromSmiles tk s = None"
  shows "\<exists>e st'. mol2graph tk dr mol_batch addHs three_d virtual_edges st = (Inl e, st')
           \<and> (e = ArgumentError \<or> (three_d \<and> e = ValueError))"
proof -
  have "length (in_bonds (initial_vars three_d virtual_edges))
          = total_atoms (initial_vars three_d virtual_edges)"
    by (simp add: initial_vars_def Let_def)
  from batch_loop_unparsed [OF reachable_wf [OF assms(1)] this assms(2,3)]
  obtain e st' where
    "batch_loop tk dr addHs three_d virtual_edges mol_batch (initial_vars three_d virtual_edges) st
       = (Inl e, st')"
    and "e = ArgumentError \<or> (three_d \<and> e = ValueError)" by blast
  then show ?thesis by (auto simp: mol2graph_def)
qed

theorem malformed_notation_fails_batch_witness:
  "reachable alkanes ethane_state \<and> ''C=O'' \<in> set [''CC'', ''C=O'', ''C'']
   \<and> MolFromSmiles alkanes ''C=O'' = None
   \<and> fst (mol2graph alkanes (constant_draws 0) [''CC'', ''C=O'', ''C''] False False False
       ethane_state)
       = Inl ArgumentError"
proof -
  have r: "reachable alkanes ethane_state"
    using reachable_call [OF reachable_initial mol2graph_ethane] .
  have m: "''C=O'' \<in> set [''CC'', ''C=O'', ''C'']" by simp
  have u: "MolFromSmiles alkanes ''C=O'' = None" by (simp add: alkanes_def)
  from malformed_notation_fails_batch [OF r m u, where dr = "constant_draws 0"
      and addHs = False and three_d = False and virtual_edges = False]
  have "fst (mol2graph alkanes (constant_draws 0) [''CC'', ''C=O'', ''C''] False False False
      ethane_state)
          = Inl ArgumentError" by auto
  with r m u show ?thesis by simp
qed

subsection \<open>The rows of a batch\<close>

lemma scopes_append: "scopes k (ns @ ms) = scopes k ns @ scopes (k + sum_list ns) ms"
  by (induction ns arbitrary: k) (auto simp: add.assoc)

lemma length_scopes [simp]: "length (scopes k ns) = length ns"
  by (induction ns arbitrary: k) auto

lemma nth_scopes: "i < length ns \<Longrightarrow> scopes k ns ! i = (k + sum_list (take i ns), ns ! i)"
proof (induction ns arbitrary: k i)
  case Nil
  then show ?case by simp
next
  case (Cons n ns)
  then show ?case by (cases i) (auto simp: add.assoc)
qed

lemma batch_loop_rows:
  "batch_loop tk dr a t ve B v st = (Inr v', st') \<Longrightarrow>
   \<exists>fs. map (SMILES_TO_FEATURES st') B = map Some fs
      \<and> fatoms_v v' = fatoms_v v @ concat (map fst fs)
      \<and> fbonds_v v' = fbonds_v v @ concat (map (\<lambda>e. fst (snd e)) fs)
      \<and> scope_v v' = scope_v v @ scopes (total_atoms v) (map (\<lambda>e. snd (snd (snd e))) fs)"
proof (induction B arbitrary: v st)
  case Nil
  then show ?case by simp
next
  case (Cons s B)
  from Cons.prems obtain e st1 v1 where
    l: "load_features tk dr s a t ve st = (Inr e, st1)" and
    am: "add_molecule e v = Inr v1" and
    rest: "batch_loop tk dr a t ve B v1 st1 = (Inr v', st')"
    by (rule batch_loop_Cons_Inr)
  from Cons.IH [OF rest] obtain fs where
    fs: "map (SMILES_TO_FEATURES st') B = map Some fs"
      "fatoms_v v' = fatoms_v v1 @ concat (map fst fs)"
      "fbonds_v v' = fbonds_v v1 @ concat (map (\<lambda>e. fst (snd e)) fs)"
      "scope_v v' = scope_v v1 @ scopes (total_atoms v1) (map (\<lambda>e. snd (snd (snd e))) fs)"
    by blast
  from load_features_Inr(1) [OF l] have "SMILES_TO_FEATURES st1 s = Some e" by simp
  from batch_loop_persist [OF rest this] have s: "SMILES_TO_FEATURES st' s = Some e" .
  have "map (SMILES_TO_FEATURES st') (s # B) = map Some (e # fs)"
    using s fs(1) by simp
  moreover have "fatoms_v v' = fatoms_v v @ concat (map fst (e # fs))"
    using fs(2) add_molecule_Inr(1) [OF am] by simp
  moreover have "fbonds_v v' = fbonds_v v @ concat (map (\<lambda>e. fst (snd e)) (e # fs))"
    using fs(3) add_molecule_Inr(2) [OF am] by simp
  moreover have "scope_v v' = scope_v v
      @ scopes (total_atoms v) (map (\<lambda>e. snd (snd (snd e))) (e # fs))"
    using fs(4) add_molecule_Inr(3,4) [OF am] by simp
  ultimately show ?case by blast
qed

lemma concat_slice:
  "i < length xss \<Longrightarrow>
   take (length (xss ! i)) (drop (length (concat (take i xss))) (concat xss)) = xss ! i"
proof (induction xss arbitrary: i)
  case Nil
  then show ?case by simp
next
  case (Cons xs xss)
  then show ?case by (cases i) auto
qed

lemma length_concat_take_map:
  "length (concat (take i (map f xs))) = sum_list (map (\<lambda>x. length (f x)) (take i xs))"
  by (simp add: length_concat take_map comp_def)

lemma build_graph_Inr:
  assumes "build_graph v = Inr g"
  shows "fatoms g = fatoms_v v" and "fbonds g = fbonds_v v" and "scope g = scope_v v"
    and "fatoms_v v \<noteq> []"
  using assms
  by (auto simp: build_graph_def Let_def torch_stack_def
      split: sum.splits list.splits if_splits)

lemma mol2graph_rows:
  assumes "mol2graph tk dr B a t ve st = (Inr g, st')"
  shows "\<exists>fs. map (SMILES_TO_FEATURES st') B = map Some fs
      \<and> fatoms g = concat (map fst fs)
      \<and> fbonds g = replicate (get_atom_fdim + get_bond_fdim t ve) 0
                     # concat (map (\<lambda>e. fst (snd e)) fs)
      \<and> scope g = scopes 0 (map (\<lambda>e. snd (snd (snd e))) fs)"
proof -
  from assms obtain v where
    loop: "batch_loop tk dr a t ve B (initial_vars t ve) st = (Inr v, st')" and
    g: "build_graph v = Inr g"
    by (rule mol2graph_Inr)
  from batch_loop_rows [OF loop] build_graph_Inr(1,2,3) [OF g]
  show ?thesis by (simp add: initial_vars_def Let_def)
qed

lemma mol2graph_persist:
  "mol2graph tk dr B a t ve st = (r, st') \<Longrightarrow> SMILES_TO_FEATURES st k = Some e \<Longrightarrow>
   SMILES_TO_FEATURES st' k = Some e"
proof -
  assume m: "mol2graph tk dr B a t ve st = (r, st')" and k: "SMILES_TO_FEATURES st k = Some e"
  from mol2graph_loop [OF m] obtain r' where
    "batch_loop tk dr a t ve B (initial_vars t ve) st = (r', st')" by blast
  from batch_loop_persist [OF this k] show ?thesis .
qed

lemma mol2graph_fresh:
  assumes "mol2graph tk dr B a t ve st = (Inr g, st')" and "k \<in> set B"
    and "SMILES_TO_FEATURES st k = None"
  shows "\<exists>e. fst (featurize tk (dr k) k a t ve) = Inr e \<and> SMILES_TO_FEATURES st' k = Some e"
proof -
  from assms(1) obtain v where
    "batch_loop tk dr a t ve B (initial_vars t ve) st = (Inr v, st')"
    by (rule mol2graph_Inr)
  from batch_loop_fresh [OF this assms(2,3)] show ?thesis .
qed

lemma wf_features_n_atoms: "wf_features e \<Longrightarrow> snd (snd (snd e)) = length (fst e)"
  by (cases e) (simp add: wf_features_def)

lemma sum_list_map_cong_take:
  "(\<And>x. x \<in> set xs \<Longrightarrow> f x = g x) \<Longrightarrow> sum_list (map f (take i xs)) = sum_list (map g (take i xs))"
  by (rule arg_cong [where f = sum_list], rule map_cong) (auto dest: in_set_takeD)

text \<open>
  C2. In a state the module can reach, let a batch be accepted with fixed flags, and
  let the molecule at position \<open>i\<close> also be accepted alone, with the same flags, either
  after the batch call, or in the same state provided that \<open>three_d\<close> is off, or the
  notation is memoised already, or the embedding of the notation draws the same
  conformer in both calls. Then the atom rows of that molecule in the batch (at the
  offset its scope entry gives, the atom counts of the molecules before it) are the atom
  rows of the single-molecule result, and its bond rows in the batch (after the
  sentinel and the bond rows of the molecules before it) are the bond rows of the
  single-molecule result. The other molecules of the batch only move the rows; \<open>fs\<close> are
  the memoised tuples of the batch's notations.
\<close>

theorem batch_rows_of_a_molecule:
  assumes "reachable tk st"
    and "mol2graph tk dr batch addHs three_d virtual_edges st = (Inr g, st')"
    and "i < length batch"
    and "st2 = st'
         \<or> st2 = st \<and> (\<not> three_d \<or> SMILES_TO_FEATURES st (batch ! i) \<noteq> None
                          \<or> dr1 (batch ! i) = dr (batch ! i))"
    and "mol2graph tk dr1 [batch ! i] addHs three_d virtual_edges st2 = (Inr g1, st1)"
  shows "\<exists>fs. map (SMILES_TO_FEATURES st') batch = map Some fs
           \<and> (let atom_offset = sum_list (map (\<lambda>e. snd (snd (snd e))) (take i fs));
                   bond_offset = sum_list (map (\<lambda>e. length (fst (snd e))) (take i fs))
               in scope g ! i = (atom_offset, length (fatoms g1))
                  \<and> take (length (fatoms g1)) (drop atom_offset (fatoms g)) = fatoms g1
                  \<and> take (length (fbonds g1) - 1) (drop (1 + bond_offset) (fbonds g))
                      = tl (fbonds g1)
                  \<and> hd (fbonds g) = hd (fbonds g1))"
proof -
  let ?s = "batch ! i"
  let ?pad = "replicate (get_atom_fdim + get_bond_fdim three_d virtual_edges) (0::real)"
  from mol2graph_rows [OF assms(2)] obtain fs where
    fs: "map (SMILES_TO_FEATURES st') batch = map Some fs"
      "fatoms g = concat (map fst fs)"
      "fbonds g = ?pad # concat (map (\<lambda>e. fst (snd e)) fs)"
      "scope g = scopes 0 (map (\<lambda>e. snd (snd (snd e))) fs)"
    by blast
  from fs(1) have len: "length fs = length batch"
    by (metis length_map)
  from fs(1) assms(3) len have si: "SMILES_TO_FEATURES st' ?s = Some (fs ! i)"
    by (metis nth_map)
  from mol2graph_rows [OF assms(5)] obtain fs1 where
    fs1: "map (SMILES_TO_FEATURES st1) [?s] = map Some fs1"
      "fatoms g1 = concat (map fst fs1)"
      "fbonds g1 = ?pad # concat (map (\<lambda>e. fst (snd e)) fs1)"
    by blast
  from fs1(1) obtain e1 where e1: "fs1 = [e1]" "SMILES_TO_FEATURES st1 ?s = Some e1"
    by (cases fs1) auto
  have same: "e1 = fs ! i"
    using assms(4)
  proof
    assume "st2 = st'"
    with mol2graph_persist [OF assms(5) [unfolded \<open>st2 = st'\<close>] si] e1(2) show ?thesis by simp
  next
    assume "st2 = st \<and> (\<not> three_d \<or> SMILES_TO_FEATURES st ?s \<noteq> None \<or> dr1 ?s = dr ?s)"
    then have eq: "st2 = st"
      and draws: "\<not> three_d \<or> SMILES_TO_FEATURES st ?s \<noteq> None \<or> dr1 ?s = dr ?s"
      by simp_all
    show ?thesis
    proof (cases "SMILES_TO_FEATURES st ?s")
      case (Some e)
      from mol2graph_persist [OF assms(2) Some] si have "fs ! i = e" by simp
      moreover from mol2graph_persist [OF assms(5) [unfolded eq] Some] e1(2) have "e1 = e" by simp
      ultimately show ?thesis by simp
    next
      case None
      from assms(3) have mem: "?s \<in> set batch" by simp
      from mol2graph_fresh [OF assms(2) mem None] si
      have "fst (featurize tk (dr ?s) ?s addHs three_d virtual_edges) = Inr (fs ! i)" by auto
      moreover from mol2graph_fresh [OF assms(5) [unfolded eq] _ None] e1(2)
      have "fst (featurize tk (dr1 ?s) ?s addHs three_d virtual_edges) = Inr e1" by auto
      moreover from draws None
      have "featurize tk (dr1 ?s) ?s addHs three_d virtual_edges
              = featurize tk (dr ?s) ?s addHs three_d virtual_edges"
        using featurize_draw_unused [of tk "dr1 ?s" ?s addHs virtual_edges "dr ?s"] by auto
      ultimately show ?thesis by simp
    qed
  qed
  have "reachable tk st'" using reachable_call [OF assms(1,2)] .
  from reachable_wf [OF this] have wfc: "wf_cache tk st'" .
  have wf: "wf_features e" if "e \<in> set fs" for e
  proof -
    from that obtain j where j: "j < length fs" "fs ! j = e" by (auto simp: in_set_conv_nth)
    with fs(1) len have "SMILES_TO_FEATURES st' (batch ! j) = Some e" by (metis nth_map)
    from wf_cacheD [OF wfc this] show ?thesis by simp
  qed
  have atoms_eq: "sum_list (map (\<lambda>e. snd (snd (snd e))) (take i fs))
                    = length (concat (take i (map fst fs)))"
    unfolding length_concat_take_map
    by (rule sum_list_map_cong_take) (simp add: wf wf_features_n_atoms)
  have bonds_eq: "sum_list (map (\<lambda>e. length (fst (snd e))) (take i fs))
                    = length (concat (take i (map (\<lambda>e. fst (snd e)) fs)))"
    unfolding length_concat_take_map ..
  have i: "i < length fs" using assms(3) len by simp
  have g1a: "fatoms g1 = fst (fs ! i)" using fs1(2) e1(1) same by simp
  have g1b: "fbonds g1 = ?pad # fst (snd (fs ! i))" using fs1(3) e1(1) same by simp
  have sc: "scope g ! i = (sum_list (map (\<lambda>e. snd (snd (snd e))) (take i fs)), length (fatoms g1))"
    unfolding fs(4) g1a using nth_scopes [of i "map (\<lambda>e. snd (snd (snd e))) fs" 0] i
    by (simp add: take_map wf wf_features_n_atoms)
  have at: "take (length (fatoms g1))
              (drop (sum_list (map (\<lambda>e. snd (snd (snd e))) (take i fs))) (fatoms g)) = fatoms g1"
    unfolding atoms_eq fs(2) g1a using concat_slice [of i "map fst fs"] i by simp
  have bo: "take (length (fbonds g1) - 1)
              (drop (1 + sum_list (map (\<lambda>e. length (fst (snd e))) (take i fs))) (fbonds g))
            = tl (fbonds g1)"
    unfolding bonds_eq fs(3) g1b using concat_slice [of i "map (\<lambda>e. fst (snd e)) fs"] i by simp
  have hd: "hd (fbonds g) = hd (fbonds g1)"
    unfolding fs(3) g1b by simp
  from fs(1) sc at bo hd show ?thesis
    unfolding Let_def by blast
qed

lemma mol2graph_ethane_graph:
  "mol2graph alkanes dr [''CC''] False False False initial_state = (Inr ethane_graph, ethane_state)"
  by (simp add: mol2graph_ethane ethane_graph_def Let_def)

lemma mol2graph_methane_ethane:
  "mol2graph alkanes dr [''C'', ''CC''] False False False initial_state
     = (Inr methane_ethane_graph, methane_ethane_state)"
  by (simp add: batcher_eval featurize_methane featurize_ethane methane_features_def
      ethane_features_def methane_ethane_graph_def methane_ethane_state_def numeral_2_eq_2)

lemma mol2graph_methane_ethane_3d_cache:
  "SMILES_TO_FEATURES
     (snd (mol2graph alkanes dr [''C'', ''CC''] False True False initial_state))
     = [''C'' \<mapsto> methane_features, ''CC'' \<mapsto> ethane_features_3d (dr ''CC'')]"
  by (simp add: batcher_eval featurize_methane_3d featurize_ethane_3d methane_features_def
      ethane_features_3d_def length_ethane_row_3d numeral_2_eq_2)

theorem batch_rows_of_a_molecule_witness:
  "reachable alkanes initial_state
   \<and> fst (mol2graph alkanes (constant_draws 0) [''C'', ''CC''] False True False initial_state)
       = Inr (methane_ethane_graph_3d 0)
   \<and> fst (mol2graph alkanes (constant_draws 0) [[''C'', ''CC''] ! 1] False True False
            initial_state)
       = Inr (ethane_graph_3d 0)
   \<and> SMILES_TO_FEATURES initial_state ([''C'', ''CC''] ! 1) = None
   \<and> constant_draws 0 ([''C'', ''CC''] ! 1) = constant_draws 0 ([''C'', ''CC''] ! 1)
   \<and> scope (methane_ethane_graph_3d 0) ! 1 = (1, 2)
   \<and> take 2 (drop 1 (fatoms (methane_ethane_graph_3d 0))) = fatoms (ethane_graph_3d 0)
   \<and> take 2 (drop (1 + 0) (fbonds (methane_ethane_graph_3d 0)))
       = tl (fbonds (ethane_graph_3d 0))"
proof -
  let ?dr = "constant_draws 0"
  let ?batch = "mol2graph alkanes ?dr [''C'', ''CC''] False True False initial_state"
  let ?single = "mol2graph alkanes ?dr [[''C'', ''CC''] ! 1] False True False initial_state"
  have b: "fst ?batch = Inr (methane_ethane_graph_3d 0)"
    using mol2graph_methane_ethane_3d [of ?dr] by (simp add: constant_draws_def)
  have s: "fst ?single = Inr (ethane_graph_3d 0)"
    using mol2graph_ethane_3d [of ?dr] by (simp add: constant_draws_def)
  from b have batch: "?batch = (Inr (methane_ethane_graph_3d 0), snd ?batch)"
    by (simp add: prod_eq_iff)
  from s have single: "?single = (Inr (ethane_graph_3d 0), snd ?single)"
    by (simp add: prod_eq_iff)
  have fresh: "SMILES_TO_FEATURES initial_state ([''C'', ''CC''] ! 1) = None"
    by (simp add: initial_state_def)
  have same: "?dr ([''C'', ''CC''] ! 1) = ?dr ([''C'', ''CC''] ! 1)" ..
  have i: "(1::nat) < length [''C'', ''CC'']" by simp
  have cond: "initial_state = snd ?batch
      \<or> initial_state = initial_state
        \<and> (\<not> True \<or> SMILES_TO_FEATURES initial_state ([''C'', ''CC''] ! 1) \<noteq> None
            \<or> ?dr ([''C'', ''CC''] ! 1) = ?dr ([''C'', ''CC''] ! 1))"
    by simp
  from batch_rows_of_a_molecule [OF reachable_initial batch i cond single]
  obtain fs where
    fs: "map (SMILES_TO_FEATURES (snd ?batch)) [''C'', ''CC''] = map Some fs" and
    rows: "let atom_offset = sum_list (map (\<lambda>e. snd (snd (snd e))) (take 1 fs));
               bond_offset = sum_list (map (\<lambda>e. length (fst (snd e))) (take 1 fs))
           in scope (methane_ethane_graph_3d 0) ! 1
                = (atom_offset, length (fatoms (ethane_graph_3d 0)))
              \<and> take (length (fatoms (ethane_graph_3d 0)))
                    (drop atom_offset (fatoms (methane_ethane_graph_3d 0)))
                  = fatoms (ethane_graph_3d 0)
              \<and> take (length (fbonds (ethane_graph_3d 0)) - 1)
                    (drop (1 + bond_offset) (fbonds (methane_ethane_graph_3d 0)))
                  = tl (fbonds (ethane_graph_3d 0))
              \<and> hd (fbonds (methane_ethane_graph_3d 0)) = hd (fbonds (ethane_graph_3d 0))"
    by blast
  from fs have "fs = [methane_features, ethane_features_3d 0]"
    unfolding mol2graph_methane_ethane_3d_cache
    by (cases fs; cases "tl fs") (auto simp: constant_draws_def)
  with rows have
    "scope (methane_ethane_graph_3d 0) ! 1 = (1, 2)
     \<and> take 2 (drop 1 (fatoms (methane_ethane_graph_3d 0))) = fatoms (ethane_graph_3d 0)
     \<and> take 2 (drop (1 + 0) (fbonds (methane_ethane_graph_3d 0)))
         = tl (fbonds (ethane_graph_3d 0))"
    by (simp add: methane_features_def ethane_graph_3d_def Let_def numeral_2_eq_2)
  with reachable_initial [of alkanes] b s fresh same show ?thesis by (intro conjI) simp_all
qed

theorem batch_rows_differ_between_embeddings_counterexample:
  "fst (mol2graph alkanes (constant_draws 0) [''C'', ''CC''] False True False initial_state)
     = Inr (methane_ethane_graph_3d 0)
   \<and> fst (mol2graph alkanes (constant_draws 1) [''CC''] False True False initial_state)
       = Inr (ethane_graph_3d 1)
   \<and> take 2 (drop 1 (fbonds (methane_ethane_graph_3d 0))) = [ethane_row_3d 0, ethane_row_3d 0]
   \<and> tl (fbonds (ethane_graph_3d 1)) = [ethane_row_3d 1, ethane_row_3d 1]
   \<and> last (ethane_row_3d 0) = 3 / 2 \<and> last (ethane_row_3d 1) = 151 / 100
   \<and> take 2 (drop 1 (fbonds (methane_ethane_graph_3d 0))) \<noteq> tl (fbonds (ethane_graph_3d 1))"
proof -
  have b: "fst (mol2graph alkanes (constant_draws 0) [''C'', ''CC''] False True False
             initial_state) = Inr (methane_ethane_graph_3d 0)"
    using mol2graph_methane_ethane_3d [of "constant_draws 0"] by (simp add: constant_draws_def)
  have s: "fst (mol2graph alkanes (constant_draws 1) [''CC''] False True False initial_state)
             = Inr (ethane_graph_3d 1)"
    using mol2graph_ethane_3d [of "constant_draws 1"] by (simp add: constant_draws_def)
  have r0: "take 2 (drop 1 (fbonds (methane_ethane_graph_3d 0)))
              = [ethane_row_3d 0, ethane_row_3d 0]"
    by (simp add: methane_ethane_graph_3d_def numeral_2_eq_2)
  have r1: "tl (fbonds (ethane_graph_3d 1)) = [ethane_row_3d 1, ethane_row_3d 1]"
    by (simp add: ethane_graph_3d_def)
  have l0: "last (ethane_row_3d 0) = 3 / 2" by (simp add: last_ethane_row_3d)
  have l1: "last (ethane_row_3d 1) = 151 / 100" by (simp add: last_ethane_row_3d)
  from l0 l1 have "ethane_row_3d 0 \<noteq> ethane_row_3d 1" by auto
  with r0 r1 have ne: "take 2 (drop 1 (fbonds (methane_ethane_graph_3d 0)))
                         \<noteq> tl (fbonds (ethane_graph_3d 1))"
    by simp
  from b s r0 r1 l0 l1 ne show ?thesis by (intro conjI)
qed

lemma mol2graph_methane_graph:
  "mol2graph alkanes dr [''C''] False False False initial_state
      = (Inr methane_graph, methane_state)"
  by (simp add: mol2graph_methane methane_graph_def methane_state_def)

lemma mol2graph_methane_again:
  "mol2graph alkanes dr [''C''] True False False methane_state = (Inr methane_graph, methane_state)"
  by (simp add: batcher_eval methane_state_def methane_features_def methane_graph_def)

lemma mol_features_n_atoms:
  "snd (snd (snd (mol_features tk m d3 dp ve))) = length (GetAtoms tk m)"
  by (simp add: mol_features_def GetNumAtoms_def Let_def split: prod.splits)

lemma featurize_methane_with_hydrogens:
  "\<exists>e. fst (featurize alkanes draw ''C'' True False False) = Inr e \<and> snd (snd (snd e)) = 5"
proof -
  let ?m = "\<lparr>chain = 1, explicit_hs = True, conformer = None\<rparr>"
  have "fst (featurize alkanes draw ''C'' True False False)
          = Inr (mol_features alkanes ?m None (alkane_distance ?m) False)"
    by (simp add: featurize_def traced_defs alkanes_def)
  moreover have "length (GetAtoms alkanes ?m) = 5"
    by (simp add: alkanes_def alkane_atoms_def)
  ultimately show ?thesis
    using mol_features_n_atoms [of alkanes ?m None "alkane_distance ?m" False] by simp
qed

lemma later_persist:
  "later tk st st' \<Longrightarrow> SMILES_TO_FEATURES st k = Some e \<Longrightarrow> SMILES_TO_FEATURES st' k = Some e"
  by (induction rule: later.induct) (auto intro: mol2graph_persist)

lemma mol2graph_trace:
  assumes "mol2graph tk dr B a t ve st = (r, st')" and "SMILES_TO_FEATURES st k \<noteq> None"
  shows "filter (\<lambda>(k', c). k' = k) (toolkit_trace st')
      = filter (\<lambda>(k', c). k' = k) (toolkit_trace st)"
proof -
  from mol2graph_loop [OF assms(1)] obtain r' where
    "batch_loop tk dr a t ve B (initial_vars t ve) st = (r', st')" by blast
  from batch_loop_trace [OF this assms(2)] show ?thesis .
qed

text \<open>
  C1. Let a call of \<open>mol2graph\<close> with flags \<open>(addHs1, three_d1, virtual_edges1)\<close> on a
  batch containing \<open>s\<close> have returned, \<open>s\<close> not being memoised before it. Then the tuple
  \<open>e\<close> computed for \<open>s\<close> under those flags (and with the draw of that call's embedding)
  is memoised under the key \<open>s\<close> alone, and any later call on a batch containing \<open>s\<close>,
  with any flags and any draws, looks \<open>s\<close> up and gets \<open>e\<close>
  without a toolkit call for \<open>s\<close>; the entry is left as it is, and when the later call
  returns, its rows are those of the memoised tuples, \<open>e\<close> at every position of \<open>s\<close>.
\<close>

theorem cache_key_is_notation_alone:
  assumes "mol2graph tk dr1 batch1 addHs1 three_d1 virtual_edges1 st0 = (Inr g1, st1)"
    and "s \<in> set batch1"
    and "SMILES_TO_FEATURES st0 s = None"
    and "later tk st1 st1'"
    and "mol2graph tk dr2 batch2 addHs2 three_d2 virtual_edges2 st1' = (r2, st2)"
    and "s \<in> set batch2"
  shows "\<exists>e. fst (featurize tk (dr1 s) s addHs1 three_d1 virtual_edges1) = Inr e
           \<and> SMILES_TO_FEATURES st1 s = Some e
           \<and> load_features tk dr2 s addHs2 three_d2 virtual_edges2 st1' = (Inr e, st1')
           \<and> SMILES_TO_FEATURES st2 s = Some e
           \<and> filter (\<lambda>(k, c). k = s) (toolkit_trace st2)
               = filter (\<lambda>(k, c). k = s) (toolkit_trace st1')
           \<and> (\<forall>g2. r2 = Inr g2 \<longrightarrow>
                 (\<exists>fs. map (SMILES_TO_FEATURES st2) batch2 = map Some fs
                     \<and> fatoms g2 = concat (map fst fs)
                     \<and> tl (fbonds g2) = concat (map (\<lambda>e. fst (snd e)) fs)
                     \<and> (\<forall>i < length batch2. batch2 ! i = s \<longrightarrow> fs ! i = e)))"
proof -
  from mol2graph_fresh [OF assms(1,2,3)] obtain e where
    e: "fst (featurize tk (dr1 s) s addHs1 three_d1 virtual_edges1) = Inr e"
      "SMILES_TO_FEATURES st1 s = Some e" by blast
  from later_persist [OF assms(4) e(2)] have e1: "SMILES_TO_FEATURES st1' s = Some e" .
  from load_features_hit [OF e1]
  have hit: "load_features tk dr2 s addHs2 three_d2 virtual_edges2 st1' = (Inr e, st1')" .
  from mol2graph_persist [OF assms(5) e1] have e2: "SMILES_TO_FEATURES st2 s = Some e" .
  have "SMILES_TO_FEATURES st1' s \<noteq> None" using e1 by simp
  from mol2graph_trace [OF assms(5) this]
  have tr: "filter (\<lambda>(k, c). k = s) (toolkit_trace st2)
              = filter (\<lambda>(k, c). k = s) (toolkit_trace st1')" .
  have rows: "\<exists>fs. map (SMILES_TO_FEATURES st2) batch2 = map Some fs
                     \<and> fatoms g2 = concat (map fst fs)
                     \<and> tl (fbonds g2) = concat (map (\<lambda>e. fst (snd e)) fs)
                     \<and> (\<forall>i < length batch2. batch2 ! i = s \<longrightarrow> fs ! i = e)"
    if "r2 = Inr g2" for g2
  proof -
    from mol2graph_rows [OF assms(5) [unfolded that]] obtain fs where
      fs: "map (SMILES_TO_FEATURES st2) batch2 = map Some fs"
        "fatoms g2 = concat (map fst fs)"
        "tl (fbonds g2) = concat (map (\<lambda>e. fst (snd e)) fs)"
      by auto
    have "fs ! i = e" if "i < length batch2" "batch2 ! i = s" for i
    proof -
      from fs(1) that(1) have "SMILES_TO_FEATURES st2 (batch2 ! i) = Some (fs ! i)"
        by (metis length_map nth_map)
      with that(2) e2 show ?thesis by simp
    qed
    with fs show ?thesis by blast
  qed
  from e hit e2 tr rows show ?thesis by blast
qed

theorem cache_key_is_notation_alone_witness:
  "mol2graph alkanes (constant_draws 0) [''C''] False False False initial_state
      = (Inr methane_graph, methane_state)
   \<and> mol2graph alkanes (constant_draws 0) [''C''] True False False methane_state
       = (Inr methane_graph, methane_state)
   \<and> SMILES_TO_FEATURES methane_state ''C'' = Some methane_features
   \<and> load_features alkanes (constant_draws 0) ''C'' True False False methane_state
       = (Inr methane_features, methane_state)
   \<and> fst (featurize alkanes 0 ''C'' True False False) \<noteq> Inr methane_features"
proof -
  have member: "''C'' \<in> set [''C'']" by simp
  have fresh: "SMILES_TO_FEATURES initial_state ''C'' = None"
    by (simp add: initial_state_def)
  from cache_key_is_notation_alone
    [where ?dr1.0 = "constant_draws 0" and ?dr2.0 = "constant_draws 0",
      OF mol2graph_methane_graph member fresh later_now mol2graph_methane_again member]
  obtain e where
    e: "fst (featurize alkanes (constant_draws 0 ''C'') ''C'' False False False) = Inr e"
      "SMILES_TO_FEATURES methane_state ''C'' = Some e"
      "load_features alkanes (constant_draws 0) ''C'' True False False methane_state
          = (Inr e, methane_state)"
    by blast
  from e(1) have "e = methane_features" by (simp add: featurize_methane)
  moreover have "fst (featurize alkanes 0 ''C'' True False False) \<noteq> Inr methane_features"
    using featurize_methane_with_hydrogens [of 0] by (auto simp: methane_features_def)
  ultimately show ?thesis
    using e(2,3) mol2graph_methane_graph mol2graph_methane_again by simp
qed

subsection \<open>The incoming-bond lists\<close>

lemma incoming_append:
  assumes "ab \<noteq> []"
  shows "incoming (ab @ [(x, y)]) i
           = incoming ab i @ (if y = int i then [length ab] else [])"
proof -
  from assms have "1 \<le> length ab" by (cases ab) auto
  then have upt: "[1 ..< length (ab @ [(x, y)])] = [1 ..< length ab] @ [length ab]"
    by simp
  have "filter (\<lambda>b. snd ((ab @ [(x, y)]) ! b) = int i) [1 ..< length ab]
          = filter (\<lambda>b. snd (ab ! b) = int i) [1 ..< length ab]"
    by (rule filter_cong) (auto simp: nth_append)
  then show ?thesis
    unfolding incoming_def upt by simp
qed

lemma add_bond_inv:
  assumes "bonds_inv ab ib" and "add_bond off (ab, ib) p = Inr (ab', ib')"
  shows "bonds_inv ab' ib' \<and> length ib' = length ib"
proof -
  obtain a1 a2 where p: "p = (a1, a2)" by (cases p)
  let ?x = "int (a1 + off)" and ?y = "int (a2 + off)"
  from assms(2) p have in_range: "a2 + off < length ib"
    and ab': "ab' = ab @ [(?x, ?y)]"
    and ib': "ib' = ib[a2 + off := ib ! (a2 + off) @ [length ab]]"
    by (auto simp: add_bond_def Let_def split: if_splits)
  from assms(1) have ne: "ab \<noteq> []"
    and inc: "\<And>i. i < length ib \<Longrightarrow> ib ! i = incoming ab i"
    and rng: "\<And>b. 1 \<le> b \<Longrightarrow> b < length ab \<Longrightarrow>
                0 \<le> fst (ab ! b) \<and> 0 \<le> snd (ab ! b) \<and> nat (snd (ab ! b)) < length ib"
    by (auto simp: bonds_inv_def)
  have 1: "ab' \<noteq> []" using ab' by simp
  have 2: "ib' ! i = incoming ab' i" if "i < length ib'" for i
  proof -
    from that ib' have i: "i < length ib" by simp
    have eq: "(?y = int i) = (i = a2 + off)" by auto
    show ?thesis
      unfolding ab' incoming_append [OF ne] ib' eq
      using i inc [OF i] by (auto simp: nth_list_update)
  qed
  have 3: "0 \<le> fst (ab' ! b) \<and> 0 \<le> snd (ab' ! b) \<and> nat (snd (ab' ! b)) < length ib'"
    if "1 \<le> b" "b < length ab'" for b
  proof (cases "b < length ab")
    case True
    with rng [OF that(1) True] show ?thesis by (simp add: ab' ib' nth_append)
  next
    case False
    with that(2) have "b = length ab" by (simp add: ab')
    with in_range show ?thesis by (simp add: ab' ib')
  qed
  from 1 2 3 ib' show ?thesis
    unfolding bonds_inv_def by simp
qed

lemma add_bonds_inv:
  "bonds_inv ab ib \<Longrightarrow> add_bonds off ps (ab, ib) = Inr (ab', ib') \<Longrightarrow>
   bonds_inv ab' ib' \<and> length ib' = length ib"
proof (induction ps arbitrary: ab ib)
  case Nil
  then show ?case by simp
next
  case (Cons p ps)
  from Cons.prems(2) obtain ab1 ib1 where
    step: "add_bond off (ab, ib) p = Inr (ab1, ib1)" and
    rest: "add_bonds off ps (ab1, ib1) = Inr (ab', ib')"
    by (auto split: sum.splits)
  from add_bond_inv [OF Cons.prems(1) step]
  have 1: "bonds_inv ab1 ib1" and 2: "length ib1 = length ib" by simp_all
  from Cons.IH [OF 1 rest] 2 show ?case by simp
qed

lemma bonds_inv_extend:
  assumes "bonds_inv ab ib"
  shows "bonds_inv ab (ib @ replicate n [])"
proof -
  from assms have ne: "ab \<noteq> []"
    and inc: "\<And>i. i < length ib \<Longrightarrow> ib ! i = incoming ab i"
    and rng: "\<And>b. 1 \<le> b \<Longrightarrow> b < length ab \<Longrightarrow>
                0 \<le> fst (ab ! b) \<and> 0 \<le> snd (ab ! b) \<and> nat (snd (ab ! b)) < length ib"
    by (auto simp: bonds_inv_def)
  have "(ib @ replicate n []) ! i = incoming ab i" if "i < length (ib @ replicate n [])" for i
  proof (cases "i < length ib")
    case True
    with inc show ?thesis by (simp add: nth_append)
  next
    case False
    have "incoming ab i = []"
      unfolding incoming_def filter_empty_conv
    proof
      fix b
      assume "b \<in> set [1 ..< length ab]"
      then have "1 \<le> b" "b < length ab" by simp_all
      from rng [OF this] False show "snd (ab ! b) \<noteq> int i" by auto
    qed
    with False that show ?thesis by (simp add: nth_append)
  qed
  moreover have "nat (snd (ab ! b)) < length (ib @ replicate n [])"
    if "1 \<le> b" "b < length ab" for b
    using rng [OF that] by simp
  ultimately show ?thesis
    using ne rng unfolding bonds_inv_def by blast
qed

lemma add_molecule_inv:
  assumes "bonds_inv (all_bonds v) (in_bonds v)" and "length (in_bonds v) = total_atoms v"
    and "add_molecule e v = Inr v'"
  shows "bonds_inv (all_bonds v') (in_bonds v') \<and> length (in_bonds v') = total_atoms v'"
proof -
  from add_bonds_inv [OF bonds_inv_extend [OF assms(1)] add_molecule_Inr(5) [OF assms(3)]]
    add_molecule_Inr(4) [OF assms(3)] assms(2)
  show ?thesis by simp
qed

lemma batch_loop_inv:
  "bonds_inv (all_bonds v) (in_bonds v) \<Longrightarrow> length (in_bonds v) = total_atoms v \<Longrightarrow>
   batch_loop tk dr a t ve B v st = (Inr v', st') \<Longrightarrow>
   bonds_inv (all_bonds v') (in_bonds v') \<and> length (in_bonds v') = total_atoms v'"
proof (induction B arbitrary: v st)
  case Nil
  then show ?case by simp
next
  case (Cons s B)
  from Cons.prems(3) obtain e st1 v1 where
    am: "add_molecule e v = Inr v1" and
    rest: "batch_loop tk dr a t ve B v1 st1 = (Inr v', st')"
    by (rule batch_loop_Cons_Inr)
  from add_molecule_inv [OF Cons.prems(1,2) am]
  have "bonds_inv (all_bonds v1) (in_bonds v1)" "length (in_bonds v1) = total_atoms v1"
    by simp_all
  from Cons.IH [OF this rest] show ?case .
qed

lemma initial_vars_inv:
  "bonds_inv (all_bonds (initial_vars t ve)) (in_bonds (initial_vars t ve))"
  "length (in_bonds (initial_vars t ve)) = total_atoms (initial_vars t ve)"
  by (simp_all add: initial_vars_def Let_def bonds_inv_def)

subsection \<open>Filling the index tables\<close>

lemma length_fold_update [simp]:
  "length (fold (\<lambda>(i, b) row. row[i := b]) asg row) = length row"
  by (induction asg arbitrary: row) (auto split: prod.splits)

lemma fold_update_nth:
  "k + length xs \<le> length row \<Longrightarrow> j < length row \<Longrightarrow>
   fold (\<lambda>(i, b) row. row[i := b]) (filter P (enumerate k xs)) row ! j
     = (if k \<le> j \<and> j < k + length xs \<and> P (j, xs ! (j - k)) then xs ! (j - k) else row ! j)"
proof (induction xs arbitrary: k row)
  case Nil
  then show ?case by auto
next
  case (Cons x xs)
  let ?row = "if P (k, x) then row[k := x] else row"
  have step: "fold (\<lambda>(i, b) row. row[i := b]) (filter P (enumerate k (x # xs))) row
                = fold (\<lambda>(i, b) row. row[i := b]) (filter P (enumerate (Suc k) xs)) ?row"
    by simp
  from Cons.prems have 1: "Suc k + length xs \<le> length ?row" and 2: "j < length ?row"
    by simp_all
  show ?case
    unfolding step Cons.IH [OF 1 2]
    using Cons.prems by (auto simp: nth_Cons' Suc_diff_le nth_list_update)
qed

lemma fill_row_filter:
  assumes "length xs \<le> w"
  shows "fill_row w (filter (\<lambda>(i, b). Q b) (enumerate 0 xs))
           = map (\<lambda>b. if Q b then b else 0) xs @ replicate (w - length xs) 0"
proof (rule nth_equalityI)
  show "length (fill_row w (filter (\<lambda>(i, b). Q b) (enumerate 0 xs)))
          = length (map (\<lambda>b. if Q b then b else 0) xs @ replicate (w - length xs) 0)"
    using assms by (simp add: fill_row_def)
next
  fix j
  assume "j < length (fill_row w (filter (\<lambda>(i, b). Q b) (enumerate 0 xs)))"
  then have j: "j < w" by (simp add: fill_row_def)
  have "fill_row w (filter (\<lambda>(i, b). Q b) (enumerate 0 xs)) ! j
          = (if j < length xs \<and> Q (xs ! j) then xs ! j else 0)"
    unfolding fill_row_def
    using fold_update_nth [of 0 xs "replicate w 0" j "\<lambda>(i, b). Q b"] assms j by simp
  also have "\<dots> = (map (\<lambda>b. if Q b then b else 0) xs @ replicate (w - length xs) 0) ! j"
    using j by (simp add: nth_append)
  finally show "fill_row w (filter (\<lambda>(i, b). Q b) (enumerate 0 xs)) ! j
          = (map (\<lambda>b. if Q b then b else 0) xs @ replicate (w - length xs) 0) ! j" .
qed

lemma fill_row_enumerate:
  assumes "length xs \<le> w"
  shows "fill_row w (enumerate 0 xs) = xs @ replicate (w - length xs) 0"
  using fill_row_filter [OF assms, of "\<lambda>b. True"] by (simp add: case_prod_unfold)

lemma py_max_Inr: "py_max xs = Inr m \<Longrightarrow> xs \<noteq> [] \<and> m = Max (set xs)"
  using Max.set_eq_fold [of _ "tl xs"] by (cases xs) auto

lemma collect_Inr:
  "collect (map f xs) = Inr ys \<Longrightarrow>
   length ys = length xs \<and> (\<forall>i < length xs. f (xs ! i) = Inr (ys ! i))"
proof (induction xs arbitrary: ys)
  case Nil
  then show ?case by simp
next
  case (Cons x xs)
  from Cons.prems obtain y ys' where
    y: "f x = Inr y" and ys': "collect (map f xs) = Inr ys'" and ys: "ys = y # ys'"
    by (auto split: sum.splits)
  from Cons.IH [OF ys'] y ys show ?case
    by (auto simp: nth_Cons')
qed

lemma filter_nonzero_padded:
  assumes "\<forall>b \<in> set xs. b \<noteq> (0::nat)"
  shows "filter (\<lambda>b. b \<noteq> 0) (map (\<lambda>b. if Q b then b else 0) xs @ replicate k 0) = filter Q xs"
  using assms by (induction xs) auto

lemma incoming_positive: "b \<in> set (incoming ab i) \<Longrightarrow> b \<noteq> 0"
  by (auto simp: incoming_def)

lemma build_graph_tables:
  assumes inv: "bonds_inv (all_bonds v) (in_bonds v)"
    and len: "length (in_bonds v) = total_atoms v"
    and g: "build_graph v = Inr g"
  defines "ab \<equiv> all_bonds v" and "n \<equiv> total_atoms v"
  defines "width \<equiv> Max ((\<lambda>i. length (incoming ab i)) ` {..<n})"
  shows "0 < n" and "length (agraph g) = n" and "length (bgraph g) = length ab"
    and "\<And>i. i < n \<Longrightarrow> length (incoming ab i) \<le> width"
    and "\<And>i. i < n \<Longrightarrow>
           agraph g ! i = incoming ab i @ replicate (width - length (incoming ab i)) 0"
    and "bgraph g ! 0 = replicate width 0"
    and "\<And>b1. 1 \<le> b1 \<Longrightarrow> b1 < length ab \<Longrightarrow>
           0 \<le> fst (ab ! b1) \<and> nat (fst (ab ! b1)) < n
           \<and> bgraph g ! b1
               = map (\<lambda>b2. if fst (ab ! b2) \<noteq> snd (ab ! b1) then b2 else 0)
                   (incoming ab (nat (fst (ab ! b1))))
                 @ replicate (width - length (incoming ab (nat (fst (ab ! b1))))) 0"
proof -
  let ?ib = "in_bonds v"
  from g obtain w bg where
    w: "py_max (map length ?ib) = Inr w" and
    ag: "agraph g = map (agraph_row w ?ib) [0 ..< n]" and
    bg: "collect (map (bgraph_row w ?ib ab) [0 ..< length ab]) = Inr bg" and
    gb: "bgraph g = bg"
    by (auto simp: build_graph_def Let_def ab_def n_def split: sum.splits)
  from inv have ne: "ab \<noteq> []"
    and inc: "\<And>i. i < n \<Longrightarrow> ?ib ! i = incoming ab i"
    and rng: "\<And>b. 1 \<le> b \<Longrightarrow> b < length ab \<Longrightarrow> 0 \<le> fst (ab ! b)"
    using len by (auto simp: bonds_inv_def ab_def n_def)
  have ib: "?ib = map (incoming ab) [0 ..< n]"
    by (rule nth_equalityI) (use len inc in \<open>auto simp: n_def\<close>)
  from py_max_Inr [OF w] have "?ib \<noteq> []" and wmax: "w = Max (set (map length ?ib))"
    by simp_all
  with len show n: "0 < n" by (cases "in_bonds v") (auto simp: n_def)
  have "set (map length ?ib) = (\<lambda>i. length (incoming ab i)) ` {..<n}"
    by (subst ib) (auto simp: image_image)
  with wmax have ww: "w = width" by (simp add: width_def)
  show le: "length (incoming ab i) \<le> width" if "i < n" for i
    unfolding width_def using that by (intro Max_ge) auto
  from ag show "length (agraph g) = n" by simp
  from collect_Inr [OF bg] gb
  have lb: "length (bgraph g) = length ab"
    and rows: "\<And>b. b < length ab \<Longrightarrow> bgraph_row w ?ib ab b = Inr (bgraph g ! b)"
    by auto
  from lb show "length (bgraph g) = length ab" .
  show "agraph g ! i = incoming ab i @ replicate (width - length (incoming ab i)) 0"
    if "i < n" for i
    unfolding ag using that le [OF that] inc [OF that]
    by (simp add: agraph_row_def ww fill_row_enumerate)
  from ne have "0 < length ab" by simp
  from rows [OF this] show "bgraph g ! 0 = replicate width 0"
    by (simp add: bgraph_row_def ww)
  show "0 \<le> fst (ab ! b1) \<and> nat (fst (ab ! b1)) < n
           \<and> bgraph g ! b1
               = map (\<lambda>b2. if fst (ab ! b2) \<noteq> snd (ab ! b1) then b2 else 0)
                   (incoming ab (nat (fst (ab ! b1))))
                 @ replicate (width - length (incoming ab (nat (fst (ab ! b1))))) 0"
    if "1 \<le> b1" "b1 < length ab" for b1
  proof -
    obtain x y where xy: "ab ! b1 = (x, y)" by (cases "ab ! b1")
    from rows [OF that(2)] that(1) xy
    have x: "nat x < n"
      and row: "bgraph g ! b1 = fill_row w (filter (\<lambda>(i, b2). fst (ab ! b2) \<noteq> y)
                                              (enumerate 0 (?ib ! nat x)))"
      using len by (auto simp: bgraph_row_def n_def split: if_splits)
    from rng [OF that] xy have "0 \<le> x" by simp
    with x row show ?thesis
      unfolding xy using le [OF x] inc [OF x]
      by (simp add: fill_row_filter ww)
  qed
qed

text \<open>
  C3. For every batch that \<open>mol2graph\<close> accepts, with \<open>all_bonds\<close> the list of directed
  bonds in global numbering that the loop over the batch has built (index 0 is the
  sentinel) and \<open>width\<close> the largest in-degree of an atom of the batch: row \<open>i\<close> of
  \<open>agraph\<close> is the list of the bonds whose destination is atom \<open>i\<close>, followed by zeros
  up to \<open>width\<close>; and for every bond \<open>b1 = (x, y)\<close> with index at least 1, row \<open>b1\<close>
  of \<open>bgraph\<close> has length \<open>width\<close>, its nonzero entries are exactly the bonds incoming
  at \<open>x\<close> whose source is not \<open>y\<close>, and every other entry is 0: the slot of an
  incoming bond from \<open>y\<close> holds 0, and zeros follow up to \<open>width\<close>.
\<close>

theorem index_tables:
  assumes "mol2graph tk dr mol_batch addHs three_d virtual_edges st = (Inr g, st')"
  shows "\<exists>v. batch_loop tk dr addHs three_d virtual_edges mol_batch
                (initial_vars three_d virtual_edges) st = (Inr v, st')
           \<and> (let ab = all_bonds v; n = total_atoms v;
                   width = Max ((\<lambda>i. length (incoming ab i)) ` {..<n})
               in length (agraph g) = n \<and> length (bgraph g) = length ab
                  \<and> (\<forall>i < n. agraph g ! i
                       = incoming ab i @ replicate (width - length (incoming ab i)) 0
                     \<and> length (agraph g ! i) = width)
                  \<and> (\<forall>b1. 1 \<le> b1 \<and> b1 < length ab \<longrightarrow>
                       (case ab ! b1 of (x, y) \<Rightarrow>
                          0 \<le> x \<and> nat x < n
                          \<and> length (bgraph g ! b1) = width
                          \<and> bgraph g ! b1
                              = map (\<lambda>b2. if fst (ab ! b2) \<noteq> y then b2 else 0)
                                  (incoming ab (nat x))
                                @ replicate (width - length (incoming ab (nat x))) 0
                          \<and> filter (\<lambda>b. b \<noteq> 0) (bgraph g ! b1)
                              = filter (\<lambda>b2. fst (ab ! b2) \<noteq> y) (incoming ab (nat x)))))"
proof -
  from assms obtain v where
    loop: "batch_loop tk dr addHs three_d virtual_edges mol_batch
             (initial_vars three_d virtual_edges) st = (Inr v, st')" and
    g: "build_graph v = Inr g"
    by (rule mol2graph_Inr)
  from batch_loop_inv [OF initial_vars_inv loop]
  have inv: "bonds_inv (all_bonds v) (in_bonds v)" and len: "length (in_bonds v) = total_atoms v"
    by simp_all
  note t = build_graph_tables [OF inv len g]
  let ?ab = "all_bonds v" and ?n = "total_atoms v"
  let ?width = "Max ((\<lambda>i. length (incoming ?ab i)) ` {..<?n})"
  have a: "agraph g ! i = incoming ?ab i @ replicate (?width - length (incoming ?ab i)) 0
             \<and> length (agraph g ! i) = ?width" if "i < ?n" for i
    using t(5) [OF that] t(4) [OF that] by simp
  have b: "case ?ab ! b1 of (x, y) \<Rightarrow>
             0 \<le> x \<and> nat x < ?n
             \<and> length (bgraph g ! b1) = ?width
             \<and> bgraph g ! b1
                 = map (\<lambda>b2. if fst (?ab ! b2) \<noteq> y then b2 else 0) (incoming ?ab (nat x))
                   @ replicate (?width - length (incoming ?ab (nat x))) 0
             \<and> filter (\<lambda>b. b \<noteq> 0) (bgraph g ! b1)
                 = filter (\<lambda>b2. fst (?ab ! b2) \<noteq> y) (incoming ?ab (nat x))"
    if "1 \<le> b1" "b1 < length ?ab" for b1
  proof -
    obtain x y where xy: "?ab ! b1 = (x, y)" by (cases "?ab ! b1")
    from t(7) [OF that] xy have x: "0 \<le> x" "nat x < ?n"
      and row: "bgraph g ! b1
                 = map (\<lambda>b2. if fst (?ab ! b2) \<noteq> y then b2 else 0) (incoming ?ab (nat x))
                   @ replicate (?width - length (incoming ?ab (nat x))) 0"
      by simp_all
    have nz: "filter (\<lambda>b. b \<noteq> 0) (bgraph g ! b1)
                 = filter (\<lambda>b2. fst (?ab ! b2) \<noteq> y) (incoming ?ab (nat x))"
      unfolding row by (rule filter_nonzero_padded) (use incoming_positive in blast)
    have "length (bgraph g ! b1) = ?width"
      unfolding row using t(4) [OF x(2)] by simp
    with x row nz show ?thesis unfolding xy by simp
  qed
  have A: "\<forall>i < ?n. agraph g ! i
                 = incoming ?ab i @ replicate (?width - length (incoming ?ab i)) 0
               \<and> length (agraph g ! i) = ?width"
  proof (intro allI impI)
    fix i
    assume "i < ?n"
    from a [OF this]
    show "agraph g ! i = incoming ?ab i @ replicate (?width - length (incoming ?ab i)) 0
            \<and> length (agraph g ! i) = ?width" .
  qed
  have B: "\<forall>b1. 1 \<le> b1 \<and> b1 < length ?ab \<longrightarrow>
                 (case ?ab ! b1 of (x, y) \<Rightarrow>
                    0 \<le> x \<and> nat x < ?n
                    \<and> length (bgraph g ! b1) = ?width
                    \<and> bgraph g ! b1
                        = map (\<lambda>b2. if fst (?ab ! b2) \<noteq> y then b2 else 0)
                            (incoming ?ab (nat x))
                          @ replicate (?width - length (incoming ?ab (nat x))) 0
                    \<and> filter (\<lambda>b. b \<noteq> 0) (bgraph g ! b1)
                        = filter (\<lambda>b2. fst (?ab ! b2) \<noteq> y) (incoming ?ab (nat x)))"
  proof (intro allI impI)
    fix b1
    assume h: "1 \<le> b1 \<and> b1 < length ?ab"
    from b [OF conjunct1 [OF h] conjunct2 [OF h]]
    show "case ?ab ! b1 of (x, y) \<Rightarrow>
             0 \<le> x \<and> nat x < ?n
             \<and> length (bgraph g ! b1) = ?width
             \<and> bgraph g ! b1
                 = map (\<lambda>b2. if fst (?ab ! b2) \<noteq> y then b2 else 0) (incoming ?ab (nat x))
                   @ replicate (?width - length (incoming ?ab (nat x))) 0
             \<and> filter (\<lambda>b. b \<noteq> 0) (bgraph g ! b1)
                 = filter (\<lambda>b2. fst (?ab ! b2) \<noteq> y) (incoming ?ab (nat x))" .
  qed
  from loop t(2,3) A B show ?thesis
    unfolding Let_def by (intro exI [of _ v] conjI)
qed

lemma numeral_4_eq_4: "4 = Suc (Suc (Suc (Suc 0)))"
  by simp

lemmas small_numerals = numeral_2_eq_2 numeral_3_eq_3 numeral_4_eq_4

lemma featurize_propane:
  "featurize alkanes draw ''CCC'' False False False
     = (Inr propane_features, [CallMolFromSmiles, CallGetDistanceMatrix])"
  by (simp add: alkanes_eval propane_features_def small_numerals)

lemma batch_loop_propane:
  "batch_loop alkanes dr False False False [''CCC''] (initial_vars False False) initial_state
     = (Inr propane_vars, propane_state)"
  by (simp add: batcher_eval featurize_propane propane_vars_def propane_state_def
      propane_features_def small_numerals)

lemma build_graph_propane: "build_graph propane_vars = Inr propane_graph"
  by (simp add: build_graph_def propane_vars_def propane_graph_def propane_features_def
      torch_stack_def agraph_row_def bgraph_row_def fill_row_def length_bond_features Let_def
      small_numerals)

lemma mol2graph_propane:
  "mol2graph alkanes dr [''CCC''] False False False initial_state
      = (Inr propane_graph, propane_state)"
  unfolding mol2graph_def batch_loop_propane by (simp add: build_graph_propane)

theorem index_tables_witness:
  "mol2graph alkanes (constant_draws 0) [''CCC''] False False False initial_state
      = (Inr propane_graph, propane_state)
   \<and> all_bonds propane_vars = [(- 1, - 1), (0, 1), (1, 0), (1, 2), (2, 1)]
   \<and> agraph propane_graph = [[2, 0], [1, 4], [3, 0]]
   \<and> bgraph propane_graph = [[0, 0], [0, 0], [0, 4], [1, 0], [0, 0]]
   \<and> length (agraph propane_graph) = total_atoms propane_vars
   \<and> filter (\<lambda>b. b \<noteq> 0) (bgraph propane_graph ! 2)
       = filter (\<lambda>b2. fst (all_bonds propane_vars ! b2) \<noteq> 0)
           (incoming (all_bonds propane_vars) 1)"
proof -
  from index_tables [OF mol2graph_propane] obtain v where
    loop: "batch_loop alkanes (constant_draws 0) False False False [''CCC'']
        (initial_vars False False) initial_state
             = (Inr v, propane_state)" and
    len: "length (agraph propane_graph) = total_atoms v" and
    rows: "\<forall>b1. 1 \<le> b1 \<and> b1 < length (all_bonds v) \<longrightarrow>
             (case all_bonds v ! b1 of (x, y) \<Rightarrow>
                0 \<le> x \<and> nat x < total_atoms v
                \<and> length (bgraph propane_graph ! b1)
                    = Max ((\<lambda>i. length (incoming (all_bonds v) i)) ` {..<total_atoms v})
                \<and> bgraph propane_graph ! b1
                    = map (\<lambda>b2. if fst (all_bonds v ! b2) \<noteq> y then b2 else 0)
                        (incoming (all_bonds v) (nat x))
                      @ replicate
                          (Max ((\<lambda>i. length (incoming (all_bonds v) i)) ` {..<total_atoms v})
                           - length (incoming (all_bonds v) (nat x))) 0
                \<and> filter (\<lambda>b. b \<noteq> 0) (bgraph propane_graph ! b1)
                    = filter (\<lambda>b2. fst (all_bonds v ! b2) \<noteq> y)
                        (incoming (all_bonds v) (nat x)))"
    unfolding Let_def by blast
  from loop have v: "v = propane_vars" unfolding batch_loop_propane by simp
  have ab: "all_bonds propane_vars = [(- 1, - 1), (0, 1), (1, 0), (1, 2), (2, 1)]"
    by (simp add: propane_vars_def)
  have b2: "1 \<le> (2::nat) \<and> 2 < length (all_bonds propane_vars)" by (simp add: ab)
  have at2: "all_bonds propane_vars ! 2 = (1, 0)" by (simp add: ab)
  from rows [unfolded v, rule_format, OF b2]
  have "filter (\<lambda>b. b \<noteq> 0) (bgraph propane_graph ! 2)
          = filter (\<lambda>b2. fst (all_bonds propane_vars ! b2) \<noteq> 0)
              (incoming (all_bonds propane_vars) (nat 1))"
    unfolding at2 prod.case by (elim conjE)
  then have flt: "filter (\<lambda>b. b \<noteq> 0) (bgraph propane_graph ! 2)
          = filter (\<lambda>b2. fst (all_bonds propane_vars ! b2) \<noteq> 0)
              (incoming (all_bonds propane_vars) 1)"
    by simp
  have ag: "agraph propane_graph = [[2, 0], [1, 4], [3, 0]]"
    and bg: "bgraph propane_graph = [[0, 0], [0, 0], [0, 4], [1, 0], [0, 0]]"
    by (simp_all add: propane_graph_def)
  from len v have len': "length (agraph propane_graph) = total_atoms propane_vars" by simp
  from mol2graph_propane ab ag bg len' flt show ?thesis
    by (intro conjI)
qed

section \<open>The message passing network: lemmas\<close>

lemmas mpn_eval = forward_def forward_without_rounds_def message_round_def atom_aggregation_def
  readout_def mol_vec_def linear_rows_def linear_def index_select_ND_def sum_vectors_def
  tensor_add_def dropout_layer_def bind_error_def torch_stack_def Let_def

lemmas tiny_eval = tiny_MPN_def tiny_graph_def tiny_linear_def eval_nat_numeral

lemma forward_tiny_depth_1: "forward (tiny_MPN 1) no_dropout tiny_graph = Inr [[6]]"
  by (simp add: mpn_eval tiny_eval)

lemma forward_tiny_depth_2: "forward (tiny_MPN 2) no_dropout tiny_graph = Inr [[8]]"
  by (simp add: mpn_eval tiny_eval)

lemma forward_without_rounds_tiny:
  "forward_without_rounds (tiny_MPN d) no_dropout tiny_graph = Inr [[6]]"
  by (simp add: mpn_eval tiny_eval)

text \<open>
  C7. For every batched graph, every parameter setting with \<open>depth = 1\<close> and every
  draw of the dropout factors, \<open>forward\<close> makes no message-passing round: its result, or
  the exception it raises, is that of feeding \<open>activation(W_i(fbonds))\<close> directly into
  the final atom aggregation followed by the per-molecule pooling.
\<close>

theorem forward_depth_one:
  assumes "depth M = 1"
  shows "forward M masks g = forward_without_rounds M masks g"
  unfolding forward_def forward_without_rounds_def Let_def assms
  by (simp add: bind_error_def split: sum.splits)

theorem forward_depth_one_witness:
  "depth (tiny_MPN 1) = 1
   \<and> forward (tiny_MPN 1) no_dropout tiny_graph
       = forward_without_rounds (tiny_MPN 1) no_dropout tiny_graph
   \<and> forward (tiny_MPN 1) no_dropout tiny_graph = Inr [[6]]
   \<and> forward (tiny_MPN 2) no_dropout tiny_graph
       \<noteq> forward_without_rounds (tiny_MPN 2) no_dropout tiny_graph"
proof -
  have d: "depth (tiny_MPN 1) = 1" by (simp add: tiny_MPN_def)
  from forward_depth_one [OF d]
  have eq: "forward (tiny_MPN 1) no_dropout tiny_graph
              = forward_without_rounds (tiny_MPN 1) no_dropout tiny_graph" .
  have ne: "forward (tiny_MPN 2) no_dropout tiny_graph
              \<noteq> forward_without_rounds (tiny_MPN 2) no_dropout tiny_graph"
    unfolding forward_tiny_depth_2 forward_without_rounds_tiny by simp
  from d eq forward_tiny_depth_1 ne show ?thesis by (intro conjI)
qed

subsection \<open>Zero rows\<close>

lemma sum_list_all_zero:
  "(\<And>x. x \<in> set xs \<Longrightarrow> f x = (0::real)) \<Longrightarrow> sum_list (map f xs) = 0"
  by (induction xs) auto

lemma linear_zero:
  assumes "bias L = None"
  shows "linear L (replicate (in_features L) 0) = Inr (replicate (out_features L) 0)"
proof -
  have "sum_list (map (\<lambda>i. weight L out i * replicate (in_features L) 0 ! i)
          [0 ..< in_features L]) = 0" for out
    by (rule sum_list_all_zero) simp
  then show ?thesis
    using assms by (simp add: linear_def map_replicate_const)
qed

lemma linear_Inr:
  "linear L x = Inr y \<Longrightarrow> length y = out_features L \<and> length x = in_features L"
  by (auto simp: linear_def split: if_splits)

lemma linear_rows_Inr:
  assumes "linear_rows L X = Inr Y"
  shows "length Y = length X" and "\<And>i. i < length X \<Longrightarrow> linear L (X ! i) = Inr (Y ! i)"
    and "\<And>r. r \<in> set Y \<Longrightarrow> length r = out_features L"
proof -
  from collect_Inr [OF assms [unfolded linear_rows_def]]
  show len: "length Y = length X" and rows: "\<And>i. i < length X \<Longrightarrow> linear L (X ! i) = Inr (Y ! i)"
    by simp_all
  fix r
  assume "r \<in> set Y"
  then obtain i where "i < length Y" "Y ! i = r" by (auto simp: in_set_conv_nth)
  with len rows [of i] linear_Inr [of L "X ! i" r] show "length r = out_features L" by simp
qed

lemma activate_zero [simp]: "activate f 0 = 0"
  by (cases f) simp_all

lemma scale_zero_row:
  "map (\<lambda>(j, x). x * c j) (enumerate 0 (replicate h (0::real))) = replicate h 0"
  by (rule nth_equalityI) (simp_all add: nth_enumerate_eq)

lemma dropout_layer_zero_row:
  assumes "X \<noteq> []" and "X ! 0 = replicate h 0"
  shows "dropout_layer M masks k X \<noteq> [] \<and> dropout_layer M masks k X ! 0 = replicate h 0"
proof (cases "training M")
  case True
  from assms(1) have "0 < length X" by simp
  moreover from assms(1) have "enumerate 0 X \<noteq> []" by (cases X) simp_all
  ultimately show ?thesis
    using assms True by (simp add: dropout_layer_def nth_enumerate_eq scale_zero_row)
next
  case False
  with assms show ?thesis by (simp add: dropout_layer_def)
qed

lemma dropout_layer_widths:
  assumes "\<And>r. r \<in> set X \<Longrightarrow> length r = h"
  shows "r \<in> set (dropout_layer M masks k X) \<Longrightarrow> length r = h"
  using assms by (auto simp: dropout_layer_def in_set_enumerate_eq split: if_splits)

lemma collect_gather:
  "collect (map (\<lambda>k. if k < length src then Inr (src ! k) else Inl IndexError) row) = Inr vs
   \<Longrightarrow> vs = map ((!) src) row \<and> (\<forall>k \<in> set row. k < length src)"
proof (induction row arbitrary: vs)
  case Nil
  then show ?case by simp
next
  case (Cons k row)
  then show ?case by (auto split: if_splits sum.splits)
qed

lemma index_select_ND_Inr:
  assumes "index_select_ND src idx = Inr G"
  shows "length G = length idx"
    and "\<And>i. i < length idx \<Longrightarrow> G ! i = map ((!) src) (idx ! i)"
proof -
  from collect_Inr [OF assms [unfolded index_select_ND_def]]
  show "length G = length idx"
    and "\<And>i. i < length idx \<Longrightarrow> G ! i = map ((!) src) (idx ! i)"
    using collect_gather by auto
qed

lemma length_sum_vectors:
  "(\<And>v. v \<in> set vs \<Longrightarrow> length v = h) \<Longrightarrow> length (sum_vectors h vs) = h"
  by (induction vs) (auto simp: sum_vectors_def)

lemma add_zero_vector: "length s = h \<Longrightarrow> map2 (+) (replicate h (0::real)) s = s"
  by (rule nth_equalityI) simp_all

lemma sum_vectors_zeros:
  "(\<And>v. v \<in> set vs \<Longrightarrow> v = replicate h 0) \<Longrightarrow> sum_vectors h vs = replicate h 0"
proof (induction vs)
  case Nil
  then show ?case by (simp add: sum_vectors_def)
next
  case (Cons v vs)
  then have "sum_vectors h vs = replicate h 0" and "v = replicate h 0" by simp_all
  then show ?case
    using add_zero_vector [of "replicate h 0" h] by (simp add: sum_vectors_def)
qed

lemma attend_messages_zeros:
  assumes "attend_messages M G = Inr G'"
    and "\<And>v. v \<in> set G \<Longrightarrow> v = replicate (hidden_size M) 0"
  shows "v \<in> set G' \<Longrightarrow> v = replicate (hidden_size M) 0"
proof -
  assume v: "v \<in> set G'"
  from assms(1) obtain ws where "G' = map2 (\<lambda>w v. map2 (*) v (replicate (hidden_size M) w)) ws G"
    by (auto simp: attend_messages_def bind_error_def split: sum.splits)
  with v obtain w u where "(w, u) \<in> set (zip ws G)"
    and "v = map2 (*) u (replicate (hidden_size M) w)" by auto
  moreover then have "u = replicate (hidden_size M) 0"
    using assms(2) set_zip_rightD by fast
  ultimately show ?thesis
    by (simp add: map2_map_map [symmetric] zip_replicate map_replicate_const
        del: map2_map_map)
qed

lemma tensor_add_row_0:
  assumes "tensor_add X Y = Inr P" and "X \<noteq> []" and "Y \<noteq> []"
  shows "P \<noteq> [] \<and> P ! 0 = map2 (+) (X ! 0) (Y ! 0)"
proof -
  from assms(2,3) have "0 < length X" "0 < length Y" by simp_all
  with assms(1) show ?thesis
    by (auto simp: tensor_add_def split: if_splits)
qed

lemma tensor_add_widths:
  assumes "tensor_add X Y = Inr P"
    and "\<And>r. r \<in> set X \<Longrightarrow> length r = h" and "\<And>r. r \<in> set Y \<Longrightarrow> length r = h"
  shows "r \<in> set P \<Longrightarrow> length r = h"
proof -
  assume r: "r \<in> set P"
  consider "P = map2 (map2 (+)) X Y" | "length X = 1" "P = map (map2 (+) (X ! 0)) Y"
    | "length Y = 1" "P = map (\<lambda>x. map2 (+) x (Y ! 0)) X"
    using assms(1) by (auto simp: tensor_add_def split: if_splits)
  then show ?thesis
  proof cases
    case 1
    with r obtain x y where xy: "(x, y) \<in> set (zip X Y)" and rr: "r = map2 (+) x y" by auto
    from xy have "x \<in> set X" "y \<in> set Y"
      by (auto dest: set_zip_leftD set_zip_rightD)
    with assms(2,3) have "length x = h" "length y = h" by simp_all
    with rr show ?thesis by simp
  next
    case 2
    then have "X ! 0 \<in> set X" by (cases X) auto
    with 2 r assms(2,3) show ?thesis by auto
  next
    case 3
    then have "Y ! 0 \<in> set Y" by (cases Y) auto
    with 3 r assms(2,3) show ?thesis by auto
  qed
qed

lemma MPN_init_Inr:
  assumes "MPN_init a p = Inr M"
  shows "bias (W_i M) = None" and "bias (W_h M) = None"
    and "out_features (W_i M) = hidden_size M"
    and "in_features (W_h M) = hidden_size M" and "out_features (W_h M) = hidden_size M"
    and "in_features (W_i M) = get_atom_fdim + get_bond_fdim (arg_three_d a) (arg_virtual_edges a)"
  using assms
  by (auto simp: MPN_init_def bind_error_def Let_def split: sum.splits)

lemma message_round_zero_row:
  assumes h: "bias (W_h M) = None" "in_features (W_h M) = hidden_size M"
      "out_features (W_h M) = hidden_size M"
    and binput: "binput \<noteq> []" "binput ! 0 = replicate (hidden_size M) 0"
      "\<And>r. r \<in> set binput \<Longrightarrow> length r = hidden_size M"
    and table: "bgraph g \<noteq> []" "\<And>k. k \<in> set (bgraph g ! 0) \<Longrightarrow> k = 0"
    and message: "message \<noteq> []" "message ! 0 = replicate (hidden_size M) 0"
    and round: "message_round M masks g binput k message = Inr message'"
  shows "message' \<noteq> [] \<and> message' ! 0 = replicate (hidden_size M) 0
         \<and> (\<forall>r \<in> set message'. length r = hidden_size M)"
proof -
  let ?h = "hidden_size M"
  from round obtain G G' N P where
    G: "index_select_ND message (bgraph g) = Inr G" and
    G': "(if message_attention M then collect (map (attend_messages M) G) else Inr G) = Inr G'" and
    N: "linear_rows (W_h M) (map (sum_vectors ?h) G') = Inr N" and
    P: "tensor_add binput N = Inr P" and
    m': "message' = dropout_layer M masks k (map (map (activate (act_func M))) P)"
    by (auto simp: message_round_def bind_error_def split: sum.splits)
  from table(1) have b0: "0 < length (bgraph g)" by simp
  from index_select_ND_Inr [OF G] b0
  have lenG: "length G = length (bgraph g)" and G0: "G ! 0 = map ((!) message) (bgraph g ! 0)"
    by simp_all
  have zG: "v = replicate ?h 0" if "v \<in> set (G ! 0)" for v
    using that table(2) message(2) unfolding G0 by auto
  have lenG': "length G' = length G" and zG': "\<And>v. v \<in> set (G' ! 0) \<Longrightarrow> v = replicate ?h 0"
  proof -
    show "length G' = length G"
      using G' collect_Inr [of "attend_messages M" G G'] by (auto split: if_splits)
    fix v
    assume v: "v \<in> set (G' ! 0)"
    show "v = replicate ?h 0"
    proof (cases "message_attention M")
      case True
      with G' have "collect (map (attend_messages M) G) = Inr G'" by simp
      from collect_Inr [OF this] b0 lenG have "attend_messages M (G ! 0) = Inr (G' ! 0)" by simp
      from attend_messages_zeros [OF this zG v] show ?thesis .
    next
      case False
      with G' v zG show ?thesis by simp
    qed
  qed
  from lenG lenG' b0 have g0: "0 < length G'" by simp
  from linear_rows_Inr [OF N] g0
  have lenN: "length N = length G'"
    and N0: "linear (W_h M) (sum_vectors ?h (G' ! 0)) = Inr (N ! 0)"
    and wN: "\<And>r. r \<in> set N \<Longrightarrow> length r = ?h"
    using h(3) by simp_all
  from sum_vectors_zeros [of "G' ! 0" ?h] zG'
  have "sum_vectors ?h (G' ! 0) = replicate ?h 0" by blast
  with N0 linear_zero [OF h(1)] h(2,3) have Nz: "N ! 0 = replicate ?h 0" by simp
  from lenN g0 have "N \<noteq> []" by auto
  from tensor_add_row_0 [OF P binput(1) this] binput(2) Nz
  have P: "P \<noteq> []" "P ! 0 = replicate ?h 0"
    and wP: "\<And>r. r \<in> set P \<Longrightarrow> length r = ?h"
    using tensor_add_widths [OF P binput(3) wN] by (simp_all add: add_zero_vector)
  let ?A = "map (map (activate (act_func M))) P"
  from P have A: "?A \<noteq> []" "?A ! 0 = replicate ?h 0"
    by (simp_all add: nth_map [of 0 P] map_replicate)
  have wA: "length r = ?h" if "r \<in> set ?A" for r
    using that wP by auto
  have wD: "length r = ?h" if "r \<in> set (dropout_layer M masks k ?A)" for r
    using dropout_layer_widths [OF wA that] .
  from dropout_layer_zero_row [OF A, of M masks k] wD show ?thesis
    unfolding m' by simp
qed

lemma message_rounds_zero_row:
  assumes h: "bias (W_h M) = None" "in_features (W_h M) = hidden_size M"
      "out_features (W_h M) = hidden_size M"
    and binput: "binput \<noteq> []" "binput ! 0 = replicate (hidden_size M) 0"
      "\<And>r. r \<in> set binput \<Longrightarrow> length r = hidden_size M"
    and table: "bgraph g \<noteq> []" "\<And>k. k \<in> set (bgraph g ! 0) \<Longrightarrow> k = 0"
  shows "message \<noteq> [] \<Longrightarrow> message ! 0 = replicate (hidden_size M) 0 \<Longrightarrow>
         \<forall>r \<in> set message. length r = hidden_size M \<Longrightarrow>
         message_rounds M masks g binput k n message = Inr message' \<Longrightarrow>
         message' \<noteq> [] \<and> message' ! 0 = replicate (hidden_size M) 0
         \<and> (\<forall>r \<in> set message'. length r = hidden_size M)"
proof (induction n arbitrary: k message)
  case 0
  then show ?case by simp
next
  case (Suc n)
  from Suc.prems(4) obtain m1 where
    r: "message_round M masks g binput k message = Inr m1" and
    rest: "message_rounds M masks g binput (Suc k) n m1 = Inr message'"
    by (auto simp: bind_error_def split: sum.splits)
  from message_round_zero_row [OF h binput table Suc.prems(1,2) r]
  have "m1 \<noteq> []" "m1 ! 0 = replicate (hidden_size M) 0" "\<forall>r \<in> set m1. length r = hidden_size M"
    by simp_all
  from Suc.IH [OF this rest] show ?case .
qed

lemma sum_vectors_skip_zero_rows:
  assumes "message \<noteq> []" and "message ! 0 = replicate h 0"
    and "\<And>r. r \<in> set message \<Longrightarrow> length r = h"
  shows "\<forall>k \<in> set row. k < length message \<Longrightarrow>
         sum_vectors h (map ((!) message) row)
           = sum_vectors h (map ((!) message) (filter (\<lambda>k. k \<noteq> 0) row))"
proof (induction row)
  case Nil
  then show ?case by simp
next
  case (Cons k row)
  then have IH: "sum_vectors h (map ((!) message) row)
                   = sum_vectors h (map ((!) message) (filter (\<lambda>k. k \<noteq> 0) row))"
    by simp
  have "length (sum_vectors h (map ((!) message) row)) = h"
    by (rule length_sum_vectors) (use Cons.prems assms(3) in auto)
  from add_zero_vector [OF this] IH assms(2) show ?case
    by (simp add: sum_vectors_def)
qed

subsection \<open>The message passing rounds return on well-shaped graphs\<close>

lemma collect_succeeds:
  "(\<And>x. x \<in> set xs \<Longrightarrow> \<exists>y. f x = Inr y) \<Longrightarrow> \<exists>ys. collect (map f xs) = Inr ys"
proof (induction xs)
  case Nil
  then show ?case by simp
next
  case (Cons x xs)
  then obtain y ys where "f x = Inr y" "collect (map f xs) = Inr ys"
    by (metis list.set_intros(1) list.set_intros(2))
  then show ?case by simp
qed

lemma linear_rows_succeeds:
  assumes "\<And>r. r \<in> set X \<Longrightarrow> length r = in_features L"
  shows "\<exists>Y. linear_rows L X = Inr Y"
  unfolding linear_rows_def
  by (rule collect_succeeds) (simp add: linear_def assms)

lemma index_select_ND_succeeds:
  assumes "\<And>row k. row \<in> set idx \<Longrightarrow> k \<in> set row \<Longrightarrow> k < length src"
  shows "\<exists>G. index_select_ND src idx = Inr G"
  unfolding index_select_ND_def
proof (rule collect_succeeds)
  fix row
  assume "row \<in> set idx"
  with assms have "\<And>k. k \<in> set row \<Longrightarrow> k < length src" by blast
  then show "\<exists>y. collect (map (\<lambda>k. if k < length src then Inr (src ! k) else Inl IndexError) row)
                = Inr y"
    by (intro collect_succeeds) simp
qed

lemma attend_messages_succeeds:
  assumes "in_features (W_ma1 M) = hidden_size M"
    and "\<And>v. v \<in> set G \<Longrightarrow> length v = hidden_size M"
  shows "\<exists>G'. attend_messages M G = Inr G' \<and> (\<forall>v \<in> set G'. length v = hidden_size M)"
proof -
  from linear_rows_succeeds [of G "W_ma1 M"] assms obtain scores where
    s: "linear_rows (W_ma1 M) G = Inr scores" by auto
  let ?G' = "map2 (\<lambda>w v. map2 (*) v (replicate (hidden_size M) w)) (softmax (map hd scores)) G"
  have "length v = hidden_size M" if "v \<in> set ?G'" for v
  proof -
    from that obtain w u where "(w, u) \<in> set (zip (softmax (map hd scores)) G)"
      and v: "v = map2 (*) u (replicate (hidden_size M) w)" by auto
    then have "u \<in> set G" by (auto dest: set_zip_rightD)
    with assms(2) v show ?thesis by simp
  qed
  with s show ?thesis
    by (simp add: attend_messages_def bind_error_def)
qed

lemma activate_rows_widths:
  "(\<And>r. r \<in> set X \<Longrightarrow> length r = h) \<Longrightarrow> r \<in> set (map (map f) X) \<Longrightarrow> length r = h"
  by auto

lemma length_dropout_layer [simp]: "length (dropout_layer M masks k X) = length X"
  by (simp add: dropout_layer_def)

lemma message_round_succeeds:
  assumes h: "in_features (W_h M) = hidden_size M" "out_features (W_h M) = hidden_size M"
      "in_features (W_ma1 M) = hidden_size M"
    and binput: "length binput = length (bgraph g)"
      "\<And>r. r \<in> set binput \<Longrightarrow> length r = hidden_size M"
    and table: "\<And>row k. row \<in> set (bgraph g) \<Longrightarrow> k \<in> set row \<Longrightarrow> k < length binput"
    and message: "length message = length binput"
      "\<And>r. r \<in> set message \<Longrightarrow> length r = hidden_size M"
  shows "\<exists>message'. message_round M masks g binput k message = Inr message'
           \<and> length message' = length binput
           \<and> (\<forall>r \<in> set message'. length r = hidden_size M)"
proof -
  let ?h = "hidden_size M"
  from index_select_ND_succeeds [of "bgraph g" message] table message(1)
  obtain G where G: "index_select_ND message (bgraph g) = Inr G" by auto
  from index_select_ND_Inr [OF G]
  have lenG: "length G = length (bgraph g)"
    and Gi: "\<And>i. i < length (bgraph g) \<Longrightarrow> G ! i = map ((!) message) (bgraph g ! i)"
    by simp_all
  have wG: "length v = ?h" if "X \<in> set G" "v \<in> set X" for X v
  proof -
    from that(1) lenG obtain i where i: "i < length (bgraph g)" "G ! i = X"
      by (auto simp: in_set_conv_nth)
    with Gi that(2) obtain j where "j \<in> set (bgraph g ! i)" "v = message ! j" by auto
    moreover with table [of "bgraph g ! i" j] i(1) message(1) have "j < length message" by simp
    ultimately show ?thesis using message(2) by simp
  qed
  have "\<exists>G'. (if message_attention M then collect (map (attend_messages M) G) else Inr G) = Inr G'
          \<and> length G' = length G \<and> (\<forall>X \<in> set G'. \<forall>v \<in> set X. length v = ?h)"
  proof (cases "message_attention M")
    case True
    have "\<exists>y. attend_messages M X = Inr y" if "X \<in> set G" for X
      using attend_messages_succeeds [OF h(3), of X] wG [OF that] by blast
    from collect_succeeds [of G "attend_messages M", OF this] obtain G' where
      G': "collect (map (attend_messages M) G) = Inr G'" by blast
    from collect_Inr [OF G']
    have len: "length G' = length G"
      and each: "\<And>i. i < length G \<Longrightarrow> attend_messages M (G ! i) = Inr (G' ! i)" by simp_all
    have "length v = ?h" if "X \<in> set G'" "v \<in> set X" for X v
    proof -
      from that(1) len obtain i where i: "i < length G" "G' ! i = X"
        by (auto simp: in_set_conv_nth)
      from attend_messages_succeeds [OF h(3), of "G ! i"] wG [of "G ! i"] i(1) each [OF i(1)] i(2)
        that(2)
      show ?thesis by auto
    qed
    with True G' len show ?thesis by auto
  next
    case False
    with wG show ?thesis by auto
  qed
  then obtain G' where
    G': "(if message_attention M then collect (map (attend_messages M) G) else Inr G) = Inr G'"
    and lenG': "length G' = length G"
    and wG': "\<And>X v. X \<in> set G' \<Longrightarrow> v \<in> set X \<Longrightarrow> length v = ?h" by blast
  have "length r = in_features (W_h M)" if "r \<in> set (map (sum_vectors ?h) G')" for r
    using that wG' h(1) by (auto simp: length_sum_vectors)
  from linear_rows_succeeds [OF this] obtain N where
    N: "linear_rows (W_h M) (map (sum_vectors ?h) G') = Inr N" by blast
  from linear_rows_Inr(1,3) [OF N] h(2)
  have lenN: "length N = length G'" and wN: "\<And>r. r \<in> set N \<Longrightarrow> length r = ?h" by simp_all
  let ?P = "map2 (map2 (+)) binput N"
  from lenN lenG' lenG binput(1) have P: "tensor_add binput N = Inr ?P"
    by (simp add: tensor_add_def)
  have wP: "length r = ?h" if "r \<in> set ?P" for r
    using tensor_add_widths [OF P binput(2) wN that] .
  let ?A = "map (map (activate (act_func M))) ?P"
  have wA: "length r = ?h" if "r \<in> set ?A" for r
    using activate_rows_widths [OF wP that] .
  have wD: "length r = ?h" if "r \<in> set (dropout_layer M masks k ?A)" for r
    using dropout_layer_widths [OF wA that] .
  have "message_round M masks g binput k message = Inr (dropout_layer M masks k ?A)"
    by (simp add: message_round_def bind_error_def G G' N P)
  moreover have "length (dropout_layer M masks k ?A) = length binput"
    using lenN lenG' lenG binput(1) by simp
  ultimately show ?thesis using wD by blast
qed

lemma message_rounds_succeeds:
  assumes h: "in_features (W_h M) = hidden_size M" "out_features (W_h M) = hidden_size M"
      "in_features (W_ma1 M) = hidden_size M"
    and binput: "length binput = length (bgraph g)"
      "\<And>r. r \<in> set binput \<Longrightarrow> length r = hidden_size M"
    and table: "\<And>row k. row \<in> set (bgraph g) \<Longrightarrow> k \<in> set row \<Longrightarrow> k < length binput"
  shows "length message = length binput \<Longrightarrow> \<forall>r \<in> set message. length r = hidden_size M \<Longrightarrow>
         \<exists>message'. message_rounds M masks g binput k n message = Inr message'
           \<and> length message' = length binput"
proof (induction n arbitrary: k message)
  case 0
  then show ?case by simp
next
  case (Suc n)
  have "\<exists>message'. message_round M masks g binput k message = Inr message'
           \<and> length message' = length binput
           \<and> (\<forall>r \<in> set message'. length r = hidden_size M)"
  proof (rule message_round_succeeds)
    show "in_features (W_h M) = hidden_size M" "out_features (W_h M) = hidden_size M"
      "in_features (W_ma1 M) = hidden_size M" "length binput = length (bgraph g)"
      "length message = length binput"
      using h binput(1) Suc.prems(1) by simp_all
    show "\<And>r. r \<in> set binput \<Longrightarrow> length r = hidden_size M" using binput(2) .
    show "\<And>row k. row \<in> set (bgraph g) \<Longrightarrow> k \<in> set row \<Longrightarrow> k < length binput"
      using table .
    show "\<And>r. r \<in> set message \<Longrightarrow> length r = hidden_size M" using Suc.prems(2) by simp
  qed
  then obtain m1 where "message_round M masks g binput k message = Inr m1"
    and "length m1 = length binput" and "\<forall>r \<in> set m1. length r = hidden_size M"
    by blast
  with Suc.IH [of m1 "Suc k"] show ?case by (simp add: bind_error_def)
qed

subsection \<open>The shape of a batched graph\<close>

lemma MPN_init_W_ma1:
  "MPN_init a p = Inr M \<Longrightarrow> in_features (W_ma1 M) = hidden_size M"
  by (auto simp: MPN_init_def bind_error_def Let_def split: sum.splits)

lemma MPN_init_demo: "MPN_init demo_args demo_parameters = Inr demo_MPN"
  by (simp add: MPN_init_def demo_args_def demo_parameters_def demo_MPN_def
      select_activation_def bind_error_def)

lemma torch_stack_Inr:
  assumes "torch_stack ts = Inr ts'"
  shows "ts' = ts" and "ts \<noteq> []" and "\<And>r. r \<in> set ts \<Longrightarrow> length r = length (ts ! 0)"
  using assms by (auto simp: torch_stack_def list_all_iff split: list.splits if_splits)

lemma build_graph_fbonds:
  "build_graph v = Inr g \<Longrightarrow> torch_stack (fbonds_v v) = Inr (fbonds g)"
  by (auto simp: build_graph_def Let_def torch_stack_def split: sum.splits list.splits if_splits)

lemma mol2graph_fbonds:
  assumes "mol2graph tk dr B a t ve st = (Inr g, st')"
  shows "fbonds g \<noteq> []"
    and "fbonds g ! 0 = replicate (get_atom_fdim + get_bond_fdim t ve) 0"
    and "\<And>r. r \<in> set (fbonds g) \<Longrightarrow> length r = get_atom_fdim + get_bond_fdim t ve"
proof -
  from assms obtain v where g: "build_graph v = Inr g" by (rule mol2graph_Inr)
  from mol2graph_rows [OF assms]
  show ne: "fbonds g \<noteq> []"
    and z: "fbonds g ! 0 = replicate (get_atom_fdim + get_bond_fdim t ve) 0"
    by auto
  fix r
  assume "r \<in> set (fbonds g)"
  with torch_stack_Inr [OF build_graph_fbonds [OF g]] build_graph_Inr(2) [OF g] z
  show "length r = get_atom_fdim + get_bond_fdim t ve" by simp
qed

lemma mol2graph_bgraph:
  assumes "mol2graph tk dr B a t ve st = (Inr g, st')"
  shows "bgraph g \<noteq> []" and "\<And>k. k \<in> set (bgraph g ! 0) \<Longrightarrow> k = 0"
proof -
  from assms obtain v where
    loop: "batch_loop tk dr a t ve B (initial_vars t ve) st = (Inr v, st')" and
    g: "build_graph v = Inr g"
    by (rule mol2graph_Inr)
  from batch_loop_inv [OF initial_vars_inv loop]
  have inv: "bonds_inv (all_bonds v) (in_bonds v)" and len: "length (in_bonds v) = total_atoms v"
    by simp_all
  note t = build_graph_tables [OF inv len g]
  from inv have "all_bonds v \<noteq> []" by (simp add: bonds_inv_def)
  with t(3) show "bgraph g \<noteq> []" by auto
  fix k
  assume "k \<in> set (bgraph g ! 0)"
  then show "k = 0" unfolding t(6) by simp
qed

lemma add_bond_length:
  "add_bond off (ab, ib) p = Inr (ab', ib') \<Longrightarrow> length ab' = length ab + 1"
  by (auto simp: add_bond_def Let_def split: prod.splits if_splits)

lemma add_bonds_length:
  "add_bonds off ps (ab, ib) = Inr (ab', ib') \<Longrightarrow> length ab' = length ab + length ps"
proof (induction ps arbitrary: ab ib)
  case Nil
  then show ?case by simp
next
  case (Cons p ps)
  from Cons.prems obtain ab1 ib1 where
    1: "add_bond off (ab, ib) p = Inr (ab1, ib1)" and
    2: "add_bonds off ps (ab1, ib1) = Inr (ab', ib')"
    by (auto split: sum.splits)
  from Cons.IH [OF 2] add_bond_length [OF 1] show ?case by simp
qed

lemma batch_loop_bond_rows:
  "wf_cache tk st \<Longrightarrow> length (fbonds_v v) = length (all_bonds v) \<Longrightarrow>
   batch_loop tk dr a t ve B v st = (Inr v', st') \<Longrightarrow>
   length (fbonds_v v') = length (all_bonds v')"
proof (induction B arbitrary: v st)
  case Nil
  then show ?case by simp
next
  case (Cons s B)
  from Cons.prems(3) obtain e st1 v1 where
    l: "load_features tk dr s a t ve st = (Inr e, st1)" and
    am: "add_molecule e v = Inr v1" and
    rest: "batch_loop tk dr a t ve B v1 st1 = (Inr v', st')"
    by (rule batch_loop_Cons_Inr)
  from load_features_wf [OF Cons.prems(1) l] have wf1: "wf_cache tk st1" .
  from load_features_Inr(1) [OF l] have "SMILES_TO_FEATURES st1 s = Some e" by simp
  from wf_cacheD [OF wf1 this] have "wf_features e" by simp
  then have "length (fst (snd e)) = length (fst (snd (snd e)))"
    by (auto simp: wf_features_def split: prod.splits)
  with add_molecule_Inr(2) [OF am] add_bonds_length [OF add_molecule_Inr(5) [OF am]] Cons.prems(2)
  have "length (fbonds_v v1) = length (all_bonds v1)" by simp
  from Cons.IH [OF wf1 this rest] show ?case .
qed

lemma incoming_bound: "b \<in> set (incoming ab i) \<Longrightarrow> b < length ab"
  by (auto simp: incoming_def)

lemma mol2graph_bgraph_bounds:
  assumes "wf_cache tk st" and "mol2graph tk dr B a t ve st = (Inr g, st')"
  shows "length (bgraph g) = length (fbonds g)"
    and "\<And>row k. row \<in> set (bgraph g) \<Longrightarrow> k \<in> set row \<Longrightarrow> k < length (fbonds g)"
proof -
  from assms(2) obtain v where
    loop: "batch_loop tk dr a t ve B (initial_vars t ve) st = (Inr v, st')" and
    g: "build_graph v = Inr g"
    by (rule mol2graph_Inr)
  from batch_loop_inv [OF initial_vars_inv loop]
  have inv: "bonds_inv (all_bonds v) (in_bonds v)" and len: "length (in_bonds v) = total_atoms v"
    by simp_all
  note t = build_graph_tables [OF inv len g]
  have "length (fbonds_v (initial_vars t ve)) = length (all_bonds (initial_vars t ve))"
    by (simp add: initial_vars_def Let_def)
  from batch_loop_bond_rows [OF assms(1) this loop] build_graph_Inr(2) [OF g]
  have fb: "length (fbonds g) = length (all_bonds v)" by simp
  with t(3) show "length (bgraph g) = length (fbonds g)" by simp
  from inv have ne: "0 < length (all_bonds v)" by (simp add: bonds_inv_def)
  fix row k
  assume "row \<in> set (bgraph g)" and k: "k \<in> set row"
  then obtain b1 where b1: "b1 < length (all_bonds v)" and row: "row = bgraph g ! b1"
    using t(3) by (auto simp: in_set_conv_nth)
  show "k < length (fbonds g)"
  proof (cases "b1 = 0")
    case True
    with k row t(6) ne fb show ?thesis by simp
  next
    case False
    then have "1 \<le> b1" by simp
    from t(7) [OF this b1] k row ne fb show ?thesis
      by (auto dest: incoming_bound)
  qed
qed

subsection \<open>The sentinel row of the message tensor\<close>

lemma message_after_zero_row:
  assumes i: "bias (W_i M) = None" "out_features (W_i M) = hidden_size M"
    and h: "bias (W_h M) = None" "in_features (W_h M) = hidden_size M"
      "out_features (W_h M) = hidden_size M"
    and fb: "fbonds g \<noteq> []" "fbonds g ! 0 = replicate w 0"
    and table: "bgraph g \<noteq> []" "\<And>k. k \<in> set (bgraph g ! 0) \<Longrightarrow> k = 0"
    and m: "message_after M masks g n = Inr message"
  shows "message \<noteq> [] \<and> message ! 0 = replicate (hidden_size M) 0
         \<and> (\<forall>r \<in> set message. length r = hidden_size M)"
proof -
  let ?h = "hidden_size M"
  from m obtain binput where
    b: "linear_rows (W_i M) (fbonds g) = Inr binput" and
    r: "message_rounds M masks g binput 0 n (map (map (activate (act_func M))) binput)
          = Inr message"
    by (auto simp: message_after_def bind_error_def split: sum.splits)
  from fb(1) have f0: "0 < length (fbonds g)" by simp
  from linear_rows_Inr [OF b] f0 i(2)
  have lenb: "length binput = length (fbonds g)"
    and b0: "linear (W_i M) (fbonds g ! 0) = Inr (binput ! 0)"
    and wb: "\<And>r. r \<in> set binput \<Longrightarrow> length r = ?h"
    by simp_all
  from linear_Inr [OF b0] fb(2) have "w = in_features (W_i M)" by simp
  with b0 fb(2) linear_zero [OF i(1)] i(2) have bz: "binput ! 0 = replicate ?h 0" by simp
  from lenb f0 have bne: "binput \<noteq> []" by auto
  let ?m0 = "map (map (activate (act_func M))) binput"
  from bne have m0: "?m0 \<noteq> []" by simp
  from bne bz have m0z: "?m0 ! 0 = replicate ?h 0"
    by (simp add: nth_map [of 0 binput] map_replicate)
  from wb have m0w: "\<forall>r \<in> set ?m0. length r = ?h" by auto
  from message_rounds_zero_row [OF h bne bz wb table m0 m0z m0w r] show ?thesis .
qed

lemma message_after_succeeds:
  assumes i: "out_features (W_i M) = hidden_size M"
    and h: "in_features (W_h M) = hidden_size M" "out_features (W_h M) = hidden_size M"
      "in_features (W_ma1 M) = hidden_size M"
    and fb: "\<And>r. r \<in> set (fbonds g) \<Longrightarrow> length r = in_features (W_i M)"
    and table: "length (bgraph g) = length (fbonds g)"
      "\<And>row k. row \<in> set (bgraph g) \<Longrightarrow> k \<in> set row \<Longrightarrow> k < length (fbonds g)"
  shows "\<exists>message. message_after M masks g n = Inr message
           \<and> length message = length (fbonds g)"
proof -
  let ?h = "hidden_size M"
  from linear_rows_succeeds [of "fbonds g" "W_i M"] fb obtain binput where
    b: "linear_rows (W_i M) (fbonds g) = Inr binput" by blast
  from linear_rows_Inr(1,3) [OF b] i
  have lenb: "length binput = length (fbonds g)"
    and wb: "\<And>r. r \<in> set binput \<Longrightarrow> length r = ?h"
    by simp_all
  let ?m0 = "map (map (activate (act_func M))) binput"
  have "\<exists>message'. message_rounds M masks g binput 0 n ?m0 = Inr message'
           \<and> length message' = length binput"
  proof (rule message_rounds_succeeds)
    show "in_features (W_h M) = hidden_size M" "out_features (W_h M) = hidden_size M"
      "in_features (W_ma1 M) = hidden_size M" "length binput = length (bgraph g)"
      "length ?m0 = length binput"
      using h lenb table(1) by simp_all
    show "\<And>r. r \<in> set binput \<Longrightarrow> length r = ?h" using wb .
    show "\<And>row k. row \<in> set (bgraph g) \<Longrightarrow> k \<in> set row \<Longrightarrow> k < length binput"
      using table(2) lenb by simp
    show "\<forall>r \<in> set ?m0. length r = ?h" using wb by auto
  qed
  with b lenb show ?thesis
    by (auto simp: message_after_def bind_error_def)
qed

lemma forward_message_after:
  "forward M masks g =
     bind_error (message_after M masks g (nat (depth M - 1))) (\<lambda>message.
     bind_error (atom_aggregation M masks g (nat (depth M - 1)) message)
       (readout M masks g (nat (depth M - 1) + 1)))"
  by (simp add: forward_def message_after_def Let_def bind_error_def split: sum.splits)

lemma bind_error_assoc:
  "bind_error (bind_error x f) g = bind_error x (\<lambda>y. bind_error (f y) g)"
  by (simp add: bind_error_def split: sum.splits)

lemma message_rounds_snoc:
  "message_rounds M masks g binput k (Suc n) message =
     bind_error (message_rounds M masks g binput k n message)
       (message_round M masks g binput (k + n))"
proof (induction n arbitrary: k message)
  case 0
  show ?case by (simp add: bind_error_def split: sum.splits)
next
  case (Suc n)
  have "message_rounds M masks g binput k (Suc (Suc n)) message =
          bind_error (message_round M masks g binput k message)
            (message_rounds M masks g binput (Suc k) (Suc n))"
    by simp
  also have "\<dots> = bind_error (message_round M masks g binput k message) (\<lambda>m1.
          bind_error (message_rounds M masks g binput (Suc k) n m1)
            (message_round M masks g binput (Suc k + n)))"
    unfolding Suc.IH ..
  also have "\<dots> = bind_error (message_rounds M masks g binput k (Suc n) message)
                     (message_round M masks g binput (k + Suc n))"
    by (simp add: bind_error_assoc)
  finally show ?case .
qed

lemma message_after_Suc:
  "message_after M masks g (Suc n) =
     bind_error (linear_rows (W_i M) (fbonds g)) (\<lambda>binput.
     bind_error (message_after M masks g n) (message_round M masks g binput n))"
  unfolding message_after_def message_rounds_snoc
  by (simp add: bind_error_def split: sum.splits)

subsection \<open>What a gathered sentinel contributes\<close>

lemma attend_messages_Inr:
  assumes "attend_messages M G = Inr G'"
  shows "length G' = length G"
    and "\<And>j. j < length G \<Longrightarrow> G ! j = replicate (hidden_size M) 0 \<Longrightarrow>
           G' ! j = replicate (hidden_size M) 0"
proof -
  let ?h = "hidden_size M"
  from assms obtain scores where
    s: "linear_rows (W_ma1 M) G = Inr scores" and
    G': "G' = map2 (\<lambda>w v. map2 (*) v (replicate ?h w)) (softmax (map hd scores)) G"
    by (auto simp: attend_messages_def bind_error_def split: sum.splits)
  from linear_rows_Inr(1) [OF s] have len: "length (softmax (map hd scores)) = length G"
    by (simp add: softmax_def)
  then show "length G' = length G" unfolding G' by simp
  show "G' ! j = replicate ?h 0" if "j < length G" "G ! j = replicate ?h 0" for j
    using that len unfolding G'
    by (simp add: map2_map_map [symmetric] zip_replicate map_replicate_const
        del: map2_map_map)
qed

lemma length_sum_vectors_le: "length (sum_vectors h vs) \<le> h"
  by (induction vs) (auto simp: sum_vectors_def)

lemma add_zero_vector_le: "length s \<le> h \<Longrightarrow> map2 (+) (replicate h (0::real)) s = s"
  by (rule nth_equalityI) simp_all

lemma sum_vectors_skip_sentinels:
  assumes "length ks = length vs"
  shows "(\<And>j. j < length ks \<Longrightarrow> ks ! j = (0::nat) \<Longrightarrow> vs ! j = replicate h 0) \<Longrightarrow>
         sum_vectors h vs = sum_vectors h (map snd (filter (\<lambda>(k, v). k \<noteq> 0) (zip ks vs)))"
  using assms
proof (induction ks vs rule: list_induct2)
  case Nil
  then show ?case by simp
next
  case (Cons k ks v vs)
  have IH: "sum_vectors h vs = sum_vectors h (map snd (filter (\<lambda>(k, v). k \<noteq> 0) (zip ks vs)))"
  proof (rule Cons.IH)
    show "vs ! j = replicate h 0" if "j < length ks" "ks ! j = 0" for j
      using Cons.prems(1) [of "Suc j"] that by simp
  qed
  show ?case
  proof (cases "k = 0")
    case True
    with Cons.prems(1) [of 0] have v: "v = replicate h 0" by simp
    from add_zero_vector_le [OF length_sum_vectors_le [of h vs]] IH True v show ?thesis
      by (simp add: sum_vectors_def)
  next
    case False
    with IH show ?thesis by (simp add: sum_vectors_def)
  qed
qed

subsection \<open>The sentinel row through \<open>forward\<close>\<close>

text \<open>
  C4. Let \<open>M\<close> be a module that \<open>MPN.__init__\<close> has built, in training or in evaluation
  mode, and \<open>g\<close> a batched graph that \<open>mol2graph\<close> has returned. Row 0 of \<open>fbonds\<close> is the
  all-zero padding row. \<open>W_i\<close> and \<open>W_h\<close> have no bias and the activation maps 0 to 0.
  \<open>forward\<close> feeds the message tensor after \<open>depth - 1\<close> rounds into the atom aggregation,
  and the tensor after \<open>n + 1\<close> rounds is one pass of the loop body on the tensor after
  \<open>n\<close> rounds. Whenever the message tensor after \<open>n\<close> rounds exists (\<open>n = 0\<close> is the
  initial projection), for every dropout mask and with or without message attention,
  its row 0 is the zero vector of width \<open>hidden_size\<close>; so, for a row of an index table
  within the tensor, the sum of the gathered rows is the sum over the nonzero indices
  alone, and after the scaling of message attention the slots of index 0 still hold
  the zero vector and the sum is the sum over the other slots (the weights of those
  slots are a softmax over all slots of the row, the sentinel's included). From a
  state the module can reach, and when the module was configured with the flags the
  graph was built with, the message tensor after every number of rounds does exist and
  has one row per row of \<open>fbonds\<close>. Arithmetic is that of the real numbers.
\<close>

theorem sentinel_row_stays_zero:
  assumes init: "MPN_init a p = Inr M0"
    and mode: "M = M0\<lparr>training := mode\<rparr>"
    and g: "mol2graph tk dr mol_batch addHs three_d virtual_edges st = (Inr g, st')"
  shows "fbonds g \<noteq> []
     \<and> fbonds g ! 0 = replicate (get_atom_fdim + get_bond_fdim three_d virtual_edges) 0
     \<and> bias (W_i M) = None \<and> bias (W_h M) = None \<and> activate (act_func M) 0 = 0
     \<and> forward M masks g
         = bind_error (message_after M masks g (nat (depth M - 1))) (\<lambda>message.
           bind_error (atom_aggregation M masks g (nat (depth M - 1)) message)
             (readout M masks g (nat (depth M - 1) + 1)))
     \<and> (\<forall>n. message_after M masks g (Suc n)
              = bind_error (linear_rows (W_i M) (fbonds g)) (\<lambda>binput.
                bind_error (message_after M masks g n) (message_round M masks g binput n)))
     \<and> (\<forall>n message. message_after M masks g n = Inr message \<longrightarrow>
          message \<noteq> [] \<and> message ! 0 = replicate (hidden_size M) 0
          \<and> (\<forall>row. (\<forall>k \<in> set row. k < length message) \<longrightarrow>
                sum_vectors (hidden_size M) (map ((!) message) row)
                  = sum_vectors (hidden_size M) (map ((!) message) (filter (\<lambda>k. k \<noteq> 0) row))
                \<and> (\<forall>G. attend_messages M (map ((!) message) row) = Inr G \<longrightarrow>
                      (\<forall>j < length row. row ! j = 0 \<longrightarrow> G ! j = replicate (hidden_size M) 0)
                      \<and> sum_vectors (hidden_size M) G
                          = sum_vectors (hidden_size M)
                              (map snd (filter (\<lambda>(k, v). k \<noteq> 0) (zip row G))))))
     \<and> (reachable tk st \<and> arg_three_d a = three_d \<and> arg_virtual_edges a = virtual_edges \<longrightarrow>
          (\<forall>n. \<exists>message. message_after M masks g n = Inr message
                  \<and> length message = length (fbonds g)))"
proof -
  let ?h = "hidden_size M"
  from MPN_init_Inr [OF init] MPN_init_W_ma1 [OF init] mode
  have i: "bias (W_i M) = None" "out_features (W_i M) = ?h"
    and h: "bias (W_h M) = None" "in_features (W_h M) = ?h" "out_features (W_h M) = ?h"
    and ma: "in_features (W_ma1 M) = ?h"
    and wi: "in_features (W_i M)
               = get_atom_fdim + get_bond_fdim (arg_three_d a) (arg_virtual_edges a)"
    by simp_all
  note fb = mol2graph_fbonds [OF g]
  note bg = mol2graph_bgraph [OF g]
  have act: "activate (act_func M) 0 = 0" by simp
  have rounds: "\<forall>n. message_after M masks g (Suc n)
              = bind_error (linear_rows (W_i M) (fbonds g)) (\<lambda>binput.
                bind_error (message_after M masks g n) (message_round M masks g binput n))"
    by (intro allI) (rule message_after_Suc)
  have zero: "message \<noteq> [] \<and> message ! 0 = replicate ?h 0
          \<and> (\<forall>row. (\<forall>k \<in> set row. k < length message) \<longrightarrow>
                sum_vectors ?h (map ((!) message) row)
                  = sum_vectors ?h (map ((!) message) (filter (\<lambda>k. k \<noteq> 0) row))
                \<and> (\<forall>G. attend_messages M (map ((!) message) row) = Inr G \<longrightarrow>
                      (\<forall>j < length row. row ! j = 0 \<longrightarrow> G ! j = replicate ?h 0)
                      \<and> sum_vectors ?h G
                          = sum_vectors ?h (map snd (filter (\<lambda>(k, v). k \<noteq> 0) (zip row G)))))"
    if m: "message_after M masks g n = Inr message" for n message
  proof -
    from message_after_zero_row [OF i h fb(1,2) bg m]
    have ne: "message \<noteq> []" and z: "message ! 0 = replicate ?h 0"
      and w: "\<And>r. r \<in> set message \<Longrightarrow> length r = ?h"
      by simp_all
    have rows: "sum_vectors ?h (map ((!) message) row)
                  = sum_vectors ?h (map ((!) message) (filter (\<lambda>k. k \<noteq> 0) row))
                \<and> (\<forall>G. attend_messages M (map ((!) message) row) = Inr G \<longrightarrow>
                      (\<forall>j < length row. row ! j = 0 \<longrightarrow> G ! j = replicate ?h 0)
                      \<and> sum_vectors ?h G
                          = sum_vectors ?h (map snd (filter (\<lambda>(k, v). k \<noteq> 0) (zip row G))))"
      if row: "\<forall>k \<in> set row. k < length message" for row
    proof -
      from sum_vectors_skip_zero_rows [OF ne z w row]
      have s: "sum_vectors ?h (map ((!) message) row)
                 = sum_vectors ?h (map ((!) message) (filter (\<lambda>k. k \<noteq> 0) row))" .
      have a: "(\<forall>j < length row. row ! j = 0 \<longrightarrow> G ! j = replicate ?h 0)
                 \<and> sum_vectors ?h G
                     = sum_vectors ?h (map snd (filter (\<lambda>(k, v). k \<noteq> 0) (zip row G)))"
        if G: "attend_messages M (map ((!) message) row) = Inr G" for G
      proof -
        from attend_messages_Inr [OF G]
        have len: "length G = length row"
          and gz: "\<And>j. j < length row \<Longrightarrow> map ((!) message) row ! j = replicate ?h 0 \<Longrightarrow>
                     G ! j = replicate ?h 0"
          by simp_all
        have zs: "G ! j = replicate ?h 0" if "j < length row" "row ! j = 0" for j
          using gz [OF that(1)] that z by simp
        from sum_vectors_skip_sentinels [of row G ?h] len zs
        have "sum_vectors ?h G
                = sum_vectors ?h (map snd (filter (\<lambda>(k, v). k \<noteq> 0) (zip row G)))"
          by simp
        moreover have "\<forall>j < length row. row ! j = 0 \<longrightarrow> G ! j = replicate ?h 0"
          using zs by blast
        ultimately show ?thesis by (intro conjI)
      qed
      have a': "\<forall>G. attend_messages M (map ((!) message) row) = Inr G \<longrightarrow>
                      (\<forall>j < length row. row ! j = 0 \<longrightarrow> G ! j = replicate ?h 0)
                      \<and> sum_vectors ?h G
                          = sum_vectors ?h (map snd (filter (\<lambda>(k, v). k \<noteq> 0) (zip row G)))"
      proof (intro allI impI)
        fix G
        assume "attend_messages M (map ((!) message) row) = Inr G"
        from a [OF this]
        show "(\<forall>j < length row. row ! j = 0 \<longrightarrow> G ! j = replicate ?h 0)
                 \<and> sum_vectors ?h G
                     = sum_vectors ?h (map snd (filter (\<lambda>(k, v). k \<noteq> 0) (zip row G)))" .
      qed
      from s a' show ?thesis by (intro conjI)
    qed
    have rows': "\<forall>row. (\<forall>k \<in> set row. k < length message) \<longrightarrow>
                sum_vectors ?h (map ((!) message) row)
                  = sum_vectors ?h (map ((!) message) (filter (\<lambda>k. k \<noteq> 0) row))
                \<and> (\<forall>G. attend_messages M (map ((!) message) row) = Inr G \<longrightarrow>
                      (\<forall>j < length row. row ! j = 0 \<longrightarrow> G ! j = replicate ?h 0)
                      \<and> sum_vectors ?h G
                          = sum_vectors ?h (map snd (filter (\<lambda>(k, v). k \<noteq> 0) (zip row G))))"
    proof (intro allI impI)
      fix row
      assume "\<forall>k \<in> set row. k < length message"
      from rows [OF this]
      show "sum_vectors ?h (map ((!) message) row)
                  = sum_vectors ?h (map ((!) message) (filter (\<lambda>k. k \<noteq> 0) row))
                \<and> (\<forall>G. attend_messages M (map ((!) message) row) = Inr G \<longrightarrow>
                      (\<forall>j < length row. row ! j = 0 \<longrightarrow> G ! j = replicate ?h 0)
                      \<and> sum_vectors ?h G
                          = sum_vectors ?h (map snd (filter (\<lambda>(k, v). k \<noteq> 0) (zip row G))))" .
    qed
    from ne z rows' show ?thesis by (intro conjI)
  qed
  have total: "\<forall>n. \<exists>message. message_after M masks g n = Inr message
                  \<and> length message = length (fbonds g)"
    if "reachable tk st \<and> arg_three_d a = three_d \<and> arg_virtual_edges a = virtual_edges"
  proof
    fix n
    from that have wf: "wf_cache tk st" by (simp add: reachable_wf)
    note tb = mol2graph_bgraph_bounds [OF wf g]
    have w: "length r = in_features (W_i M)" if "r \<in> set (fbonds g)" for r
      using fb(3) [OF that] wi
        \<open>reachable tk st \<and> arg_three_d a = three_d \<and> arg_virtual_edges a = virtual_edges\<close>
      by simp
    show "\<exists>message. message_after M masks g n = Inr message
            \<and> length message = length (fbonds g)"
      by (rule message_after_succeeds [OF i(2) h(2,3) ma w tb])
  qed
  have zero': "\<forall>n message. message_after M masks g n = Inr message \<longrightarrow>
          message \<noteq> [] \<and> message ! 0 = replicate ?h 0
          \<and> (\<forall>row. (\<forall>k \<in> set row. k < length message) \<longrightarrow>
                sum_vectors ?h (map ((!) message) row)
                  = sum_vectors ?h (map ((!) message) (filter (\<lambda>k. k \<noteq> 0) row))
                \<and> (\<forall>G. attend_messages M (map ((!) message) row) = Inr G \<longrightarrow>
                      (\<forall>j < length row. row ! j = 0 \<longrightarrow> G ! j = replicate ?h 0)
                      \<and> sum_vectors ?h G
                          = sum_vectors ?h (map snd (filter (\<lambda>(k, v). k \<noteq> 0) (zip row G)))))"
  proof (intro allI impI)
    fix n message
    assume "message_after M masks g n = Inr message"
    from zero [OF this]
    show "message \<noteq> [] \<and> message ! 0 = replicate ?h 0
          \<and> (\<forall>row. (\<forall>k \<in> set row. k < length message) \<longrightarrow>
                sum_vectors ?h (map ((!) message) row)
                  = sum_vectors ?h (map ((!) message) (filter (\<lambda>k. k \<noteq> 0) row))
                \<and> (\<forall>G. attend_messages M (map ((!) message) row) = Inr G \<longrightarrow>
                      (\<forall>j < length row. row ! j = 0 \<longrightarrow> G ! j = replicate ?h 0)
                      \<and> sum_vectors ?h G
                          = sum_vectors ?h (map snd (filter (\<lambda>(k, v). k \<noteq> 0) (zip row G)))))" .
  qed
  have total': "reachable tk st \<and> arg_three_d a = three_d \<and> arg_virtual_edges a = virtual_edges \<longrightarrow>
          (\<forall>n. \<exists>message. message_after M masks g n = Inr message
                  \<and> length message = length (fbonds g))"
    using total by (intro impI)
  from fb(1,2) i(1) h(1) act forward_message_after [of M masks g] rounds zero' total'
  show ?thesis by (intro conjI)
qed

theorem sentinel_row_stays_zero_witness:
  "MPN_init demo_args demo_parameters = Inr demo_MPN
   \<and> demo_MPN = demo_MPN\<lparr>training := True\<rparr>
   \<and> mol2graph alkanes (constant_draws 0) [''CCC''] False False False initial_state
       = (Inr propane_graph, propane_state)
   \<and> reachable alkanes initial_state
   \<and> arg_three_d demo_args = False \<and> arg_virtual_edges demo_args = False
   \<and> message_attention demo_MPN \<and> hidden_size demo_MPN = 1 \<and> depth demo_MPN = 3
   \<and> bgraph propane_graph ! 2 = [0, 4]
   \<and> fbonds propane_graph ! 0 = replicate (get_atom_fdim + get_bond_fdim False False) 0
   \<and> (\<exists>message. message_after demo_MPN no_dropout propane_graph 2 = Inr message
         \<and> length message = 5 \<and> message ! 0 = [0]
         \<and> sum_vectors 1 (map ((!) message) [0, 4]) = sum_vectors 1 (map ((!) message) [4])
         \<and> (\<exists>G. attend_messages demo_MPN (map ((!) message) [0, 4]) = Inr G
                \<and> G ! 0 = [0]
                \<and> sum_vectors 1 G
                    = sum_vectors 1 (map snd (filter (\<lambda>(k, v). k \<noteq> 0) (zip [0::nat, 4] G)))))"
proof -
  have mode: "demo_MPN = demo_MPN\<lparr>training := True\<rparr>" by (simp add: demo_MPN_def)
  have flags: "arg_three_d demo_args = False" "arg_virtual_edges demo_args = False"
    by (simp_all add: demo_args_def)
  have M: "message_attention demo_MPN" "hidden_size demo_MPN = 1" "depth demo_MPN = 3"
    by (simp_all add: demo_MPN_def)
  have row: "bgraph propane_graph ! 2 = [0, 4]" by (simp add: propane_graph_def)
  have len5: "length (fbonds propane_graph) = 5"
    by (simp add: propane_graph_def propane_features_def Let_def)
  note T = sentinel_row_stays_zero [OF MPN_init_demo mode mol2graph_propane, of no_dropout]
  note T2 = T [THEN conjunct2]
  note T8 = T2 [THEN conjunct2, THEN conjunct2, THEN conjunct2, THEN conjunct2, THEN conjunct2,
    THEN conjunct2]
  have f0: "fbonds propane_graph ! 0 = replicate (get_atom_fdim + get_bond_fdim False False) 0"
    by (rule T2 [THEN conjunct1])
  have "\<forall>n. \<exists>message. message_after demo_MPN no_dropout propane_graph n = Inr message
                  \<and> length message = length (fbonds propane_graph)"
    by (rule T8 [THEN conjunct2, THEN mp]) (intro conjI reachable_initial flags)
  then obtain message where
    m: "message_after demo_MPN no_dropout propane_graph 2 = Inr message" and
    len: "length message = 5"
    unfolding len5 by blast
  note Z = T8 [THEN conjunct1, THEN spec, THEN spec, THEN mp, OF m]
  have z: "message ! 0 = replicate (hidden_size demo_MPN) 0"
    by (rule Z [THEN conjunct2, THEN conjunct1])
  from z M(2) have z1: "message ! 0 = [0]" by simp
  have bound: "\<forall>k \<in> set [0, 4]. k < length message" using len by simp
  note R = Z [THEN conjunct2, THEN conjunct2, THEN spec, THEN mp, OF bound]
  have s: "sum_vectors 1 (map ((!) message) [0, 4]) = sum_vectors 1 (map ((!) message) [4])"
    using R [THEN conjunct1] unfolding M(2) by simp
  from message_after_zero_row [OF MPN_init_Inr(1,3,2,4,5) [OF MPN_init_demo]
      mol2graph_fbonds(1,2) [OF mol2graph_propane] mol2graph_bgraph [OF mol2graph_propane] m]
  have w: "\<And>r. r \<in> set message \<Longrightarrow> length r = hidden_size demo_MPN" by simp
  have "length v = hidden_size demo_MPN" if "v \<in> set (map ((!) message) [0, 4])" for v
    using that w len by auto
  from attend_messages_succeeds [OF MPN_init_W_ma1 [OF MPN_init_demo] this]
  obtain G where G: "attend_messages demo_MPN (map ((!) message) [0, 4]) = Inr G" by blast
  note A = R [THEN conjunct2, THEN spec, THEN mp, OF G]
  have "0 < length [0::nat, 4]" "[0::nat, 4] ! 0 = 0" by simp_all
  from A [THEN conjunct1, rule_format, OF this] M(2) have G0: "G ! 0 = [0]" by simp
  have Gs: "sum_vectors 1 G
               = sum_vectors 1 (map snd (filter (\<lambda>(k, v). k \<noteq> 0) (zip [0::nat, 4] G)))"
    using A [THEN conjunct2] unfolding M(2) .
  from G G0 Gs
  have "\<exists>G. attend_messages demo_MPN (map ((!) message) [0, 4]) = Inr G \<and> G ! 0 = [0]
          \<and> sum_vectors 1 G
              = sum_vectors 1 (map snd (filter (\<lambda>(k, v). k \<noteq> 0) (zip [0::nat, 4] G)))"
    by (intro exI [of _ G] conjI)
  with m len z1 s
  have "\<exists>message. message_after demo_MPN no_dropout propane_graph 2 = Inr message
         \<and> length message = 5 \<and> message ! 0 = [0]
         \<and> sum_vectors 1 (map ((!) message) [0, 4]) = sum_vectors 1 (map ((!) message) [4])
         \<and> (\<exists>G. attend_messages demo_MPN (map ((!) message) [0, 4]) = Inr G
                \<and> G ! 0 = [0]
                \<and> sum_vectors 1 G
                    = sum_vectors 1 (map snd (filter (\<lambda>(k, v). k \<noteq> 0) (zip [0::nat, 4] G))))"
    by - (rule exI [of _ message], intro conjI)
  with MPN_init_demo mode mol2graph_propane reachable_initial [of alkanes] flags M row f0
  show ?thesis by (intro conjI)
qed

end
